(* ===== verification/Stream_Prelude.thy ===== *)
theory Stream_Prelude
  imports Main "HOL-Library.Word"
begin

text \<open>
  Shared vocabulary of the development: the machine types of the C++ sources, the reading of
  a \<open>std::string\<close> as a sequence of bytes, the \<open>size_t\<close> subtraction that wraps, the generic
  big-endian split and join of a word with their two round trips, and the collections
  (\<open>wire_consts\<close>, \<open>wire_write\<close>, \<open>wire_read\<close> and the introduction rules \<open>forward_intros\<close>,
  \<open>returns_intros\<close>, \<open>keeps_intros\<close>, \<open>step_intros\<close>) that the component theories fill and use.
\<close>

unbundle bit_operations_syntax

named_theorems wire_consts \<open>values of the protocol constants\<close>
named_theorems wire_write \<open>what the writers append to a buffer\<close>
named_theorems wire_read \<open>what the readers return on the bytes of a value\<close>
named_theorems step_intros \<open>operations that are runs of steps\<close>
named_theorems returns_intros \<open>operations that always return\<close>
named_theorems keeps_intros \<open>operations that leave a view of the world alone\<close>
named_theorems forward_intros \<open>reader operations that only move the cursor forward\<close>

section \<open>Machine types\<close>

type_synonym u8 = "8 word"
type_synonym u16 = "16 word"
type_synonym u32 = "32 word"
type_synonym u64 = "64 word"

text \<open>
  The signed types have the same bits; \<open>static_cast\<close> between the signed and the unsigned type
  of one width keeps them, and \<^const>\<open>sint\<close> reads them in two's complement.
\<close>

type_synonym i8 = "8 word"
type_synonym i16 = "16 word"
type_synonym i32 = "32 word"
type_synonym i64 = "64 word"

type_synonym bytes = "u8 list"

text \<open>
  A \<open>size_t\<close> value is a \<^typ>\<open>nat\<close>. Where the code subtracts two of them without a check the
  wrap-around at \<open>2\<^sup>6\<^sup>4\<close> is written out.
\<close>

definition size_sub :: "nat \<Rightarrow> nat \<Rightarrow> nat" where
  "size_sub a b = (if b \<le> a then a - b else a + 2 ^ 64 - b)"

section \<open>Strings as bytes\<close>

text \<open>
  A \<open>std::string\<close> is a HOL string; \<open>reinterpret_cast<const uint8_t*>(s.data())\<close> reads its
  characters as bytes.
\<close>

definition byte_of_char :: "char \<Rightarrow> u8" where
  "byte_of_char c = word_of_nat (of_char c)"

definition char_of_byte :: "u8 \<Rightarrow> char" where
  "char_of_byte b = char_of (unat b)"

definition bytes_of_string :: "string \<Rightarrow> bytes" where
  "bytes_of_string s = map byte_of_char s"

definition string_of_bytes :: "bytes \<Rightarrow> string" where
  "string_of_bytes bs = map char_of_byte bs"

section \<open>Big-endian split and join\<close>

text \<open>The byte of \<open>v\<close> that \<open>static_cast<uint8_t>((v >> k) & 0xFF)\<close> selects.\<close>

definition byte_at :: "nat \<Rightarrow> 'a::len word \<Rightarrow> u8" where
  "byte_at k v = ucast (drop_bit k v AND 0xFF)"

text \<open>One step of a big-endian decoding loop, \<open>v = (v << 8) | b\<close>, and the loop.\<close>

definition be_step :: "'a::len word \<Rightarrow> u8 \<Rightarrow> 'a word" where
  "be_step v b = push_bit 8 v OR ucast b"

definition be_join :: "bytes \<Rightarrow> 'a::len word" where
  "be_join bs = foldl be_step 0 bs"

text \<open>The \<open>n\<close> low bytes of a word, most significant first.\<close>

fun be_split :: "nat \<Rightarrow> 'a::len word \<Rightarrow> bytes" where
  "be_split 0 v = []"
| "be_split (Suc n) v = byte_at (8 * n) v # be_split n v"

section \<open>Lemmas\<close>

subsection \<open>size_t\<close>

lemma size_sub_le [simp]: "b \<le> a \<Longrightarrow> size_sub a b = a - b"
  by (simp add: size_sub_def)

lemma size_sub_wraps: "a < b \<Longrightarrow> b < 2 ^ 64 \<Longrightarrow> 2 ^ 64 - b \<le> size_sub a b"
  by (simp add: size_sub_def)

subsection \<open>Strings and bytes\<close>

lemma char_of_byte_of_char [simp]: "char_of_byte (byte_of_char c) = c"
proof -
  have "unat (byte_of_char c) = of_char c mod 256"
    by (simp add: byte_of_char_def unat_of_nat)
  then show ?thesis by (simp add: char_of_byte_def)
qed

lemma byte_of_char_of_byte [simp]: "byte_of_char (char_of_byte b) = b"
proof -
  have "unat b < 256"
    using unsigned_less [of b, where ?'a = nat] by simp
  then have "of_char (char_of_byte b) = unat b"
    by (simp add: char_of_byte_def of_char_of)
  then show ?thesis by (simp add: byte_of_char_def)
qed

lemma string_of_bytes_of_string [simp]: "string_of_bytes (bytes_of_string s) = s"
  by (simp add: string_of_bytes_def bytes_of_string_def comp_def)

lemma bytes_of_string_of_bytes [simp]: "bytes_of_string (string_of_bytes bs) = bs"
  by (simp add: string_of_bytes_def bytes_of_string_def comp_def)

lemma length_bytes_of_string [simp]: "length (bytes_of_string s) = length s"
  by (simp add: bytes_of_string_def)

lemma length_string_of_bytes [simp]: "length (string_of_bytes bs) = length bs"
  by (simp add: string_of_bytes_def)

lemma bytes_of_string_inject [simp]: "bytes_of_string s = bytes_of_string t \<longleftrightarrow> s = t"
  by (metis string_of_bytes_of_string)

lemma bytes_of_string_append [simp]:
  "bytes_of_string (s @ t) = bytes_of_string s @ bytes_of_string t"
  by (simp add: bytes_of_string_def)

lemma bytes_of_string_Nil_iff [simp]: "bytes_of_string s = [] \<longleftrightarrow> s = []"
  by (simp add: bytes_of_string_def)

subsection \<open>Bits of the bytes of a word\<close>

lemma and_255: "w AND 0xFF = take_bit 8 (w :: 'a::len word)"
  by (simp add: take_bit_eq_mask mask_eq_exp_minus_1)

lemma bit_byte_at: "bit (byte_at k v) n \<longleftrightarrow> n < 8 \<and> bit v (k + n)"
  by (auto simp: byte_at_def and_255 bit_simps dest: bit_imp_le_length)

lemma bit_be_step:
  "bit (be_step v b :: 'a::len word) n \<longleftrightarrow>
     n < LENGTH('a) \<and> (if n < 8 then bit b n else bit v (n - 8))"
  by (auto simp: be_step_def bit_simps dest: bit_imp_le_length)

lemma byte_at_be_step_low: "8 \<le> LENGTH('a) \<Longrightarrow> byte_at 0 (be_step v b :: 'a::len word) = b"
  by (rule bit_word_eqI) (auto simp: bit_byte_at bit_be_step)

lemma byte_at_be_step_high:
  "k + 16 \<le> LENGTH('a) \<Longrightarrow> byte_at (8 + k) (be_step v b :: 'a::len word) = byte_at k v"
  by (rule bit_word_eqI) (auto simp: bit_byte_at bit_be_step)

subsection \<open>The two round trips\<close>

lemma length_be_split [simp]: "length (be_split n v) = n"
  by (induction n) simp_all

lemma be_split_be_step:
  "8 * Suc n \<le> LENGTH('a) \<Longrightarrow> be_split (Suc n) (be_step v b :: 'a::len word) = be_split n v @ [b]"
  by (induction n) (simp_all add: byte_at_be_step_low byte_at_be_step_high)

lemma be_split_join:
  "8 * length bs \<le> LENGTH('a) \<Longrightarrow> be_split (length bs) (be_join bs :: 'a::len word) = bs"
proof (induction bs rule: rev_induct)
  case Nil
  show ?case by simp
next
  case (snoc b bs)
  have "(be_join (bs @ [b]) :: 'a word) = be_step (be_join bs) b"
    by (simp add: be_join_def)
  with snoc show ?case by (simp add: be_split_be_step del: be_split.simps)
qed

lemma foldl_be_split:
  "foldl be_step acc (be_split n v) = push_bit (8 * n) acc OR take_bit (8 * n) (v :: 'a::len word)"
proof (induction n arbitrary: acc)
  case 0
  show ?case by simp
next
  case (Suc n)
  show ?case
    by (simp add: Suc)
      (rule bit_word_eqI, auto simp: bit_be_step bit_byte_at bit_simps add.commute)
qed

lemma be_join_split: "LENGTH('a) \<le> 8 * n \<Longrightarrow> be_join (be_split n v) = (v :: 'a::len word)"
  by (simp add: be_join_def foldl_be_split take_bit_word_eq_self)

text \<open>The bytes of the widths of the protocol, for evaluation.\<close>

lemma be_split_widths:
  "be_split 2 v = [byte_at 8 v, byte_at 0 v]"
  "be_split 4 v = [byte_at 24 v, byte_at 16 v, byte_at 8 v, byte_at 0 v]"
proof -
  have "be_split (Suc (Suc 0)) v = [byte_at 8 v, byte_at 0 v]" by simp
  then show "be_split 2 v = [byte_at 8 v, byte_at 0 v]" by (simp only: numeral_2_eq_2)
  have "be_split (Suc (Suc (Suc (Suc 0)))) v = [byte_at 24 v, byte_at 16 v, byte_at 8 v, byte_at 0 v]"
    by simp
  moreover have "(4 :: nat) = Suc (Suc (Suc (Suc 0)))" by simp
  ultimately show "be_split 4 v = [byte_at 24 v, byte_at 16 v, byte_at 8 v, byte_at 0 v]"
    by (simp only:)
qed

text \<open>A counter that has not reached its maximum grows.\<close>

lemma word_less_succ: "x \<noteq> -1 \<Longrightarrow> x < x + (1 :: 'a::len word)"
proof -
  assume "x \<noteq> -1"
  then have "1 + x \<noteq> 0" by (metis add.commute add_eq_0_iff2)
  then have "unat (1 + x) = Suc (unat x)" by (rule unatSuc)
  then show ?thesis by (simp add: word_less_nat_alt add.commute)
qed

end
