(* ===== verification/Errors.thy ===== *)
theory Errors
  imports Stream_Prelude
begin

text \<open>
  The error taxonomy of \<open>errors.hpp\<close>, its printer in \<open>errors.cpp\<close>, and the result type of
  \<open>expected_like.hpp\<close> and \<open>result.hpp\<close>: a value or a \<open>StreamError\<close>, as a sum. Every function of
  the library that can fail returns one.
\<close>

datatype error_kind =
    ConfigurationError
  | ConnectFailed
  | AuthenticationFailed
  | SaslMechanismNotSupported
  | VirtualHostAccessDenied
  | ProtocolViolation
  | RequestTimeout
  | ConnectionNotOpen
  | ConnectionClosed
  | StreamAlreadyExists
  | StreamDoesNotExist
  | ReferenceTooLong
  | IoError
  | DecodeError
  | EncodeError
  | ServerError

record stream_error =
  kind :: error_kind
  message :: string
  server_code :: "u16 option"

text \<open>The two constructors of \<open>StreamError\<close>.\<close>

definition StreamError :: "error_kind \<Rightarrow> string \<Rightarrow> stream_error" where
  "StreamError k msg = \<lparr>kind = k, message = msg, server_code = None\<rparr>"

definition StreamErrorCode :: "error_kind \<Rightarrow> string \<Rightarrow> u16 \<Rightarrow> stream_error" where
  "StreamErrorCode k msg code = \<lparr>kind = k, message = msg, server_code = Some code\<rparr>"

fun to_string :: "error_kind \<Rightarrow> string" where
  "to_string ConfigurationError = ''ConfigurationError''"
| "to_string ConnectFailed = ''ConnectFailed''"
| "to_string AuthenticationFailed = ''AuthenticationFailed''"
| "to_string SaslMechanismNotSupported = ''SaslMechanismNotSupported''"
| "to_string VirtualHostAccessDenied = ''VirtualHostAccessDenied''"
| "to_string ProtocolViolation = ''ProtocolViolation''"
| "to_string RequestTimeout = ''RequestTimeout''"
| "to_string ConnectionNotOpen = ''ConnectionNotOpen''"
| "to_string ConnectionClosed = ''ConnectionClosed''"
| "to_string StreamAlreadyExists = ''StreamAlreadyExists''"
| "to_string StreamDoesNotExist = ''StreamDoesNotExist''"
| "to_string ReferenceTooLong = ''ReferenceTooLong''"
| "to_string IoError = ''IoError''"
| "to_string DecodeError = ''DecodeError''"
| "to_string EncodeError = ''EncodeError''"
| "to_string ServerError = ''ServerError''"

text \<open>\<open>Result<T>\<close>: \<open>ok(v)\<close> is \<^term>\<open>Inr v\<close>, \<open>err(e)\<close> is \<^term>\<open>Inl e\<close>.\<close>

type_synonym 'a result = "stream_error + 'a"

abbreviation Ok :: "'a \<Rightarrow> 'a result" where
  "Ok \<equiv> Inr"

abbreviation Err :: "stream_error \<Rightarrow> 'a result" where
  "Err \<equiv> Inl"

definition is_ok :: "'a result \<Rightarrow> bool" where
  "is_ok r = (case r of Inl _ \<Rightarrow> False | Inr _ \<Rightarrow> True)"

definition is_err :: "'a result \<Rightarrow> bool" where
  "is_err r = (case r of Inl _ \<Rightarrow> True | Inr _ \<Rightarrow> False)"

text \<open>
  \<open>value()\<close> and \<open>error()\<close>: asking for the alternative that is not there fails an assertion or throws,
  which is None here.
\<close>

definition value_of :: "'a result \<Rightarrow> 'a option" where
  "value_of r = (case r of Inl _ \<Rightarrow> None | Inr x \<Rightarrow> Some x)"

definition error_of :: "'a result \<Rightarrow> stream_error option" where
  "error_of r = (case r of Inl e \<Rightarrow> Some e | Inr _ \<Rightarrow> None)"

text \<open>
  The specialisation for \<open>void\<close> keeps a flag and an error instead of a variant; without an error,
  \<open>error()\<close> gives the default one. \<open>result_of\<close> is the result it stands for.
\<close>

record expected_void =
  ev_has_error :: bool
  ev_error :: stream_error

definition default_error :: stream_error where
  "default_error = \<lparr>kind = ProtocolViolation, message = [], server_code = None\<rparr>"

definition expected_void_ok :: expected_void where
  "expected_void_ok = \<lparr>ev_has_error = False, ev_error = default_error\<rparr>"

definition expected_void_err :: "stream_error \<Rightarrow> expected_void" where
  "expected_void_err e = \<lparr>ev_has_error = True, ev_error = e\<rparr>"

definition expected_void_is_ok :: "expected_void \<Rightarrow> bool" where
  "expected_void_is_ok ev \<longleftrightarrow> \<not> ev_has_error ev"

definition expected_void_is_err :: "expected_void \<Rightarrow> bool" where
  "expected_void_is_err ev \<longleftrightarrow> ev_has_error ev"

definition expected_void_error :: "expected_void \<Rightarrow> stream_error" where
  "expected_void_error ev = ev_error ev"

definition result_of :: "expected_void \<Rightarrow> unit result" where
  "result_of ev = (if ev_has_error ev then Err (ev_error ev) else Ok ())"

section \<open>Lemmas\<close>

lemma expected_void_refines:
  "result_of expected_void_ok = Ok ()" "result_of (expected_void_err e) = Err e"
  "expected_void_is_ok ev = is_ok (result_of ev)" "expected_void_is_err ev = is_err (result_of ev)"
  "error_of (result_of ev) = Some e \<Longrightarrow> expected_void_error ev = e"
  by (auto simp: result_of_def expected_void_ok_def expected_void_err_def expected_void_is_ok_def
      expected_void_is_err_def expected_void_error_def is_ok_def is_err_def error_of_def split: if_splits)

lemma result_access:
  "value_of r \<noteq> None \<longleftrightarrow> is_ok r" "error_of r \<noteq> None \<longleftrightarrow> is_err r" "is_err r \<longleftrightarrow> \<not> is_ok r"
  by (simp_all add: value_of_def error_of_def is_ok_def is_err_def split: sum.split)

lemma kind_StreamError [simp]: "kind (StreamError k msg) = k"
  by (simp add: StreamError_def)

lemma server_code_StreamError [simp]: "server_code (StreamError k msg) = None"
  by (simp add: StreamError_def)

lemma message_StreamError [simp]: "message (StreamError k msg) = msg"
  by (simp add: StreamError_def)

lemma kind_StreamErrorCode [simp]: "kind (StreamErrorCode k msg c) = k"
  by (simp add: StreamErrorCode_def)

lemma server_code_StreamErrorCode [simp]: "server_code (StreamErrorCode k msg c) = Some c"
  by (simp add: StreamErrorCode_def)

lemma is_ok_simps [simp]: "is_ok (Ok x)" "\<not> is_ok (Err e)"
  by (simp_all add: is_ok_def)

lemma is_err_simps [simp]: "is_err (Err e)" "\<not> is_err (Ok x)"
  by (simp_all add: is_err_def)

lemma is_err_not_ok: "is_err r \<longleftrightarrow> \<not> is_ok r"
  by (cases r) simp_all

lemma is_okE: "is_ok r \<Longrightarrow> (\<And>x. r = Ok x \<Longrightarrow> P) \<Longrightarrow> P"
  by (cases r) auto

lemma is_errE: "is_err r \<Longrightarrow> (\<And>e. r = Err e \<Longrightarrow> P) \<Longrightarrow> P"
  by (cases r) auto

end
