(* ===== verification/Buffer.thy ===== *)
theory Buffer
  imports Errors
begin

text \<open>
  \<open>buffer.hpp\<close>: the append-only \<open>BufferWriter\<close> and the bounds-checked cursor \<open>BufferReader\<close>.
  A reader operation returns its result and the reader after it, also when it fails, because
  the code may have moved the cursor before the failing step.

  The readers of the upper layers are chains of early returns
  (\<open>auto x = f(r); if (!x) return err(x.error()); ...\<close>), written here with \<open>rbind\<close>.
  \<open>reads_forward\<close> says that an operation keeps the buffer and moves the cursor forward within
  it; it is closed under \<open>rbind\<close>. The two locales are the contract of a wire type: what its
  writer appends, what its reader returns on those bytes, and (for the canonical ones) that
  nothing else is accepted.
\<close>

section \<open>The writer\<close>

record buffer_writer =
  bw_data :: bytes

definition empty_writer :: buffer_writer where
  "empty_writer = \<lparr>bw_data = []\<rparr>"

text \<open>\<open>src\<close> is the memory from the pointer on; \<open>n\<close> bytes of it are copied.\<close>

definition write_raw :: "buffer_writer \<Rightarrow> bytes \<Rightarrow> nat \<Rightarrow> buffer_writer" where
  "write_raw w src n = w\<lparr>bw_data := bw_data w @ take n src\<rparr>"

definition write_byte :: "buffer_writer \<Rightarrow> u8 \<Rightarrow> buffer_writer" where
  "write_byte w b = w\<lparr>bw_data := bw_data w @ [b]\<rparr>"

definition writer_size :: "buffer_writer \<Rightarrow> nat" where
  "writer_size w = length (bw_data w)"

section \<open>The reader\<close>

record buffer_reader =
  rd_data :: bytes
  rd_size :: nat
  rd_pos :: nat

type_synonym 'a read_op = "buffer_reader \<Rightarrow> 'a result \<times> buffer_reader"

definition reader_of :: "bytes \<Rightarrow> buffer_reader" where
  "reader_of v = \<lparr>rd_data = v, rd_size = length v, rd_pos = 0\<rparr>"

definition remaining :: "buffer_reader \<Rightarrow> nat" where
  "remaining r = size_sub (rd_size r) (rd_pos r)"

definition reader_empty :: "buffer_reader \<Rightarrow> bool" where
  "reader_empty r \<longleftrightarrow> remaining r = 0"

definition truncated_input :: stream_error where
  "truncated_input = StreamError DecodeError ''truncated input''"

definition require :: "nat \<Rightarrow> buffer_reader \<Rightarrow> unit result" where
  "require n r = (if n > remaining r then Err truncated_input else Ok ())"

definition read_raw :: "nat \<Rightarrow> bytes read_op" where
  "read_raw n r =
     (case require n r of
        Inl e \<Rightarrow> (Err e, r)
      | Inr _ \<Rightarrow> (Ok (take n (drop (rd_pos r) (rd_data r))), r\<lparr>rd_pos := rd_pos r + n\<rparr>))"

definition read_byte :: "u8 read_op" where
  "read_byte r =
     (case require 1 r of
        Inl e \<Rightarrow> (Err e, r)
      | Inr _ \<Rightarrow> (Ok (rd_data r ! rd_pos r), r\<lparr>rd_pos := rd_pos r + 1\<rparr>))"

text \<open>
  \<open>borrow\<close> returns a pointer to the next \<open>n\<close> bytes without copying them. Every caller reads
  exactly those \<open>n\<close> bytes, so the pointer is modelled by them.
\<close>

definition borrow :: "nat \<Rightarrow> bytes read_op" where
  "borrow n r =
     (case require n r of
        Inl e \<Rightarrow> (Err e, r)
      | Inr _ \<Rightarrow> (Ok (take n (drop (rd_pos r) (rd_data r))), r\<lparr>rd_pos := rd_pos r + n\<rparr>))"

section \<open>Sequencing with early return\<close>

definition rreturn :: "'a \<Rightarrow> 'a read_op" where
  "rreturn x r = (Ok x, r)"

definition rfail :: "stream_error \<Rightarrow> 'a read_op" where
  "rfail e r = (Err e, r)"

definition rbind :: "'a read_op \<Rightarrow> ('a \<Rightarrow> 'b read_op) \<Rightarrow> 'b read_op" where
  "rbind m f r = (case m r of (Inl e, r') \<Rightarrow> (Err e, r') | (Inr x, r') \<Rightarrow> f x r')"

text \<open>The loop \<open>for (i = 0; i < n; ++i) { auto x = m(r); if (!x) return err; out.push_back(x); }\<close>.\<close>

fun rloop :: "'a read_op \<Rightarrow> nat \<Rightarrow> 'a list \<Rightarrow> 'a list read_op" where
  "rloop m 0 out = rreturn out"
| "rloop m (Suc n) out = rbind m (\<lambda>x. rloop m n (out @ [x]))"

section \<open>Well-formed readers\<close>

definition reader_ok :: "buffer_reader \<Rightarrow> bool" where
  "reader_ok r \<longleftrightarrow> rd_size r = length (rd_data r) \<and> rd_pos r \<le> rd_size r"

text \<open>The reader that has consumed \<open>pre\<close> and has \<open>suf\<close> in front of it.\<close>

definition reader_at :: "bytes \<Rightarrow> bytes \<Rightarrow> buffer_reader" where
  "reader_at pre suf =
     \<lparr>rd_data = pre @ suf, rd_size = length (pre @ suf), rd_pos = length pre\<rparr>"

definition reads_forward :: "'a read_op \<Rightarrow> bool" where
  "reads_forward m \<longleftrightarrow>
     (\<forall>pre suf. \<exists>mid rest. suf = mid @ rest \<and> snd (m (reader_at pre suf)) = reader_at (pre @ mid) rest)"

text \<open>Every failure of \<open>m\<close> is a \<open>DecodeError\<close>.\<close>

definition fails_decoding :: "'a read_op \<Rightarrow> bool" where
  "fails_decoding m \<longleftrightarrow> (\<forall>r e r'. m r = (Err e, r') \<longrightarrow> kind e = DecodeError)"

section \<open>The contract of a wire type\<close>

locale wire_codec =
  fixes wr :: "buffer_writer \<Rightarrow> 'a \<Rightarrow> buffer_writer"
    and rd :: "'a read_op"
    and enc :: "'a \<Rightarrow> bytes"
    and valid :: "'a \<Rightarrow> bool"
  assumes wr_appends: "bw_data (wr w x) = bw_data w @ enc x"
    and rd_forward: "reads_forward rd"
    and rd_fails: "fails_decoding rd"
    and rd_enc: "valid x \<Longrightarrow>
      rd (reader_at pre (enc x @ s)) = (Ok x, reader_at (pre @ enc x) s)"

locale canonical_codec = wire_codec +
  assumes rd_sound: "rd (reader_at pre suf) = (Ok x, r') \<Longrightarrow>
      valid x \<and> (\<exists>s. suf = enc x @ s \<and> r' = reader_at (pre @ enc x) s)"

section \<open>Lemmas\<close>

subsection \<open>Writers and readers\<close>

lemma bw_data_empty_writer [simp]: "bw_data empty_writer = []"
  by (simp add: empty_writer_def)

lemma bw_data_write_raw [simp]: "bw_data (write_raw w src n) = bw_data w @ take n src"
  by (simp add: write_raw_def)

lemma bw_data_write_byte [simp]: "bw_data (write_byte w b) = bw_data w @ [b]"
  by (simp add: write_byte_def)

lemma reader_of_at: "reader_of v = reader_at [] v"
  by (simp add: reader_of_def reader_at_def)

lemma reader_ok_at [simp]: "reader_ok (reader_at pre suf)"
  by (simp add: reader_ok_def reader_at_def)

lemma reader_ok_cases:
  assumes "reader_ok r"
  obtains pre suf where "r = reader_at pre suf"
proof
  have "rd_data r = take (rd_pos r) (rd_data r) @ drop (rd_pos r) (rd_data r)"
    by simp
  with assms show "r = reader_at (take (rd_pos r) (rd_data r)) (drop (rd_pos r) (rd_data r))"
    by (cases r) (simp add: reader_ok_def reader_at_def min_def)
qed

lemma remaining_at [simp]: "remaining (reader_at pre suf) = length suf"
  by (simp add: remaining_def reader_at_def)

lemma rd_pos_at [simp]: "rd_pos (reader_at pre suf) = length pre"
  by (simp add: reader_at_def)

lemma rd_data_at [simp]: "rd_data (reader_at pre suf) = pre @ suf"
  by (simp add: reader_at_def)

lemma reader_empty_at [simp]: "reader_empty (reader_at pre suf) \<longleftrightarrow> suf = []"
  by (simp add: reader_empty_def)

lemma reader_at_inject [simp]:
  "reader_at pre suf = reader_at pre' suf' \<longleftrightarrow> pre = pre' \<and> suf = suf'"
  by (auto simp: reader_at_def)

lemma reader_at_advance: "n \<le> length suf \<Longrightarrow>
    (reader_at pre suf)\<lparr>rd_pos := length pre + n\<rparr> = reader_at (pre @ take n suf) (drop n suf)"
  by (simp add: reader_at_def)

lemma kind_truncated_input [simp]: "kind truncated_input = DecodeError"
  by (simp add: truncated_input_def)

lemma require_at:
  "require n (reader_at pre suf) = (if n \<le> length suf then Ok () else Err truncated_input)"
  by (simp add: require_def)

lemma read_raw_at:
  "read_raw n (reader_at pre suf) =
     (if n \<le> length suf then (Ok (take n suf), reader_at (pre @ take n suf) (drop n suf))
      else (Err truncated_input, reader_at pre suf))"
  by (simp add: read_raw_def require_at reader_at_advance)

lemma borrow_at:
  "borrow n (reader_at pre suf) =
     (if n \<le> length suf then (Ok (take n suf), reader_at (pre @ take n suf) (drop n suf))
      else (Err truncated_input, reader_at pre suf))"
  by (simp add: borrow_def require_at reader_at_advance)

lemma read_byte_at:
  "read_byte (reader_at pre suf) =
     (case suf of [] \<Rightarrow> (Err truncated_input, reader_at pre suf)
      | b # rest \<Rightarrow> (Ok b, reader_at (pre @ [b]) rest))"
  by (cases suf) (simp_all add: read_byte_def require_def remaining_def reader_at_def)

subsection \<open>Sequencing\<close>

lemma rbind_Ok [simp]: "m r = (Ok x, r') \<Longrightarrow> rbind m f r = f x r'"
  by (simp add: rbind_def)

lemma rbind_Err [simp]: "m r = (Err e, r') \<Longrightarrow> rbind m f r = (Err e, r')"
  by (simp add: rbind_def)

lemma rbind_OkE:
  assumes "rbind m f r = (Ok y, r'')"
  obtains x r' where "m r = (Ok x, r')" and "f x r' = (Ok y, r'')"
  using assms by (auto simp: rbind_def split: prod.splits sum.splits)

lemma rreturn_eq [simp]: "rreturn x r = (Ok x, r)"
  by (simp add: rreturn_def)

lemma rfail_eq [simp]: "rfail e r = (Err e, r)"
  by (simp add: rfail_def)

lemma reads_forwardI:
  assumes "\<And>pre suf. \<exists>mid rest.
    suf = mid @ rest \<and> snd (m (reader_at pre suf)) = reader_at (pre @ mid) rest"
  shows "reads_forward m"
  using assms unfolding reads_forward_def by blast

lemma reads_forwardE:
  assumes "reads_forward m"
  obtains mid rest where "suf = mid @ rest"
    and "snd (m (reader_at pre suf)) = reader_at (pre @ mid) rest"
  using assms unfolding reads_forward_def by blast

lemma forward_stay: "\<exists>mid rest. suf = mid @ rest \<and> reader_at pre suf = reader_at (pre @ mid) rest"
  by (intro exI [of _ "[]"] exI [of _ suf]) simp

lemma reads_forward_rreturn [forward_intros]: "reads_forward (rreturn x)"
  by (rule reads_forwardI) (simp add: forward_stay)

lemma reads_forward_rfail [forward_intros]: "reads_forward (rfail e)"
  by (rule reads_forwardI) (simp add: forward_stay)

lemma reads_forward_read_raw [forward_intros]: "reads_forward (read_raw n)"
  by (rule reads_forwardI) (auto simp: read_raw_at forward_stay)

lemma reads_forward_borrow [forward_intros]: "reads_forward (borrow n)"
  by (rule reads_forwardI) (auto simp: borrow_at forward_stay)

lemma reads_forward_read_byte [forward_intros]: "reads_forward read_byte"
  by (rule reads_forwardI) (auto simp: read_byte_at split: list.splits)

lemma reads_forward_rbind [forward_intros]:
  assumes m: "reads_forward m" and f: "\<And>x. reads_forward (f x)"
  shows "reads_forward (rbind m f)"
proof (rule reads_forwardI)
  fix pre suf
  obtain mid rest where 1: "suf = mid @ rest"
    and r: "snd (m (reader_at pre suf)) = reader_at (pre @ mid) rest"
    using m by (rule reads_forwardE)
  show "\<exists>mid rest. suf = mid @ rest \<and>
      snd (rbind m f (reader_at pre suf)) = reader_at (pre @ mid) rest"
  proof (cases "fst (m (reader_at pre suf))")
    case (Inl e)
    with r have "m (reader_at pre suf) = (Err e, reader_at (pre @ mid) rest)"
      by (simp add: prod_eq_iff)
    with 1 show ?thesis by auto
  next
    case (Inr x)
    with r have "m (reader_at pre suf) = (Ok x, reader_at (pre @ mid) rest)"
      by (simp add: prod_eq_iff)
    moreover obtain mid' rest' where "rest = mid' @ rest'"
      and "snd (f x (reader_at (pre @ mid) rest)) = reader_at ((pre @ mid) @ mid') rest'"
      using f by (rule reads_forwardE)
    ultimately show ?thesis
      using 1 by (intro exI [of _ "mid @ mid'"] exI [of _ rest']) simp
  qed
qed

lemma reads_forward_rloop [forward_intros]:
  assumes "reads_forward m"
  shows "reads_forward (rloop m n out)"
  by (induction n arbitrary: out)
    (simp_all only: rloop.simps forward_intros assms)

text \<open>An operation chosen by looking at the reader first.\<close>

lemma reads_forward_peek:
  assumes "\<And>a. reads_forward (f a)"
  shows "reads_forward (\<lambda>r. f (g r) r)"
  using assms unfolding reads_forward_def by blast

lemma reads_forward_ok:
  assumes "reads_forward m" and "reader_ok r"
  shows "reader_ok (snd (m r)) \<and> rd_data (snd (m r)) = rd_data r
    \<and> rd_pos r \<le> rd_pos (snd (m r))"
proof -
  from assms(2) obtain pre suf where r: "r = reader_at pre suf"
    by (rule reader_ok_cases)
  obtain mid rest where "suf = mid @ rest" "snd (m r) = reader_at (pre @ mid) rest"
    using assms(1) unfolding r by (rule reads_forwardE)
  with r show ?thesis by simp
qed

lemma fails_decodingI: "(\<And>r e r'. m r = (Err e, r') \<Longrightarrow> kind e = DecodeError) \<Longrightarrow> fails_decoding m"
  unfolding fails_decoding_def by blast

lemma fails_decodingD: "fails_decoding m \<Longrightarrow> m r = (Err e, r') \<Longrightarrow> kind e = DecodeError"
  unfolding fails_decoding_def by blast

lemma fails_decoding_rreturn [forward_intros]: "fails_decoding (rreturn x)"
  by (rule fails_decodingI) simp

lemma fails_decoding_rfail [forward_intros]: "kind e = DecodeError \<Longrightarrow> fails_decoding (rfail e)"
  by (rule fails_decodingI) auto

lemma fails_decoding_raw [forward_intros]:
  "fails_decoding (read_raw n)" "fails_decoding (borrow n)" "fails_decoding read_byte"
  by (rule fails_decodingI, auto simp: read_raw_def borrow_def read_byte_def require_def
      split: if_splits)+

lemma fails_decoding_rbind [forward_intros]:
  assumes "fails_decoding m" and "\<And>x. fails_decoding (f x)"
  shows "fails_decoding (rbind m f)"
  using assms unfolding fails_decoding_def rbind_def
  by (fastforce split: prod.splits sum.splits)

lemma fails_decoding_rloop [forward_intros]:
  assumes "fails_decoding m"
  shows "fails_decoding (rloop m n out)"
  by (induction n arbitrary: out)
    (simp_all only: rloop.simps forward_intros assms)

subsection \<open>What every wire type has\<close>

context wire_codec
begin

lemma roundtrip:
  "valid x \<Longrightarrow> rd (reader_of (bw_data (wr empty_writer x))) = (Ok x, reader_at (enc x) [])"
  using rd_enc [of x "[]" "[]"] by (simp add: reader_of_at wr_appends)

lemma wr_list_appends: "bw_data (foldl wr w xs) = bw_data w @ concat (map enc xs)"
  by (induction xs arbitrary: w) (simp_all add: wr_appends)

lemma rloop_enc:
  "\<forall>x\<in>set xs. valid x \<Longrightarrow>
   rloop rd (length xs) out (reader_at pre (concat (map enc xs) @ s)) =
     (Ok (out @ xs), reader_at (pre @ concat (map enc xs)) s)"
proof (induction xs arbitrary: out pre)
  case Nil
  show ?case by simp
next
  case (Cons x xs)
  then have "rd (reader_at pre (enc x @ concat (map enc xs) @ s)) =
      (Ok x, reader_at (pre @ enc x) (concat (map enc xs) @ s))"
    by (simp add: rd_enc)
  with Cons show ?case by simp
qed

lemma rd_errD: "rd r = (Err e, r') \<Longrightarrow> kind e = DecodeError"
  using rd_fails by (rule fails_decodingD)

end

context canonical_codec
begin

lemma enc_prefix_free:
  assumes "valid x" and "enc x @ s = enc y @ t" and "valid y"
  shows "x = y \<and> s = t"
proof -
  have "rd (reader_at [] (enc y @ t)) = (Ok x, reader_at ([] @ enc x) s)"
    using rd_enc [OF assms(1), of "[]" s] by (simp only: assms(2))
  then show ?thesis
    by (simp add: rd_enc [OF assms(3)])
qed

lemma rd_iff:
  "rd (reader_at pre suf) = (Ok x, r') \<longleftrightarrow> valid x \<and> (\<exists>s. suf = enc x @ s \<and> r' = reader_at (pre @ enc x) s)"
  using rd_sound rd_enc by auto

lemma enc_inject: "valid x \<Longrightarrow> valid y \<Longrightarrow> enc x = enc y \<longleftrightarrow> x = y"
  using enc_prefix_free [of x "[]" y "[]"] by auto

lemma truncated_rejected:
  assumes "valid x" and "k < length (enc x)"
  shows "\<exists>e r'. rd (reader_at pre (take k (enc x))) = (Err e, r') \<and> kind e = DecodeError"
proof (cases "rd (reader_at pre (take k (enc x)))")
  case (Pair res r')
  show ?thesis
  proof (cases res)
    case (Inl e)
    with Pair show ?thesis using rd_errD by auto
  next
    case (Inr y)
    with Pair rd_sound obtain s where y: "valid y" "take k (enc x) = enc y @ s"
      by blast
    then have "enc x @ [] = enc y @ (s @ drop k (enc x))"
      by (metis append.assoc append_Nil2 append_take_drop_id)
    with assms(1) y have "[] = s @ drop k (enc x)"
      using enc_prefix_free by blast
    with assms(2) show ?thesis by simp
  qed
qed

lemma rloop_sound:
  "rloop rd n out (reader_at pre suf) = (Ok ys, r') \<Longrightarrow>
   \<exists>xs s. ys = out @ xs \<and> length xs = n \<and> (\<forall>x\<in>set xs. valid x) \<and>
     suf = concat (map enc xs) @ s \<and> r' = reader_at (pre @ concat (map enc xs)) s"
proof (induction n arbitrary: out pre suf)
  case 0
  then show ?case by (intro exI [of _ "[]"] exI [of _ suf]) simp
next
  case (Suc n)
  from Suc.prems obtain x r1 where x: "rd (reader_at pre suf) = (Ok x, r1)"
    and rest: "rloop rd n (out @ [x]) r1 = (Ok ys, r')"
    by (auto elim: rbind_OkE)
  from rd_sound [OF x] obtain s1 where 1: "valid x" "suf = enc x @ s1"
    "r1 = reader_at (pre @ enc x) s1" by blast
  from Suc.IH [OF rest [unfolded 1(3)]] obtain xs s where
    "ys = (out @ [x]) @ xs" "length xs = n" "\<forall>x\<in>set xs. valid x"
    "s1 = concat (map enc xs) @ s" "r' = reader_at ((pre @ enc x) @ concat (map enc xs)) s"
    by blast
  with 1 show ?case by (intro exI [of _ "x # xs"] exI [of _ s]) simp
qed

end

subsection \<open>Structures of wire types\<close>

text \<open>
  A struct of one, two or three fields, written field by field and read back in the same order,
  is canonical when its fields are. \<open>mk\<close> is its constructor, \<open>fa\<close>, \<open>fb\<close>, \<open>fc\<close> are its fields.
\<close>

lemma canonical_seq2:
  assumes "canonical_codec wra rda enca valida" and "canonical_codec wrb rdb encb validb"
    and mk: "\<And>x. mk (fa x) (fb x) = x" "\<And>a b. fa (mk a b) = a" "\<And>a b. fb (mk a b) = b"
  shows "canonical_codec (\<lambda>w x. wrb (wra w (fa x)) (fb x))
    (rbind rda (\<lambda>a. rbind rdb (\<lambda>b. rreturn (mk a b))))
    (\<lambda>x. enca (fa x) @ encb (fb x)) (\<lambda>x. valida (fa x) \<and> validb (fb x))"
proof -
  note A = canonical_codec.rd_sound [OF assms(1)] and B = canonical_codec.rd_sound [OF assms(2)]
  note Aw = canonical_codec.axioms(1) [OF assms(1)] and Bw = canonical_codec.axioms(1) [OF assms(2)]
  show ?thesis
  proof (unfold_locales, goal_cases)
    case (1 w x)
    show ?case by (simp add: wire_codec.wr_appends [OF Aw] wire_codec.wr_appends [OF Bw])
  next
    case 2
    show ?case by (intro forward_intros wire_codec.rd_forward [OF Aw] wire_codec.rd_forward [OF Bw])
  next
    case 3
    show ?case by (intro forward_intros wire_codec.rd_fails [OF Aw] wire_codec.rd_fails [OF Bw])
  next
    case (4 x pre s)
    then show ?case by (simp add: wire_codec.rd_enc [OF Aw] wire_codec.rd_enc [OF Bw] mk)
  next
    case (5 pre suf x r')
    then obtain a r1 b where a: "rda (reader_at pre suf) = (Ok a, r1)"
      and b: "rdb r1 = (Ok b, r')" and x: "x = mk a b"
      by (auto elim!: rbind_OkE)
    from A [OF a] obtain s1 where s1: "valida a" "suf = enca a @ s1"
      "r1 = reader_at (pre @ enca a) s1" by blast
    from B [OF b [unfolded s1(3)]] s1 x mk show ?case by auto
  qed
qed

lemma canonical_seq1:
  assumes "canonical_codec wra rda enca valida"
    and mk: "\<And>x. mk (fa x) = x" "\<And>a. fa (mk a) = a"
  shows "canonical_codec (\<lambda>w x. wra w (fa x)) (rbind rda (\<lambda>a. rreturn (mk a)))
    (\<lambda>x. enca (fa x)) (\<lambda>x. valida (fa x))"
proof -
  have unit: "canonical_codec (\<lambda>w (_::unit). w) (rreturn ()) (\<lambda>_. []) (\<lambda>_. True)"
    by unfold_locales (simp_all add: forward_intros del: rreturn_eq, simp_all)
  have eq: "rbind rda (\<lambda>a. rbind (rreturn ()) (\<lambda>_. rreturn (mk a))) = rbind rda (\<lambda>a. rreturn (mk a))"
    by (intro ext) (auto simp: rbind_def split: prod.split sum.split)
  show ?thesis
    using canonical_seq2 [OF assms(1) unit, of "\<lambda>a _. mk a" fa "\<lambda>_. ()"] mk
    by (simp add: eq del: rreturn_eq)
qed

lemma canonical_seq3:
  assumes "canonical_codec wra rda enca valida" and "canonical_codec wrb rdb encb validb"
    and "canonical_codec wrc rdc encc validc"
    and mk: "\<And>x. mk (fa x) (fb x) (fc x) = x" "\<And>a b c. fa (mk a b c) = a"
      "\<And>a b c. fb (mk a b c) = b" "\<And>a b c. fc (mk a b c) = c"
  shows "canonical_codec (\<lambda>w x. wrc (wrb (wra w (fa x)) (fb x)) (fc x))
    (rbind rda (\<lambda>a. rbind rdb (\<lambda>b. rbind rdc (\<lambda>c. rreturn (mk a b c)))))
    (\<lambda>x. enca (fa x) @ encb (fb x) @ encc (fc x))
    (\<lambda>x. valida (fa x) \<and> validb (fb x) \<and> validc (fc x))"
proof -
  have bc: "canonical_codec (\<lambda>w p. wrc (wrb w (fst p)) (snd p))
      (rbind rdb (\<lambda>b. rbind rdc (\<lambda>c. rreturn (b, c))))
      (\<lambda>p. encb (fst p) @ encc (snd p)) (\<lambda>p. validb (fst p) \<and> validc (snd p))"
    by (rule canonical_seq2 [OF assms(2,3)]) simp_all
  have eq: "rbind rda (\<lambda>a. rbind (rbind rdb (\<lambda>b. rbind rdc (\<lambda>c. rreturn (b, c))))
        (\<lambda>p. rreturn (mk a (fst p) (snd p)))) =
      rbind rda (\<lambda>a. rbind rdb (\<lambda>b. rbind rdc (\<lambda>c. rreturn (mk a b c))))"
    by (intro ext) (auto simp: rbind_def split: prod.split sum.split)
  show ?thesis
    using canonical_seq2 [OF assms(1) bc, of "\<lambda>a p. mk a (fst p) (snd p)" fa "\<lambda>x. (fb x, fc x)"] mk
    by (simp add: eq del: rreturn_eq)
qed

locale codec_pair =
  A: canonical_codec wra rda enca valida + B: canonical_codec wrb rdb encb validb
  for wra :: "buffer_writer \<Rightarrow> 'a \<Rightarrow> buffer_writer" and rda :: "'a read_op"
    and enca :: "'a \<Rightarrow> bytes" and valida :: "'a \<Rightarrow> bool"
    and wrb :: "buffer_writer \<Rightarrow> 'b \<Rightarrow> buffer_writer" and rdb :: "'b read_op"
    and encb :: "'b \<Rightarrow> bytes" and validb :: "'b \<Rightarrow> bool"

sublocale codec_pair \<subseteq> pair: canonical_codec
  "\<lambda>w p. wrb (wra w (fst p)) (snd p)"
  "rbind rda (\<lambda>a. rbind rdb (\<lambda>b. rreturn (a, b)))"
  "\<lambda>p. enca (fst p) @ encb (snd p)"
  "\<lambda>p. valida (fst p) \<and> validb (snd p)"
  by (rule canonical_seq2 [OF A.canonical_codec_axioms B.canonical_codec_axioms]) simp_all

end
