(* ===== verification/Utf8.thy ===== *)
theory Utf8
  imports Stream_Prelude
begin

text \<open>
  \<open>utf8.cpp\<close>: the strict UTF-8 validator, an index loop over the bytes of a buffer. It is
  compared with an independent definition of UTF-8, the encoding of a list of Unicode scalar
  values: the validator accepts exactly the encodings, so it has no false positive (overlong
  forms, surrogates, code points above U+10FFFF, stray or missing continuation bytes) and no
  false negative.
\<close>

section \<open>The validator\<close>

text \<open>The loop of \<open>is_valid_utf8\<close>, with the index \<open>i\<close> of the next byte to look at.\<close>

function utf8_loop :: "bytes \<Rightarrow> nat \<Rightarrow> nat \<Rightarrow> bool" where
  "utf8_loop data n i =
     (if \<not> i < n then True
      else let b0 = data ! i in
        if b0 < 0x80 then utf8_loop data n (i + 1)
        else if b0 AND 0xE0 = 0xC0 then
          (if i + 1 \<ge> n then False
           else let b1 = data ! (i + 1) in
             if b1 AND 0xC0 \<noteq> 0x80 then False
             else let cp = push_bit 6 (ucast (b0 AND 0x1F)) OR ucast (b1 AND 0x3F) :: u32 in
               if cp < 0x80 then False
               else utf8_loop data n (i + 2))
        else if b0 AND 0xF0 = 0xE0 then
          (if i + 2 \<ge> n then False
           else let b1 = data ! (i + 1); b2 = data ! (i + 2) in
             if b1 AND 0xC0 \<noteq> 0x80 \<or> b2 AND 0xC0 \<noteq> 0x80 then False
             else let cp = push_bit 12 (ucast (b0 AND 0x0F)) OR
                           push_bit 6 (ucast (b1 AND 0x3F)) OR ucast (b2 AND 0x3F) :: u32 in
               if cp < 0x800 then False
               else if 0xD800 \<le> cp \<and> cp \<le> 0xDFFF then False
               else utf8_loop data n (i + 3))
        else if b0 AND 0xF8 = 0xF0 then
          (if i + 3 \<ge> n then False
           else let b1 = data ! (i + 1); b2 = data ! (i + 2); b3 = data ! (i + 3) in
             if b1 AND 0xC0 \<noteq> 0x80 \<or> b2 AND 0xC0 \<noteq> 0x80 \<or> b3 AND 0xC0 \<noteq> 0x80 then False
             else let cp = push_bit 18 (ucast (b0 AND 0x07)) OR
                           push_bit 12 (ucast (b1 AND 0x3F)) OR
                           push_bit 6 (ucast (b2 AND 0x3F)) OR ucast (b3 AND 0x3F) :: u32 in
               if cp < 0x10000 then False
               else if cp > 0x10FFFF then False
               else utf8_loop data n (i + 4))
        else False)"
  by pat_completeness auto
termination
  by (relation "measure (\<lambda>(data, n, i). n - i)") auto

declare utf8_loop.simps [simp del]

definition is_valid_utf8 :: "bytes \<Rightarrow> nat \<Rightarrow> bool" where
  "is_valid_utf8 data n = utf8_loop data n 0"

section \<open>UTF-8 as the encoding of scalar values\<close>

definition is_scalar :: "nat \<Rightarrow> bool" where
  "is_scalar c \<longleftrightarrow> c \<le> 0x10FFFF \<and> \<not> (0xD800 \<le> c \<and> c \<le> 0xDFFF)"

definition byte_of_nat :: "nat \<Rightarrow> u8" where
  "byte_of_nat n = word_of_nat n"

definition utf8_encode :: "nat \<Rightarrow> bytes" where
  "utf8_encode c =
     map byte_of_nat
      (if c < 0x80 then [c]
       else if c < 0x800 then [0xC0 + c div 64, 0x80 + c mod 64]
       else if c < 0x10000 then [0xE0 + c div 4096, 0x80 + c div 64 mod 64, 0x80 + c mod 64]
       else [0xF0 + c div 262144, 0x80 + c div 4096 mod 64, 0x80 + c div 64 mod 64,
             0x80 + c mod 64])"

definition utf8_text :: "nat list \<Rightarrow> bytes" where
  "utf8_text cs = concat (map utf8_encode cs)"

text \<open>
  The first character of a byte string in the arithmetic of the numbers: its code point and
  what follows it. \<open>None\<close> where no scalar value is encoded there.
\<close>

definition cont :: "u8 \<Rightarrow> bool" where
  "cont b \<longleftrightarrow> unat b div 64 = 2"

definition lead2 :: "u8 \<Rightarrow> bool" where
  "lead2 b \<longleftrightarrow> unat b div 32 = 6"

definition lead3 :: "u8 \<Rightarrow> bool" where
  "lead3 b \<longleftrightarrow> unat b div 16 = 14"

definition lead4 :: "u8 \<Rightarrow> bool" where
  "lead4 b \<longleftrightarrow> unat b div 8 = 30"

definition point2 :: "u8 \<Rightarrow> u8 \<Rightarrow> nat" where
  "point2 b0 b1 = unat b0 mod 32 * 64 + unat b1 mod 64"

definition point3 :: "u8 \<Rightarrow> u8 \<Rightarrow> u8 \<Rightarrow> nat" where
  "point3 b0 b1 b2 = unat b0 mod 16 * 4096 + unat b1 mod 64 * 64 + unat b2 mod 64"

definition point4 :: "u8 \<Rightarrow> u8 \<Rightarrow> u8 \<Rightarrow> u8 \<Rightarrow> nat" where
  "point4 b0 b1 b2 b3 =
     unat b0 mod 8 * 262144 + unat b1 mod 64 * 4096 + unat b2 mod 64 * 64 + unat b3 mod 64"

definition utf8_first :: "bytes \<Rightarrow> (nat \<times> bytes) option" where
  "utf8_first bs = (case bs of
     [] \<Rightarrow> None
   | b0 # r1 \<Rightarrow>
       if unat b0 < 0x80 then Some (unat b0, r1)
       else if lead2 b0 then
         (case r1 of b1 # r2 \<Rightarrow>
            if cont b1 \<and> 0x80 \<le> point2 b0 b1 then Some (point2 b0 b1, r2) else None
          | _ \<Rightarrow> None)
       else if lead3 b0 then
         (case r1 of b1 # b2 # r3 \<Rightarrow>
            if cont b1 \<and> cont b2 \<and> 0x800 \<le> point3 b0 b1 b2 \<and> is_scalar (point3 b0 b1 b2)
            then Some (point3 b0 b1 b2, r3) else None
          | _ \<Rightarrow> None)
       else if lead4 b0 then
         (case r1 of b1 # b2 # b3 # r4 \<Rightarrow>
            if cont b1 \<and> cont b2 \<and> cont b3 \<and> 0x10000 \<le> point4 b0 b1 b2 b3 \<and>
               is_scalar (point4 b0 b1 b2 b3)
            then Some (point4 b0 b1 b2 b3, r4) else None
          | _ \<Rightarrow> None)
       else None)"

section \<open>Masks and shifts as arithmetic\<close>

lemma and_high_mask: "w AND NOT (mask n) = push_bit n (drop_bit n (w :: 'a::len word))"
  by (rule bit_word_eqI) (auto simp: bit_simps)

lemma unat_high_mask: "unat (w AND NOT (mask n)) = unat (w :: 'a::len word) div 2 ^ n * 2 ^ n"
proof -
  have "unat w div 2 ^ n * 2 ^ n \<le> unat w" by simp
  also have "\<dots> < 2 ^ LENGTH('a)" by simp
  finally have less: "push_bit n (drop_bit n (unat w)) < 2 ^ LENGTH('a)"
    by (simp add: push_bit_eq_mult drop_bit_eq_div)
  have "unat (w AND NOT (mask n)) = push_bit n (drop_bit n (unat w))"
    using less by (simp add: and_high_mask unsigned_push_bit_eq unsigned_drop_bit_eq
        take_bit_nat_eq_self)
  then show ?thesis by (simp add: push_bit_eq_mult drop_bit_eq_div)
qed

lemma unat_low_mask: "unat (w AND mask n) = unat (w :: 'a::len word) mod 2 ^ n"
proof -
  have "unat (w AND mask n) = take_bit n (unat w)"
    by (simp flip: take_bit_eq_mask add: unsigned_take_bit_eq)
  then show ?thesis by (simp add: take_bit_eq_mod)
qed

lemma mask_bytes:
  "(0xE0 :: u8) = NOT (mask 5)" "(0xF0 :: u8) = NOT (mask 4)" "(0xF8 :: u8) = NOT (mask 3)"
  "(0xC0 :: u8) = NOT (mask 6)" "(0x1F :: u8) = mask 5" "(0x0F :: u8) = mask 4"
  "(0x07 :: u8) = mask 3" "(0x3F :: u8) = mask 6"
  by (simp_all add: mask_eq_exp_minus_1)

lemma lead_mask_iff:
  "b AND 0xE0 = (0xC0 :: u8) \<longleftrightarrow> lead2 b"
  "b AND 0xF0 = (0xE0 :: u8) \<longleftrightarrow> lead3 b"
  "b AND 0xF8 = (0xF0 :: u8) \<longleftrightarrow> lead4 b"
  "b AND 0xC0 = (0x80 :: u8) \<longleftrightarrow> cont b"
proof -
  have *: "b AND m = v \<longleftrightarrow> unat (b AND m) = unat v" for m v :: u8
    by (simp add: word_unat_eq_iff)
  show "b AND 0xE0 = (0xC0 :: u8) \<longleftrightarrow> lead2 b"
    using unat_high_mask [of b 5] by (subst *) (simp add: mask_bytes(1) [symmetric] lead2_def)
  show "b AND 0xF0 = (0xE0 :: u8) \<longleftrightarrow> lead3 b"
    using unat_high_mask [of b 4] by (subst *) (simp add: mask_bytes(2) [symmetric] lead3_def)
  show "b AND 0xF8 = (0xF0 :: u8) \<longleftrightarrow> lead4 b"
    using unat_high_mask [of b 3] by (subst *) (simp add: mask_bytes(3) [symmetric] lead4_def)
  show "b AND 0xC0 = (0x80 :: u8) \<longleftrightarrow> cont b"
    using unat_high_mask [of b 6] by (subst *) (simp add: mask_bytes(4) [symmetric] cont_def)
qed

lemma unat_payload:
  "unat (b AND 0x1F :: u8) = unat b mod 32" "unat (b AND 0x0F :: u8) = unat b mod 16"
  "unat (b AND 0x07 :: u8) = unat b mod 8" "unat (b AND 0x3F :: u8) = unat b mod 64"
  unfolding mask_bytes by (simp_all add: unat_low_mask)

lemma or_shift_nat:
  assumes "b < 2 ^ n"
  shows "push_bit n a OR b = a * 2 ^ n + (b :: nat)"
proof -
  from assms have b: "take_bit n b = b" by (simp add: take_bit_nat_eq_self)
  have "push_bit n a AND take_bit n b = 0"
    by (rule bit_eqI) (auto simp: bit_simps)
  then have "push_bit n a + b = push_bit n a OR b"
    unfolding b by (rule disjunctive_add_eq_or)
  then show ?thesis by (simp add: push_bit_eq_mult)
qed

lemma unat_shift_byte: "k \<le> 24 \<Longrightarrow> unat (push_bit k (ucast (x :: u8)) :: u32) = unat x * 2 ^ k"
proof -
  assume k: "k \<le> 24"
  have x: "unat x < 2 ^ 8" using unsigned_less [of x, where ?'a = nat] by simp
  have "(2 :: nat) ^ k \<le> 2 ^ 24"
    using k by (rule power_increasing) simp
  with x have "unat x * 2 ^ k < 2 ^ 8 * 2 ^ 24"
    by (intro mult_less_le_imp_less) simp_all
  then have "push_bit k (unat x) < 2 ^ 32"
    by (simp add: push_bit_eq_mult)
  moreover have "unat (ucast x :: u32) = unat x"
    using x by (simp add: unsigned_ucast_eq take_bit_nat_eq_self)
  ultimately have "unat (push_bit k (ucast x) :: u32) = push_bit k (unat x)"
    by (simp add: unsigned_push_bit_eq take_bit_nat_eq_self)
  then show ?thesis by (simp add: push_bit_eq_mult)
qed

lemma unat_shift_or:
  assumes "k \<le> 24" and "unat y < 2 ^ k"
  shows "unat (push_bit k (ucast (x :: u8)) OR (y :: u32)) = unat x * 2 ^ k + unat y"
proof -
  have "push_bit k (unat x) = unat x * 2 ^ k"
    by (simp add: push_bit_eq_mult)
  then show ?thesis
    using or_shift_nat [OF assms(2), of "unat x"]
    by (simp add: unsigned_or_eq unat_shift_byte [OF assms(1)])
qed

lemma unat_ucast_byte: "unat (ucast (x :: u8) :: u32) = unat x"
  using unat_shift_byte [of 0 x] by simp

text \<open>The three code points the loop computes.\<close>

lemma cp2: "unat (push_bit 6 (ucast (b0 AND 0x1F :: u8)) OR ucast (b1 AND 0x3F :: u8) :: u32) =
    point2 b0 b1"
  by (subst unat_shift_or) (simp_all add: unat_ucast_byte unat_payload point2_def)

lemma cp3: "unat (push_bit 12 (ucast (b0 AND 0x0F :: u8)) OR push_bit 6 (ucast (b1 AND 0x3F :: u8))
      OR ucast (b2 AND 0x3F :: u8) :: u32) =
    point3 b0 b1 b2"
proof -
  have 1: "unat (push_bit 6 (ucast (b1 AND 0x3F :: u8)) OR ucast (b2 AND 0x3F :: u8) :: u32) =
      unat b1 mod 64 * 64 + unat b2 mod 64"
    by (subst unat_shift_or) (simp_all add: unat_ucast_byte unat_payload)
  have "unat b1 mod 64 * 64 + unat b2 mod 64 < 4096"
    using mod_less_divisor [of 64 "unat b1"] mod_less_divisor [of 64 "unat b2"] by linarith
  with 1 show ?thesis
    by (subst unat_shift_or) (simp_all add: unat_payload point3_def)
qed

lemma cp4: "unat (push_bit 18 (ucast (b0 AND 0x07 :: u8)) OR push_bit 12 (ucast (b1 AND 0x3F :: u8))
      OR push_bit 6 (ucast (b2 AND 0x3F :: u8)) OR ucast (b3 AND 0x3F :: u8) :: u32) =
    point4 b0 b1 b2 b3"
proof -
  let ?lo = "push_bit 6 (ucast (b2 AND 0x3F :: u8)) OR ucast (b3 AND 0x3F :: u8) :: u32"
  let ?mid = "push_bit 12 (ucast (b1 AND 0x3F :: u8)) OR ?lo :: u32"
  have lo: "unat ?lo = unat b2 mod 64 * 64 + unat b3 mod 64"
    by (subst unat_shift_or) (simp_all add: unat_ucast_byte unat_payload)
  have b: "unat b1 mod 64 < 64" "unat b2 mod 64 < 64" "unat b3 mod 64 < 64"
    by simp_all
  have "unat b2 mod 64 * 64 + unat b3 mod 64 < 4096"
    using b by linarith
  with lo have mid: "unat ?mid = unat b1 mod 64 * 4096 + unat b2 mod 64 * 64 + unat b3 mod 64"
    by (subst unat_shift_or) (simp_all add: unat_payload)
  moreover have "unat b1 mod 64 * 4096 + unat b2 mod 64 * 64 + unat b3 mod 64 < 262144"
    using b by linarith
  ultimately show ?thesis
    by (subst unat_shift_or) (simp_all add: unat_payload point4_def)
qed

section \<open>The first character\<close>

lemma unat_byte_of_nat: "n < 256 \<Longrightarrow> unat (byte_of_nat n) = n"
  by (simp add: byte_of_nat_def unat_of_nat)

lemma byte_of_nat_unat [simp]: "byte_of_nat (unat b) = b"
  by (simp add: byte_of_nat_def)

lemma lead_split: "unat b div d = q \<Longrightarrow> byte_of_nat (q * d + unat b mod d) = b"
  by (metis div_mult_mod_eq byte_of_nat_unat)

lemma cont_split: "cont b \<Longrightarrow> byte_of_nat (0x80 + unat b mod 64) = b"
  using lead_split [of b 64 2] by (simp add: cont_def)

lemma div_mod_add: "n < d \<Longrightarrow> (q * d + n) div d = q \<and> (q * d + n) mod d = (n :: nat)"
  by simp

lemma cont_byte:
  "n < 64 \<Longrightarrow> cont (byte_of_nat (0x80 + n)) \<and> unat (byte_of_nat (0x80 + n)) mod 64 = n"
  using div_mod_add [of n 64 2] by (simp add: cont_def unat_byte_of_nat)

lemma lead_byte:
  "n < 32 \<Longrightarrow> lead2 (byte_of_nat (0xC0 + n)) \<and> unat (byte_of_nat (0xC0 + n)) mod 32 = n"
  "n < 16 \<Longrightarrow> lead3 (byte_of_nat (0xE0 + n)) \<and> unat (byte_of_nat (0xE0 + n)) mod 16 = n"
  "n < 8 \<Longrightarrow> lead4 (byte_of_nat (0xF0 + n)) \<and> unat (byte_of_nat (0xF0 + n)) mod 8 = n"
  using div_mod_add [of n 32 6] div_mod_add [of n 16 14] div_mod_add [of n 8 30]
  by (simp_all add: unat_byte_of_nat lead2_def lead3_def lead4_def)

lemma lead_byte_not:
  "n < 32 \<Longrightarrow> \<not> unat (byte_of_nat (0xC0 + n)) < 0x80"
  "n < 16 \<Longrightarrow> \<not> unat (byte_of_nat (0xE0 + n)) < 0x80 \<and> \<not> lead2 (byte_of_nat (0xE0 + n))"
  "n < 8 \<Longrightarrow> \<not> unat (byte_of_nat (0xF0 + n)) < 0x80 \<and> \<not> lead2 (byte_of_nat (0xF0 + n)) \<and>
     \<not> lead3 (byte_of_nat (0xF0 + n))"
  using div_mod_add [of "16 + n" 32 7] div_mod_add [of n 16 15]
  by (simp_all add: unat_byte_of_nat lead2_def lead3_def)

text \<open>Base-64 digits of a code point.\<close>

lemma digits2: "r < 64 \<Longrightarrow> (q * 64 + r) div 64 = q \<and> (q * 64 + r) mod 64 = (r :: nat)"
  by (rule div_mod_add)

lemma div_64_64:
  "(c :: nat) div 4096 = c div 64 div 64" "c div 262144 = c div 64 div 64 div 64"
  by (simp_all add: div_mult2_eq [symmetric])

lemma digits3:
  assumes "m < 64" and "r < 64" and "c = q * 4096 + m * 64 + (r :: nat)"
  shows "c div 4096 = q" "c div 64 mod 64 = m" "c mod 64 = r"
proof -
  have c: "c = (q * 64 + m) * 64 + r" using assms(3) by simp
  then have d: "c div 64 = q * 64 + m" "c mod 64 = r"
    using digits2 [OF assms(2), of "q * 64 + m"] by simp_all
  with digits2 [OF assms(1), of q] show "c div 4096 = q" "c div 64 mod 64 = m" "c mod 64 = r"
    by (simp_all only: div_64_64)
qed

lemma digits4:
  assumes "m < 64" and "n < 64" and "r < 64" and "c = q * 262144 + m * 4096 + n * 64 + (r :: nat)"
  shows "c div 262144 = q" "c div 4096 mod 64 = m" "c div 64 mod 64 = n" "c mod 64 = r"
proof -
  have c: "c = (q * 4096 + m * 64 + n) * 64 + r" using assms(4) by simp
  then have d: "c div 64 = q * 4096 + m * 64 + n" "c mod 64 = r"
    using digits2 [OF assms(3), of "q * 4096 + m * 64 + n"] by simp_all
  note digits3 [OF assms(1,2) d(1)]
  with d show "c div 262144 = q" "c div 4096 mod 64 = m" "c div 64 mod 64 = n" "c mod 64 = r"
    by (simp_all only: div_64_64)
qed

lemma digits_sum:
  "c div 4096 * 4096 + c div 64 mod 64 * 64 + c mod 64 = (c :: nat)"
  "c div 262144 * 262144 + c div 4096 mod 64 * 4096 + c div 64 mod 64 * 64 + c mod 64 = c"
  using div_mult_mod_eq [of c 64] div_mult_mod_eq [of "c div 64" 64]
    div_mult_mod_eq [of "c div 64 div 64" 64]
  unfolding div_64_64 by linarith+

lemma utf8_first_cases:
  assumes "utf8_first bs = Some (c, rest)"
  obtains (one) b0 where "bs = b0 # rest" "unat b0 < 0x80" "c = unat b0"
  | (two) b0 b1 where "bs = b0 # b1 # rest" "lead2 b0" "cont b1" "c = point2 b0 b1" "0x80 \<le> c"
  | (three) b0 b1 b2 where "bs = b0 # b1 # b2 # rest" "lead3 b0" "cont b1" "cont b2"
      "c = point3 b0 b1 b2" "0x800 \<le> c" "is_scalar c"
  | (four) b0 b1 b2 b3 where "bs = b0 # b1 # b2 # b3 # rest" "lead4 b0" "cont b1" "cont b2" "cont b3"
      "c = point4 b0 b1 b2 b3" "0x10000 \<le> c" "is_scalar c"
  using assms by (auto simp: utf8_first_def split: list.splits if_splits)

lemma utf8_first_sound:
  assumes "utf8_first bs = Some (c, rest)"
  shows "is_scalar c \<and> bs = utf8_encode c @ rest"
  using assms
proof (cases rule: utf8_first_cases)
  case (one b0)
  then show ?thesis by (simp add: is_scalar_def utf8_encode_def)
next
  case (two b0 b1)
  have "unat b0 mod 32 < 32" "unat b1 mod 64 < 64" by simp_all
  then have c: "c < 0x800" unfolding two(4) point2_def by linarith
  have d: "c div 64 = unat b0 mod 32" "c mod 64 = unat b1 mod 64"
    unfolding two(4) point2_def using digits2 [of "unat b1 mod 64" "unat b0 mod 32"] by simp_all
  have "byte_of_nat (0xC0 + unat b0 mod 32) = b0"
    using two(2) lead_split [of b0 32 6] by (simp add: lead2_def)
  with c d cont_split [OF two(3)] two(1,5) show ?thesis
    by (simp add: is_scalar_def utf8_encode_def)
next
  case (three b0 b1 b2)
  have m: "unat b0 mod 16 < 16" "unat b1 mod 64 < 64" "unat b2 mod 64 < 64" by simp_all
  then have c: "c < 0x10000" unfolding three(5) point3_def by linarith
  have "byte_of_nat (0xE0 + unat b0 mod 16) = b0"
    using three(2) lead_split [of b0 16 14] by (simp add: lead3_def)
  with c digits3 [OF m(2,3) three(5) [unfolded point3_def]] cont_split [OF three(3)]
    cont_split [OF three(4)] three(1,6,7)
  show ?thesis by (simp add: utf8_encode_def)
next
  case (four b0 b1 b2 b3)
  have m: "unat b1 mod 64 < 64" "unat b2 mod 64 < 64" "unat b3 mod 64 < 64" by simp_all
  have "byte_of_nat (0xF0 + unat b0 mod 8) = b0"
    using four(2) lead_split [of b0 8 30] by (simp add: lead4_def)
  with digits4 [OF m four(6) [unfolded point4_def]] cont_split [OF four(3)]
    cont_split [OF four(4)] cont_split [OF four(5)] four(1,7,8)
  show ?thesis by (simp add: utf8_encode_def)
qed

lemma utf8_first_complete:
  assumes "is_scalar c"
  shows "utf8_first (utf8_encode c @ rest) = Some (c, rest)"
proof -
  have m: "c mod 64 < 64" "c div 64 mod 64 < 64" "c div 4096 mod 64 < 64" by simp_all
  consider (one) "c < 0x80" | (two) "0x80 \<le> c" "c < 0x800" | (three) "0x800 \<le> c" "c < 0x10000"
    | (four) "0x10000 \<le> c" by linarith
  then show ?thesis
  proof cases
    case one
    then show ?thesis by (simp add: utf8_encode_def utf8_first_def unat_byte_of_nat)
  next
    case two
    then have q: "c div 64 < 32" by (simp add: less_mult_imp_div_less)
    with lead_byte(1) [OF q] cont_byte [OF m(1)]
    have "point2 (byte_of_nat (0xC0 + c div 64)) (byte_of_nat (0x80 + c mod 64)) = c"
      by (simp add: point2_def)
    with two q lead_byte(1) [OF q] lead_byte_not(1) [OF q] cont_byte [OF m(1)] show ?thesis
      by (simp add: utf8_encode_def utf8_first_def)
  next
    case three
    then have q: "c div 4096 < 16" by (simp add: less_mult_imp_div_less)
    with lead_byte(2) [OF q] cont_byte [OF m(1)] cont_byte [OF m(2)] digits_sum(1) [of c]
    have "point3 (byte_of_nat (0xE0 + c div 4096)) (byte_of_nat (0x80 + c div 64 mod 64))
        (byte_of_nat (0x80 + c mod 64)) = c"
      by (simp add: point3_def)
    with three assms lead_byte(2) [OF q] lead_byte_not(2) [OF q] cont_byte [OF m(1)]
      cont_byte [OF m(2)] show ?thesis
      by (simp add: utf8_encode_def utf8_first_def)
  next
    case four
    with assms have q: "c div 262144 < 8" by (simp add: is_scalar_def less_mult_imp_div_less)
    with lead_byte(3) [OF q] cont_byte [OF m(1)] cont_byte [OF m(2)] cont_byte [OF m(3)]
      digits_sum(2) [of c]
    have "point4 (byte_of_nat (0xF0 + c div 262144)) (byte_of_nat (0x80 + c div 4096 mod 64))
        (byte_of_nat (0x80 + c div 64 mod 64)) (byte_of_nat (0x80 + c mod 64)) = c"
      by (simp add: point4_def)
    with four assms lead_byte(3) [OF q] lead_byte_not(3) [OF q] cont_byte [OF m(1)]
      cont_byte [OF m(2)] cont_byte [OF m(3)] show ?thesis
      by (simp add: utf8_encode_def utf8_first_def)
  qed
qed

section \<open>The loop\<close>

lemma drop_at: "i < length xs \<Longrightarrow> drop i xs = xs ! i # drop (i + 1) xs"
  by (simp add: Cons_nth_drop_Suc)

lemma utf8_loop_end [simp]: "n \<le> i \<Longrightarrow> utf8_loop data n i"
  by (subst utf8_loop.simps) simp

lemma is_scalar_three: "c < 0x10000 \<Longrightarrow> is_scalar c \<longleftrightarrow> \<not> (0xD800 \<le> c \<and> c \<le> 0xDFFF)"
  by (auto simp: is_scalar_def)

lemma is_scalar_four: "0x10000 \<le> c \<Longrightarrow> is_scalar c \<longleftrightarrow> \<not> 0x10FFFF < c"
  by (auto simp: is_scalar_def)

lemma utf8_first_short:
  "\<not> unat b0 < 0x80 \<Longrightarrow> lead2 b0 \<Longrightarrow> length r < 1 \<Longrightarrow> utf8_first (b0 # r) = None"
  "\<not> unat b0 < 0x80 \<Longrightarrow> \<not> lead2 b0 \<Longrightarrow> lead3 b0 \<Longrightarrow> length r < 2 \<Longrightarrow> utf8_first (b0 # r) = None"
  "\<not> unat b0 < 0x80 \<Longrightarrow> \<not> lead2 b0 \<Longrightarrow> \<not> lead3 b0 \<Longrightarrow> length r < 3 \<Longrightarrow> utf8_first (b0 # r) = None"
  by (auto simp: utf8_first_def split: list.split)

lemma point3_bound: "point3 b0 b1 b2 < 0x10000"
proof -
  have "unat b0 mod 16 < 16" "unat b1 mod 64 < 64" "unat b2 mod 64 < 64" by simp_all
  then show ?thesis unfolding point3_def by linarith
qed

text \<open>One iteration of the loop looks at one character.\<close>

lemmas loop_arith = word_less_nat_alt word_le_nat_alt cp2 cp3 cp4 lead_mask_iff

text \<open>One round of the loop, by the length that the leading byte announces.\<close>

lemma utf8_loop_two:
  assumes i: "i < length data" and lead: "\<not> unat (data ! i) < 0x80" "lead2 (data ! i)"
  shows "utf8_loop data (length data) i =
     (case utf8_first (drop i data) of
        None \<Rightarrow> False
      | Some (c, rest) \<Rightarrow> utf8_loop data (length data) (length data - length rest))"
proof (cases "i + 1 < length data")
  case True
  then have "drop (i + 1) data = data ! (i + 1) # drop (i + 2) data"
    using drop_at [of "i + 1" data] by simp
  with assms True show ?thesis
    by (subst utf8_loop.simps) (simp add: drop_at [OF i] utf8_first_def loop_arith Let_def)
next
  case False
  with assms show ?thesis
    by (subst utf8_loop.simps) (simp add: drop_at [OF i] utf8_first_short loop_arith)
qed

lemma utf8_loop_three:
  assumes i: "i < length data" and lead: "\<not> unat (data ! i) < 0x80" "\<not> lead2 (data ! i)" "lead3 (data ! i)"
  shows "utf8_loop data (length data) i =
     (case utf8_first (drop i data) of
        None \<Rightarrow> False
      | Some (c, rest) \<Rightarrow> utf8_loop data (length data) (length data - length rest))"
proof (cases "i + 2 < length data")
  case True
  then have "drop (i + 1) data = data ! (i + 1) # data ! (i + 2) # drop (i + 3) data"
    using drop_at [of "i + 1" data] drop_at [of "i + 2" data] by (simp add: eval_nat_numeral)
  with assms True is_scalar_three [OF point3_bound] show ?thesis
    by (subst utf8_loop.simps) (simp add: drop_at [OF i] utf8_first_def loop_arith Let_def not_less)
next
  case False
  with assms show ?thesis
    by (subst utf8_loop.simps) (simp add: drop_at [OF i] utf8_first_short loop_arith)
qed

lemma utf8_loop_four:
  assumes i: "i < length data" and lead: "\<not> unat (data ! i) < 0x80" "\<not> lead2 (data ! i)" "\<not> lead3 (data ! i)"
  shows "utf8_loop data (length data) i =
     (case utf8_first (drop i data) of
        None \<Rightarrow> False
      | Some (c, rest) \<Rightarrow> utf8_loop data (length data) (length data - length rest))"
proof (cases "i + 3 < length data")
  case True
  then have "drop (i + 1) data =
      data ! (i + 1) # data ! (i + 2) # data ! (i + 3) # drop (i + 4) data"
    using drop_at [of "i + 1" data] drop_at [of "i + 2" data] drop_at [of "i + 3" data]
    by (simp add: eval_nat_numeral)
  with assms True show ?thesis
    by (subst utf8_loop.simps)
      (simp add: drop_at [OF i] utf8_first_def loop_arith Let_def not_less is_scalar_four cong: conj_cong)
next
  case False
  with assms show ?thesis
    by (subst utf8_loop.simps) (simp add: drop_at [OF i] utf8_first_short loop_arith)
qed

lemma utf8_loop_step:
  assumes i: "i < length data"
  shows "utf8_loop data (length data) i =
     (case utf8_first (drop i data) of
        None \<Rightarrow> False
      | Some (c, rest) \<Rightarrow> utf8_loop data (length data) (length data - length rest))"
proof (cases "unat (data ! i) < 0x80")
  case True
  then show ?thesis
    using i by (subst utf8_loop.simps) (simp add: drop_at [OF i] utf8_first_def loop_arith)
next
  case False
  then show ?thesis
    using i utf8_loop_two utf8_loop_three utf8_loop_four by blast
qed

section \<open>The validator accepts exactly the UTF-8 texts\<close>

lemma utf8_text_simps [simp]: "utf8_text [] = []" "utf8_text (c # cs) = utf8_encode c @ utf8_text cs"
  by (simp_all add: utf8_text_def)

definition is_text :: "bytes \<Rightarrow> bool" where
  "is_text bs \<longleftrightarrow> (\<exists>cs. (\<forall>c\<in>set cs. is_scalar c) \<and> bs = utf8_text cs)"

lemma is_text_Nil: "is_text []"
  unfolding is_text_def by (rule exI [of _ "[]"]) simp

lemma is_text_first:
  assumes "bs \<noteq> []"
  shows "is_text bs \<longleftrightarrow> (case utf8_first bs of None \<Rightarrow> False | Some (c, rest) \<Rightarrow> is_text rest)"
proof
  assume "is_text bs"
  then obtain cs where cs: "\<forall>c\<in>set cs. is_scalar c" "bs = utf8_text cs" unfolding is_text_def by blast
  with assms obtain d ds where d: "cs = d # ds" by (cases cs) auto
  with cs have "utf8_first bs = Some (d, utf8_text ds)" by (simp add: utf8_first_complete)
  with cs(1) d show "case utf8_first bs of None \<Rightarrow> False | Some (c, rest) \<Rightarrow> is_text rest"
    by (auto simp: is_text_def)
next
  assume "case utf8_first bs of None \<Rightarrow> False | Some (c, rest) \<Rightarrow> is_text rest"
  then obtain c rest cs where p: "utf8_first bs = Some (c, rest)" "\<forall>c\<in>set cs. is_scalar c" "rest = utf8_text cs"
    by (auto simp: is_text_def split: option.splits)
  with utf8_first_sound [OF p(1)] show "is_text bs"
    unfolding is_text_def by (intro exI [of _ "c # cs"]) simp
qed

lemma utf8_first_rest:
  assumes "utf8_first (drop i data) = Some (c, rest)" and "i < length data"
  shows "length data - (length data - length rest) < length data - i" "drop (length data - length rest) data = rest"
proof -
  have c: "drop i data = utf8_encode c @ rest" using utf8_first_sound [OF assms(1)] by simp
  have ne: "utf8_encode c \<noteq> []" by (simp add: utf8_encode_def)
  have len: "length data - i = length (utf8_encode c) + length rest"
    using c by (metis length_append length_drop)
  then show "length data - (length data - length rest) < length data - i" using ne assms(2) by auto
  have "length data - length rest = i + length (utf8_encode c)" using len assms(2) by simp
  then show "drop (length data - length rest) data = rest"
    using c by (metis add.commute append_eq_conv_conj drop_drop)
qed

lemma utf8_loop_iff: "i \<le> length data \<Longrightarrow> utf8_loop data (length data) i \<longleftrightarrow> is_text (drop i data)"
proof (induction "length data - i" arbitrary: i rule: less_induct)
  case less
  show ?case
  proof (cases "i < length data")
    case False
    with less.prems show ?thesis by (simp add: is_text_Nil)
  next
    case True
    then have "drop i data \<noteq> []" by simp
    then show ?thesis
      using True less.hyps utf8_first_rest [of i data]
      by (auto simp: utf8_loop_step is_text_first split: option.splits)
  qed
qed

lemma is_valid_utf8_iff:
  "is_valid_utf8 data (length data) \<longleftrightarrow> (\<exists>cs. (\<forall>c\<in>set cs. is_scalar c) \<and> data = utf8_text cs)"
  using utf8_loop_iff [of 0 data] by (simp add: is_valid_utf8_def is_text_def)

lemma is_valid_utf8_Nil [simp]: "is_valid_utf8 [] 0"
  using is_valid_utf8_iff [of "[]"] by (auto intro: exI [of _ "[]"])

lemma is_valid_utf8_append:
  assumes "is_valid_utf8 xs (length xs)" and "is_valid_utf8 ys (length ys)"
  shows "is_valid_utf8 (xs @ ys) (length (xs @ ys))"
proof -
  from assms obtain cs ds where "\<forall>c\<in>set cs. is_scalar c" "xs = utf8_text cs"
    "\<forall>c\<in>set ds. is_scalar c" "ys = utf8_text ds"
    by (auto simp: is_valid_utf8_iff)
  then show ?thesis
    unfolding is_valid_utf8_iff by (intro exI [of _ "cs @ ds"]) (auto simp: utf8_text_def)
qed

lemma is_valid_utf8_ascii: "\<forall>b\<in>set bs. unat b < 128 \<Longrightarrow> is_valid_utf8 bs (length bs)"
  unfolding is_valid_utf8_iff
  by (rule exI [of _ "map unat bs"])
    (auto simp: is_scalar_def utf8_text_def utf8_encode_def comp_def intro!: nth_equalityI
      simp: concat_map_singleton cong: map_cong)

end
