(* ===== verification/Codec.thy ===== *)
theory Codec
  imports Buffer Utf8
begin

text \<open>
  \<open>codec.hpp\<close> and \<open>codec.cpp\<close>: the big-endian primitives, \<open>string\<close>, \<open>bytes\<close> and the array
  prefix of the wire protocol. Each writer and reader is one definition; next to them stand
  the byte strings the protocol assigns to a value (\<open>enc_...\<close>) and the values that have one
  (\<open>valid_...\<close>). The interpretations at the end discharge the contract \<open>canonical_codec\<close> of
  \<open>Buffer\<close> for every one of the wire types.
\<close>

definition decode_err :: "string \<Rightarrow> stream_error" where
  "decode_err msg = StreamError DecodeError msg"

section \<open>Writers\<close>

definition write_u8 :: "buffer_writer \<Rightarrow> u8 \<Rightarrow> buffer_writer" where
  "write_u8 w v = write_byte w v"

definition write_i8 :: "buffer_writer \<Rightarrow> i8 \<Rightarrow> buffer_writer" where
  "write_i8 w v = write_byte w v"

definition write_u16 :: "buffer_writer \<Rightarrow> u16 \<Rightarrow> buffer_writer" where
  "write_u16 w v = write_byte (write_byte w (byte_at 8 v)) (byte_at 0 v)"

definition write_i16 :: "buffer_writer \<Rightarrow> i16 \<Rightarrow> buffer_writer" where
  "write_i16 w v = write_u16 w v"

definition write_u32 :: "buffer_writer \<Rightarrow> u32 \<Rightarrow> buffer_writer" where
  "write_u32 w v =
     write_byte (write_byte (write_byte (write_byte w
       (byte_at 24 v)) (byte_at 16 v)) (byte_at 8 v)) (byte_at 0 v)"

definition write_i32 :: "buffer_writer \<Rightarrow> i32 \<Rightarrow> buffer_writer" where
  "write_i32 w v = write_u32 w v"

text \<open>The loop \<open>for (int i = 7; i >= 0; --i)\<close>.\<close>

definition write_u64 :: "buffer_writer \<Rightarrow> u64 \<Rightarrow> buffer_writer" where
  "write_u64 w v = foldl (\<lambda>w i. write_byte w (byte_at (i * 8) v)) w (rev [0..<8])"

definition write_i64 :: "buffer_writer \<Rightarrow> i64 \<Rightarrow> buffer_writer" where
  "write_i64 w v = write_u64 w v"

definition INT16_MAX :: nat where
  "INT16_MAX = 32767"

definition write_string :: "buffer_writer \<Rightarrow> string \<Rightarrow> buffer_writer" where
  "write_string w s =
     (if length s > INT16_MAX then
        write_raw (write_i16 w (word_of_nat INT16_MAX)) (bytes_of_string s) INT16_MAX
      else
        (let w' = write_i16 w (word_of_nat (length s))
         in if s \<noteq> [] then write_raw w' (bytes_of_string s) (length s) else w'))"

definition write_string_opt :: "buffer_writer \<Rightarrow> string option \<Rightarrow> buffer_writer" where
  "write_string_opt w s = (case s of None \<Rightarrow> write_i16 w (-1) | Some t \<Rightarrow> write_string w t)"

definition write_bytes_raw :: "buffer_writer \<Rightarrow> bytes \<Rightarrow> nat \<Rightarrow> buffer_writer" where
  "write_bytes_raw w data n =
     (let w' = write_i32 w (word_of_nat n)
      in if n > 0 then write_raw w' data n else w')"

definition write_bytes :: "buffer_writer \<Rightarrow> bytes option \<Rightarrow> buffer_writer" where
  "write_bytes w b =
     (case b of None \<Rightarrow> write_i32 w (-1) | Some d \<Rightarrow> write_bytes_raw w d (length d))"

definition write_array_prefix :: "buffer_writer \<Rightarrow> i32 \<Rightarrow> buffer_writer" where
  "write_array_prefix w count = write_i32 w count"

section \<open>Readers\<close>

definition read_u8 :: "u8 read_op" where
  "read_u8 = read_byte"

definition read_i8 :: "i8 read_op" where
  "read_i8 = rbind read_byte (\<lambda>b. rreturn b)"

definition read_u16 :: "u16 read_op" where
  "read_u16 = rbind (read_raw 2) (\<lambda>buf.
     rreturn (push_bit 8 (ucast (buf ! 0)) OR ucast (buf ! 1)))"

definition read_i16 :: "i16 read_op" where
  "read_i16 = rbind read_u16 (\<lambda>v. rreturn v)"

definition read_u32 :: "u32 read_op" where
  "read_u32 = rbind (read_raw 4) (\<lambda>buf.
     rreturn (push_bit 24 (ucast (buf ! 0)) OR push_bit 16 (ucast (buf ! 1)) OR
              push_bit 8 (ucast (buf ! 2)) OR ucast (buf ! 3)))"

definition read_i32 :: "i32 read_op" where
  "read_i32 = rbind read_u32 (\<lambda>v. rreturn v)"

text \<open>The loop \<open>v = (v << 8) | buf[i]\<close> is \<^const>\<open>be_step\<close> over the eight bytes.\<close>

definition read_u64 :: "u64 read_op" where
  "read_u64 = rbind (read_raw 8) (\<lambda>buf. rreturn (foldl be_step 0 buf))"

definition read_i64 :: "i64 read_op" where
  "read_i64 = rbind read_u64 (\<lambda>v. rreturn v)"

definition read_string :: "string option read_op" where
  "read_string = rbind read_i16 (\<lambda>len.
     if len = -1 then rreturn None
     else if sint len < 0 then rfail (decode_err ''string length out of range'')
     else let sz = nat (sint len) in
       rbind (borrow sz) (\<lambda>p.
         if sz > 0 \<and> \<not> is_valid_utf8 p sz then rfail (decode_err ''invalid UTF-8 in string'')
         else rreturn (Some (string_of_bytes p))))"

definition read_string_required :: "string read_op" where
  "read_string_required = rbind read_string (\<lambda>s.
     case s of None \<Rightarrow> rfail (decode_err ''expected non-null string'') | Some t \<Rightarrow> rreturn t)"

definition read_bytes :: "bytes option read_op" where
  "read_bytes = rbind read_i32 (\<lambda>len.
     if len = -1 then rreturn None
     else if sint len < 0 then rfail (decode_err ''bytes length out of range'')
     else let sz = nat (sint len) in
       rbind (borrow sz) (\<lambda>p. rreturn (Some p)))"

definition read_array_prefix :: "i32 read_op" where
  "read_array_prefix = rbind read_i32 (\<lambda>len.
     if sint len < 0 then rfail (decode_err ''negative array count'') else rreturn len)"

section \<open>The bytes of a value\<close>

text \<open>A string longer than \<^const>\<open>INT16_MAX\<close> is cut; \<open>valid_string\<close> excludes it.\<close>

definition enc_string :: "string \<Rightarrow> bytes" where
  "enc_string s =
     be_split 2 (word_of_nat (min (length s) INT16_MAX) :: i16) @ bytes_of_string (take INT16_MAX s)"

definition valid_string :: "string \<Rightarrow> bool" where
  "valid_string s \<longleftrightarrow> length s \<le> INT16_MAX \<and> is_valid_utf8 (bytes_of_string s) (length s)"

definition enc_string_opt :: "string option \<Rightarrow> bytes" where
  "enc_string_opt s = (case s of None \<Rightarrow> be_split 2 (-1 :: i16) | Some t \<Rightarrow> enc_string t)"

definition valid_string_opt :: "string option \<Rightarrow> bool" where
  "valid_string_opt s = (case s of None \<Rightarrow> True | Some t \<Rightarrow> valid_string t)"

definition enc_bytes :: "bytes option \<Rightarrow> bytes" where
  "enc_bytes b =
     (case b of None \<Rightarrow> be_split 4 (-1 :: i32)
      | Some d \<Rightarrow> be_split 4 (word_of_nat (length d) :: i32) @ d)"

definition valid_bytes :: "bytes option \<Rightarrow> bool" where
  "valid_bytes b = (case b of None \<Rightarrow> True | Some d \<Rightarrow> length d < 2 ^ 31)"

definition valid_count :: "i32 \<Rightarrow> bool" where
  "valid_count n \<longleftrightarrow> 0 \<le> sint n"

section \<open>Integers\<close>

lemma kind_decode_err [simp]: "kind (decode_err msg) = DecodeError"
  by (simp add: decode_err_def)

lemma byte_at_byte [simp]: "byte_at 0 (b :: u8) = b"
  by (simp add: byte_at_def and_255 take_bit_word_eq_self)

lemma write_ints [wire_write]:
  "bw_data (write_u8 w b) = bw_data w @ be_split 1 b"
  "bw_data (write_i8 w b) = bw_data w @ be_split 1 b"
  "bw_data (write_u16 w x) = bw_data w @ be_split 2 x"
  "bw_data (write_i16 w x) = bw_data w @ be_split 2 x"
  "bw_data (write_u32 w y) = bw_data w @ be_split 4 y"
  "bw_data (write_i32 w y) = bw_data w @ be_split 4 y"
  "bw_data (write_u64 w z) = bw_data w @ be_split 8 z"
  "bw_data (write_i64 w z) = bw_data w @ be_split 8 z"
  by (simp_all add: write_u8_def write_i8_def write_u16_def write_i16_def write_u32_def
      write_i32_def write_u64_def write_i64_def eval_nat_numeral)

text \<open>What a fixed-width reader returns, for every input.\<close>

definition reads_word :: "nat \<Rightarrow> 'a::len word read_op \<Rightarrow> bool" where
  "reads_word n m \<longleftrightarrow> (\<forall>pre suf. m (reader_at pre suf) =
     (if n \<le> length suf then (Ok (be_join (take n suf)), reader_at (pre @ take n suf) (drop n suf))
      else (Err truncated_input, reader_at pre suf)))"

lemma reads_wordD:
  "reads_word n m \<Longrightarrow> m (reader_at pre suf) =
     (if n \<le> length suf then (Ok (be_join (take n suf)), reader_at (pre @ take n suf) (drop n suf))
      else (Err truncated_input, reader_at pre suf))"
  unfolding reads_word_def by blast

lemma take_2: "2 \<le> length xs \<Longrightarrow> take 2 xs = [xs ! 0, xs ! 1]"
  by (cases xs; cases "tl xs") (simp_all add: eval_nat_numeral)

lemma take_4: "4 \<le> length xs \<Longrightarrow> take 4 xs = [xs ! 0, xs ! 1, xs ! 2, xs ! 3]"
proof -
  assume "4 \<le> length xs"
  then have "take 4 xs = take 2 xs @ take 2 (drop 2 xs)"
    by (simp flip: take_add)
  with \<open>4 \<le> length xs\<close> show ?thesis by (simp add: take_2)
qed

lemma be_join_1: "be_join [b] = (b :: u8)"
  by (simp add: be_join_def be_step_def)

lemma be_join_2: "be_join [a, b] = push_bit 8 (ucast a) OR (ucast b :: u16)"
  by (simp add: be_join_def be_step_def)

lemma be_join_4:
  "be_join [a, b, c, d] =
     push_bit 24 (ucast a) OR push_bit 16 (ucast b) OR push_bit 8 (ucast c) OR (ucast d :: u32)"
  by (simp add: be_join_def be_step_def push_bit_or or.assoc)

lemma reads_word_ints:
  "reads_word 1 read_u8" "reads_word 1 read_i8" "reads_word 2 read_u16" "reads_word 2 read_i16"
  "reads_word 4 read_u32" "reads_word 4 read_i32" "reads_word 8 read_u64" "reads_word 8 read_i64"
proof -
  show u8: "reads_word 1 read_u8"
    by (auto simp: reads_word_def read_u8_def read_byte_at be_join_1 split: list.split)
  show u16: "reads_word 2 read_u16"
    by (auto simp: reads_word_def read_u16_def rbind_def read_raw_at take_2 be_join_2)
  show u32: "reads_word 4 read_u32"
    by (auto simp: reads_word_def read_u32_def rbind_def read_raw_at take_4 be_join_4)
  show u64: "reads_word 8 read_u64"
    by (auto simp: reads_word_def read_u64_def rbind_def read_raw_at be_join_def)
  have id: "rbind m (\<lambda>v. rreturn v) = m" for m :: "'a read_op"
    by (rule ext) (auto simp: rbind_def split: prod.split sum.split)
  show "reads_word 1 read_i8" "reads_word 2 read_i16" "reads_word 4 read_i32" "reads_word 8 read_i64"
    using u8 u16 u32 u64
    by (simp_all add: read_i8_def read_i16_def read_i32_def read_i64_def id read_u8_def del: rreturn_eq)
qed

lemma read_ints_forward [forward_intros]:
  "reads_forward read_u8" "reads_forward read_i8" "reads_forward read_u16" "reads_forward read_i16"
  "reads_forward read_u32" "reads_forward read_i32" "reads_forward read_u64" "reads_forward read_i64"
  "fails_decoding read_u8" "fails_decoding read_i8" "fails_decoding read_u16" "fails_decoding read_i16"
  "fails_decoding read_u32" "fails_decoding read_i32" "fails_decoding read_u64"
  "fails_decoding read_i64"
  unfolding read_u8_def read_i8_def read_u16_def read_i16_def read_u32_def read_i32_def
    read_u64_def read_i64_def by (intro forward_intros)+

lemma word_canonical:
  assumes len: "LENGTH('a::len) = 8 * n"
    and wr: "\<And>w x. bw_data (wr w x) = bw_data w @ be_split n x"
    and rd: "reads_word n (m :: 'a word read_op)"
    and forward: "reads_forward m" "fails_decoding m"
  shows "canonical_codec wr m (be_split n) (\<lambda>_. True)"
proof (unfold_locales, goal_cases)
  case (1 w x)
  show ?case by (rule wr)
next
  case 2
  show ?case by (rule forward)
next
  case 3
  show ?case by (rule forward)
next
  case (4 x pre s)
  show ?case using len by (simp add: reads_wordD [OF rd] be_join_split)
next
  case (5 pre suf x r')
  then have n: "n \<le> length suf" and x: "x = be_join (take n suf)"
    and r': "r' = reader_at (pre @ take n suf) (drop n suf)"
    by (simp_all add: reads_wordD [OF rd] split: if_splits)
  have "be_split n x = take n suf"
    using be_split_join [of "take n suf", where 'a = 'a] n len by (simp add: x)
  with r' show ?case by (metis append_take_drop_id)
qed

interpretation u8_codec: canonical_codec write_u8 read_u8 "be_split 1" "\<lambda>_. True"
  by (rule word_canonical) (simp_all only: wire_write reads_word_ints read_ints_forward, simp)

interpretation i8_codec: canonical_codec write_i8 read_i8 "be_split 1" "\<lambda>_. True"
  by (rule word_canonical) (simp_all only: wire_write reads_word_ints read_ints_forward, simp)

interpretation u16_codec: canonical_codec write_u16 read_u16 "be_split 2" "\<lambda>_. True"
  by (rule word_canonical) (simp_all add: wire_write reads_word_ints read_ints_forward)

interpretation i16_codec: canonical_codec write_i16 read_i16 "be_split 2" "\<lambda>_. True"
  by (rule word_canonical) (simp_all add: wire_write reads_word_ints read_ints_forward)

interpretation u32_codec: canonical_codec write_u32 read_u32 "be_split 4" "\<lambda>_. True"
  by (rule word_canonical) (simp_all add: wire_write reads_word_ints read_ints_forward)

interpretation i32_codec: canonical_codec write_i32 read_i32 "be_split 4" "\<lambda>_. True"
  by (rule word_canonical) (simp_all add: wire_write reads_word_ints read_ints_forward)

interpretation u64_codec: canonical_codec write_u64 read_u64 "be_split 8" "\<lambda>_. True"
  by (rule word_canonical) (simp_all add: wire_write reads_word_ints read_ints_forward)

interpretation i64_codec: canonical_codec write_i64 read_i64 "be_split 8" "\<lambda>_. True"
  by (rule word_canonical) (simp_all add: wire_write reads_word_ints read_ints_forward)

lemmas int_rd_enc [wire_read] =
  u8_codec.rd_enc [OF TrueI] u16_codec.rd_enc [OF TrueI] i16_codec.rd_enc [OF TrueI]
  u32_codec.rd_enc [OF TrueI] i32_codec.rd_enc [OF TrueI] u64_codec.rd_enc [OF TrueI]

section \<open>Length prefixes\<close>

text \<open>A length below the sign bit reads back as itself.\<close>

lemma sint_of_small_nat:
  assumes "n < 2 ^ (LENGTH('a::len) - 1)"
  shows "sint (word_of_nat n :: 'a word) = int n"
proof -
  from assms have "int n < 2 ^ (LENGTH('a) - 1)"
    by (metis of_nat_less_iff of_nat_numeral of_nat_power)
  moreover have "- (2 ^ (LENGTH('a) - 1)) \<le> int n"
    by (rule order_trans [of _ 0]) simp_all
  ultimately show ?thesis
    by (simp add: signed_of_nat signed_take_bit_int_eq_self_iff)
qed

lemma word_of_nat_sint:
  assumes "0 \<le> sint (w :: 'a::len word)"
  shows "word_of_nat (nat (sint w)) = w" "nat (sint w) < 2 ^ (LENGTH('a) - 1)"
proof -
  show "word_of_nat (nat (sint w)) = w"
    using assms by (simp add: of_nat_nat)
  have "sint w < 2 ^ (LENGTH('a) - 1)"
    by (rule sint_lt)
  with assms show "nat (sint w) < 2 ^ (LENGTH('a) - 1)"
    by (simp add: nat_less_iff)
qed

lemma sint_len16: "n \<le> INT16_MAX \<Longrightarrow> sint (word_of_nat n :: i16) = int n"
  by (rule sint_of_small_nat) (simp add: INT16_MAX_def)

lemma sint_len32: "n < 2 ^ 31 \<Longrightarrow> sint (word_of_nat n :: i32) = int n"
  by (rule sint_of_small_nat) simp

lemma neq_minus_1: "0 \<le> sint w \<Longrightarrow> w \<noteq> (-1 :: 'a::len word)"
  by auto

section \<open>Strings\<close>

lemma take_bytes_of_string: "take n (bytes_of_string s) = bytes_of_string (take n s)"
  by (simp add: bytes_of_string_def take_map)

lemma write_string_appends [wire_write]: "bw_data (write_string w s) = bw_data w @ enc_string s"
  by (auto simp: write_string_def enc_string_def Let_def wire_write take_bytes_of_string min_def)

lemma write_string_opt_appends [wire_write]:
  "bw_data (write_string_opt w s) = bw_data w @ enc_string_opt s"
  by (cases s) (simp_all add: write_string_opt_def enc_string_opt_def wire_write)

lemma enc_string_valid:
  "valid_string s \<Longrightarrow> enc_string s = be_split 2 (word_of_nat (length s) :: i16) @ bytes_of_string s"
  by (simp add: enc_string_def valid_string_def min_def)

lemma valid_string_Nil [simp]: "valid_string []"
  by (simp add: valid_string_def bytes_of_string_def)

lemma reads_forward_If [forward_intros]:
  "reads_forward m \<Longrightarrow> reads_forward m' \<Longrightarrow> reads_forward (if b then m else m')"
  by simp

lemma fails_decoding_If [forward_intros]:
  "fails_decoding m \<Longrightarrow> fails_decoding m' \<Longrightarrow> fails_decoding (if b then m else m')"
  by simp

lemma read_string_forward [forward_intros]: "reads_forward read_string" "fails_decoding read_string"
  unfolding read_string_def Let_def by (intro forward_intros kind_decode_err)+

lemma read_string_required_forward [forward_intros]:
  "reads_forward read_string_required" "fails_decoding read_string_required"
  unfolding read_string_required_def
  by (intro forward_intros, simp split: option.split add: forward_intros del: rreturn_eq rfail_eq)+

lemma read_string_enc_None:
  "read_string (reader_at pre (be_split 2 (-1 :: i16) @ s)) =
     (Ok None, reader_at (pre @ be_split 2 (-1 :: i16)) s)"
  by (simp add: read_string_def wire_read)

lemma read_string_enc:
  assumes "valid_string t"
  shows "read_string (reader_at pre (enc_string t @ s)) = (Ok (Some t), reader_at (pre @ enc_string t) s)"
proof -
  let ?len = "word_of_nat (length t) :: i16"
  have len: "sint ?len = int (length t)"
    using assms by (simp add: valid_string_def sint_len16)
  then have "?len \<noteq> -1" using neq_minus_1 [of ?len] by simp
  with len assms show ?thesis
    by (simp add: enc_string_valid read_string_def wire_read borrow_at valid_string_def Let_def)
qed

lemma read_string_sound:
  assumes "read_string (reader_at pre suf) = (Ok x, r')"
  shows "valid_string_opt x \<and>
    (\<exists>s. suf = enc_string_opt x @ s \<and> r' = reader_at (pre @ enc_string_opt x) s)"
proof -
  from assms obtain len r1 where len: "read_i16 (reader_at pre suf) = (Ok len, r1)"
    and k: "(if len = -1 then rreturn None
       else if sint len < 0 then rfail (decode_err ''string length out of range'')
       else let sz = nat (sint len) in
         rbind (borrow sz) (\<lambda>p.
           if sz > 0 \<and> \<not> is_valid_utf8 p sz then rfail (decode_err ''invalid UTF-8 in string'')
           else rreturn (Some (string_of_bytes p)))) r1 = (Ok x, r')"
    unfolding read_string_def by (rule rbind_OkE)
  from i16_codec.rd_sound [OF len] obtain s1 where s1: "suf = be_split 2 len @ s1"
    and r1: "r1 = reader_at (pre @ be_split 2 len) s1" by blast
  show ?thesis
  proof (cases "len = -1")
    case True
    with k s1 r1 show ?thesis by (auto simp: enc_string_opt_def valid_string_opt_def)
  next
    case False
    with k have pos: "0 \<le> sint len" by (auto split: if_splits)
    let ?sz = "nat (sint len)"
    from False k pos r1 have sz: "?sz \<le> length s1" and x: "x = Some (string_of_bytes (take ?sz s1))"
      and utf8: "?sz = 0 \<or> is_valid_utf8 (take ?sz s1) ?sz"
      and r': "r' = reader_at (pre @ be_split 2 len @ take ?sz s1) (drop ?sz s1)"
      by (auto simp: Let_def rbind_def borrow_at split: if_splits)
    have max: "?sz \<le> INT16_MAX"
      using word_of_nat_sint(2) [OF pos] by (simp add: INT16_MAX_def)
    have v: "valid_string (string_of_bytes (take ?sz s1))"
      using max sz utf8 by (auto simp: valid_string_def)
    moreover have "enc_string (string_of_bytes (take ?sz s1)) = be_split 2 len @ take ?sz s1"
      using sz word_of_nat_sint(1) [OF pos] by (simp add: enc_string_valid [OF v] min_def)
    ultimately show ?thesis
      using x r' s1 by (simp add: enc_string_opt_def valid_string_opt_def)
  qed
qed

interpretation string_opt_codec:
  canonical_codec write_string_opt read_string enc_string_opt valid_string_opt
proof (unfold_locales, goal_cases)
  case (1 w x)
  show ?case by (rule wire_write)
next
  case 2
  show ?case by (rule read_string_forward)
next
  case 3
  show ?case by (rule read_string_forward)
next
  case (4 x pre s)
  then show ?case
    by (cases x)
      (simp_all add: valid_string_opt_def enc_string_opt_def read_string_enc read_string_enc_None)
next
  case (5 pre suf x r')
  then show ?case by (rule read_string_sound)
qed

interpretation string_codec: canonical_codec write_string read_string_required enc_string valid_string
proof (unfold_locales, goal_cases)
  case (1 w x)
  show ?case by (rule wire_write)
next
  case 2
  show ?case by (rule read_string_required_forward)
next
  case 3
  show ?case by (rule read_string_required_forward)
next
  case (4 x pre s)
  then show ?case by (simp add: read_string_required_def read_string_enc)
next
  case (5 pre suf x r')
  then obtain o' r1 where r1: "read_string (reader_at pre suf) = (Ok o', r1)"
    and "(case o' of None \<Rightarrow> rfail (decode_err ''expected non-null string'') | Some t \<Rightarrow> rreturn t) r1
      = (Ok x, r')"
    unfolding read_string_required_def by (rule rbind_OkE)
  then have "o' = Some x" "r1 = r'" by (simp_all split: option.splits)
  with read_string_sound [OF r1] show ?case
    by (simp add: valid_string_opt_def enc_string_opt_def)
qed

section \<open>Byte arrays and array prefixes\<close>

lemma write_bytes_raw_appends [wire_write]:
  "bw_data (write_bytes_raw w d (length d)) = bw_data w @ enc_bytes (Some d)"
  by (simp add: write_bytes_raw_def enc_bytes_def Let_def wire_write)

lemma write_bytes_appends [wire_write]: "bw_data (write_bytes w b) = bw_data w @ enc_bytes b"
  by (cases b) (simp_all add: write_bytes_def wire_write, simp add: enc_bytes_def)

lemma read_bytes_forward [forward_intros]: "reads_forward read_bytes" "fails_decoding read_bytes"
  unfolding read_bytes_def Let_def by (intro forward_intros kind_decode_err)+

lemma read_array_prefix_forward [forward_intros]:
  "reads_forward read_array_prefix" "fails_decoding read_array_prefix"
  unfolding read_array_prefix_def by (intro forward_intros kind_decode_err)+

lemma read_bytes_enc:
  assumes "valid_bytes x"
  shows "read_bytes (reader_at pre (enc_bytes x @ s)) = (Ok x, reader_at (pre @ enc_bytes x) s)"
proof (cases x)
  case None
  then show ?thesis by (simp add: enc_bytes_def read_bytes_def wire_read)
next
  case (Some d)
  let ?len = "word_of_nat (length d) :: i32"
  have len: "sint ?len = int (length d)"
    using assms Some by (simp add: valid_bytes_def sint_len32)
  then have "?len \<noteq> -1" using neq_minus_1 [of ?len] by simp
  with len Some show ?thesis
    by (simp add: enc_bytes_def read_bytes_def wire_read borrow_at)
qed

lemma read_bytes_sound:
  assumes "read_bytes (reader_at pre suf) = (Ok x, r')"
  shows "valid_bytes x \<and> (\<exists>s. suf = enc_bytes x @ s \<and> r' = reader_at (pre @ enc_bytes x) s)"
proof -
  from assms obtain len r1 where len: "read_i32 (reader_at pre suf) = (Ok len, r1)"
    and k: "(if len = -1 then rreturn None
       else if sint len < 0 then rfail (decode_err ''bytes length out of range'')
       else let sz = nat (sint len) in rbind (borrow sz) (\<lambda>p. rreturn (Some p))) r1 = (Ok x, r')"
    unfolding read_bytes_def by (rule rbind_OkE)
  from i32_codec.rd_sound [OF len] obtain s1 where s1: "suf = be_split 4 len @ s1"
    and r1: "r1 = reader_at (pre @ be_split 4 len) s1" by blast
  show ?thesis
  proof (cases "len = -1")
    case True
    with k s1 r1 show ?thesis by (auto simp: enc_bytes_def valid_bytes_def)
  next
    case False
    with k have pos: "0 \<le> sint len" by (auto split: if_splits)
    let ?sz = "nat (sint len)"
    from False k pos r1 have sz: "?sz \<le> length s1" and x: "x = Some (take ?sz s1)"
      and r': "r' = reader_at (pre @ be_split 4 len @ take ?sz s1) (drop ?sz s1)"
      by (auto simp: Let_def rbind_def borrow_at split: if_splits)
    have "?sz < 2 ^ 31" using word_of_nat_sint(2) [OF pos] by simp
    with sz x r' s1 word_of_nat_sint(1) [OF pos] show ?thesis
      by (simp add: enc_bytes_def valid_bytes_def min_def)
  qed
qed

interpretation bytes_codec: canonical_codec write_bytes read_bytes enc_bytes valid_bytes
  by unfold_locales (fact wire_write read_bytes_forward read_bytes_enc read_bytes_sound)+

interpretation count_codec:
  canonical_codec write_array_prefix read_array_prefix "be_split 4" valid_count
proof (unfold_locales, goal_cases)
  case (1 w x)
  show ?case by (simp add: write_array_prefix_def wire_write)
next
  case 2
  show ?case by (rule read_array_prefix_forward)
next
  case 3
  show ?case by (rule read_array_prefix_forward)
next
  case (4 x pre s)
  then show ?case by (simp add: read_array_prefix_def wire_read valid_count_def)
next
  case (5 pre suf x r')
  then obtain r1 where "read_i32 (reader_at pre suf) = (Ok x, r1)" "r1 = r'" "0 \<le> sint x"
    unfolding read_array_prefix_def by (auto elim!: rbind_OkE split: if_splits)
  then show ?case using i32_codec.rd_sound by (auto simp: valid_count_def)
qed

lemmas codec_rd_enc [wire_read] =
  string_codec.rd_enc string_opt_codec.rd_enc bytes_codec.rd_enc count_codec.rd_enc

lemma valid_count_length: "n < 2 ^ 31 \<Longrightarrow> valid_count (word_of_nat n)"
  by (simp add: valid_count_def sint_len32)

text \<open>Short ASCII strings are valid.\<close>

lemma valid_string_ascii:
  assumes "list_all (\<lambda>c. (of_char c :: nat) < 128) s" and "length s \<le> 32767"
  shows "valid_string s"
proof -
  have "unat b < 128" if "b \<in> set (bytes_of_string s)" for b
    using that assms(1)
    by (auto simp: bytes_of_string_def byte_of_char_def list_all_iff unat_of_nat)
  then have "is_valid_utf8 (bytes_of_string s) (length (bytes_of_string s))"
    by (intro is_valid_utf8_ascii) blast
  then show ?thesis using assms(2) by (simp add: valid_string_def INT16_MAX_def)
qed

section \<open>Arrays of a canonical type\<close>

text \<open>
  \<open>[T]\<close>: an \<open>int32\<close> count and that many elements. The three array codecs of the command
  structs are instances.
\<close>

locale codec_array =
  elem: canonical_codec wr rd enc valid
  for wr :: "buffer_writer \<Rightarrow> 'a \<Rightarrow> buffer_writer" and rd :: "'a read_op"
    and enc :: "'a \<Rightarrow> bytes" and valid :: "'a \<Rightarrow> bool"

sublocale codec_array \<subseteq> arr: canonical_codec
  "\<lambda>w xs. foldl wr (write_array_prefix w (word_of_nat (length xs))) xs"
  "rbind read_array_prefix (\<lambda>count. rloop rd (nat (sint count)) [])"
  "\<lambda>xs. be_split 4 (word_of_nat (length xs) :: i32) @ concat (map enc xs)"
  "\<lambda>xs. length xs < 2 ^ 31 \<and> (\<forall>x\<in>set xs. valid x)"
proof (unfold_locales, goal_cases)
  case (1 w x)
  show ?case by (simp add: elem.wr_list_appends count_codec.wr_appends)
next
  case 2
  show ?case by (intro forward_intros elem.rd_forward)
next
  case 3
  show ?case by (intro forward_intros elem.rd_fails)
next
  case (4 xs pre s)
  then have n: "sint (word_of_nat (length xs) :: i32) = int (length xs)"
    by (simp add: sint_len32)
  with 4 show ?case
    using elem.rloop_enc [of xs "[]" "pre @ be_split 4 (word_of_nat (length xs) :: i32)" s]
    by (simp add: wire_read valid_count_length)
next
  case (5 pre suf xs r')
  then obtain n r1 where n: "read_array_prefix (reader_at pre suf) = (Ok n, r1)"
    and loop: "rloop rd (nat (sint n)) [] r1 = (Ok xs, r')"
    by (rule rbind_OkE)
  from count_codec.rd_sound [OF n] obtain s1 where s1: "valid_count n" "suf = be_split 4 n @ s1"
    "r1 = reader_at (pre @ be_split 4 n) s1" by blast
  from elem.rloop_sound [OF loop [unfolded s1(3)]] obtain s where
    xs: "length xs = nat (sint n)" "\<forall>x\<in>set xs. valid x" "s1 = concat (map enc xs) @ s"
    "r' = reader_at ((pre @ be_split 4 n) @ concat (map enc xs)) s"
    by auto
  from s1(1) have pos: "0 \<le> sint n" by (simp add: valid_count_def)
  with xs(1) word_of_nat_sint [OF pos] have "word_of_nat (length xs) = n" "length xs < 2 ^ 31"
    by simp_all
  with xs s1 show ?case by auto
qed

end
