(* ===== verification/Frame.thy ===== *)
theory Frame
  imports Codec
begin

text \<open>
  \<open>frame.hpp\<close> and \<open>frame.cpp\<close>: command keys, response codes, the size-prefixed frame envelope
  and the outbound size check. \<open>read_frame_auto\<close> is characterised on every input: it succeeds
  exactly on the bytes of a frame and then consumes exactly those bytes, so the stream stays
  in step. The subtraction \<open>declared - consumed\<close> of two \<open>size_t\<close> values wraps for a response
  whose declared size has no room for the correlation id; the wrapped length is then refused.
\<close>

section \<open>Keys and response codes\<close>

definition key_QueryPublisherSequence :: u16 where [wire_consts]: "key_QueryPublisherSequence = 0x0005"
definition key_StoreOffset :: u16 where [wire_consts]: "key_StoreOffset = 0x000A"
definition key_QueryOffset :: u16 where [wire_consts]: "key_QueryOffset = 0x000B"
definition key_Create :: u16 where [wire_consts]: "key_Create = 0x000D"
definition key_Delete :: u16 where [wire_consts]: "key_Delete = 0x000E"
definition key_PeerProperties :: u16 where [wire_consts]: "key_PeerProperties = 0x0011"
definition key_SaslHandshake :: u16 where [wire_consts]: "key_SaslHandshake = 0x0012"
definition key_SaslAuthenticate :: u16 where [wire_consts]: "key_SaslAuthenticate = 0x0013"
definition key_Tune :: u16 where [wire_consts]: "key_Tune = 0x0014"
definition key_Open :: u16 where [wire_consts]: "key_Open = 0x0015"
definition key_Close :: u16 where [wire_consts]: "key_Close = 0x0016"
definition key_Heartbeat :: u16 where [wire_consts]: "key_Heartbeat = 0x0017"
definition key_MetadataUpdate :: u16 where [wire_consts]: "key_MetadataUpdate = 0x0010"

definition kResponseBit :: u16 where [wire_consts]: "kResponseBit = 0x8000"
definition kKeyMask :: u16 where [wire_consts]: "kKeyMask = 0x7FFF"

definition response_of :: "u16 \<Rightarrow> u16" where
  "response_of request_key = request_key OR kResponseBit"

definition request_of :: "u16 \<Rightarrow> u16" where
  "request_of any_key = any_key AND kKeyMask"

definition is_response :: "u16 \<Rightarrow> bool" where
  "is_response any_key \<longleftrightarrow> any_key AND kResponseBit \<noteq> 0"

definition rc_Ok :: u16 where [wire_consts]: "rc_Ok = 0x01"
definition rc_StreamDoesNotExist :: u16 where [wire_consts]: "rc_StreamDoesNotExist = 0x02"
definition rc_SubscriptionIdAlreadyExists :: u16 where
  [wire_consts]: "rc_SubscriptionIdAlreadyExists = 0x03"
definition rc_SubscriptionIdDoesNotExist :: u16 where
  [wire_consts]: "rc_SubscriptionIdDoesNotExist = 0x04"
definition rc_StreamAlreadyExists :: u16 where [wire_consts]: "rc_StreamAlreadyExists = 0x05"
definition rc_StreamNotAvailable :: u16 where [wire_consts]: "rc_StreamNotAvailable = 0x06"
definition rc_SaslMechanismNotSupported :: u16 where
  [wire_consts]: "rc_SaslMechanismNotSupported = 0x07"
definition rc_AuthenticationFailure :: u16 where [wire_consts]: "rc_AuthenticationFailure = 0x08"
definition rc_SaslError :: u16 where [wire_consts]: "rc_SaslError = 0x09"
definition rc_SaslChallenge :: u16 where [wire_consts]: "rc_SaslChallenge = 0x0A"
definition rc_SaslAuthenticationFailureLoopback :: u16 where
  [wire_consts]: "rc_SaslAuthenticationFailureLoopback = 0x0B"
definition rc_VirtualHostAccessFailure :: u16 where
  [wire_consts]: "rc_VirtualHostAccessFailure = 0x0C"
definition rc_UnknownFrame :: u16 where [wire_consts]: "rc_UnknownFrame = 0x0D"
definition rc_FrameTooLarge :: u16 where [wire_consts]: "rc_FrameTooLarge = 0x0E"
definition rc_InternalError :: u16 where [wire_consts]: "rc_InternalError = 0x0F"
definition rc_AccessRefused :: u16 where [wire_consts]: "rc_AccessRefused = 0x10"
definition rc_PreconditionFailed :: u16 where [wire_consts]: "rc_PreconditionFailed = 0x11"
definition rc_PublisherDoesNotExist :: u16 where [wire_consts]: "rc_PublisherDoesNotExist = 0x12"
definition rc_NoOffset :: u16 where [wire_consts]: "rc_NoOffset = 0x13"

section \<open>Frames\<close>

record incoming_frame =
  fr_key :: u16
  fr_version :: u16
  fr_body :: bytes
  fr_cid :: "u32 option"

definition encode_request_frame :: "u16 \<Rightarrow> u16 \<Rightarrow> u32 \<Rightarrow> bytes \<Rightarrow> bytes" where
  "encode_request_frame key version cid body =
     (let w = write_raw empty_writer [] 0;
          inner = write_u16 empty_writer key;
          inner = write_u16 inner version;
          inner = write_u32 inner cid;
          inner = (if body \<noteq> [] then write_raw inner body (length body) else inner);
          inner_bytes = bw_data inner;
          w = write_u32 w (word_of_nat (length inner_bytes))
      in bw_data (write_raw w inner_bytes (length inner_bytes)))"

definition encode_oneway_frame :: "u16 \<Rightarrow> u16 \<Rightarrow> bytes \<Rightarrow> bytes" where
  "encode_oneway_frame key version body =
     (let inner = write_u16 empty_writer key;
          inner = write_u16 inner version;
          inner = (if body \<noteq> [] then write_raw inner body (length body) else inner);
          inner_bytes = bw_data inner;
          w = write_u32 empty_writer (word_of_nat (length inner_bytes))
      in bw_data (write_raw w inner_bytes (length inner_bytes)))"

definition frame_too_small :: stream_error where
  "frame_too_small = StreamError ProtocolViolation ''frame Size < 4''"

definition frame_truncated :: stream_error where
  "frame_truncated = StreamError DecodeError ''frame body truncated''"

text \<open>The body of \<open>read_frame_auto\<close> after the size checks; \<open>start\<close> is the position there.\<close>

definition read_frame_rest :: "u32 \<Rightarrow> nat \<Rightarrow> incoming_frame read_op" where
  "read_frame_rest declared start =
     rbind read_u16 (\<lambda>key.
     rbind read_u16 (\<lambda>ver.
     rbind (if is_response key then rbind read_u32 (\<lambda>c. rreturn (Some c)) else rreturn None) (\<lambda>cid.
       \<lambda>r. let consumed = size_sub (rd_pos r) start;
               body_len = size_sub (unat declared) consumed
           in rbind (borrow body_len) (\<lambda>p.
                rreturn \<lparr>fr_key = key, fr_version = ver, fr_body = p, fr_cid = cid\<rparr>) r)))"

definition read_frame_auto :: "incoming_frame read_op" where
  "read_frame_auto = rbind read_u32 (\<lambda>declared r.
     if declared < 4 then rfail frame_too_small r
     else if unat declared > remaining r then rfail frame_truncated r
     else read_frame_rest declared (rd_pos r) r)"

definition check_outbound_frame_size :: "nat \<Rightarrow> u32 \<Rightarrow> unit result" where
  "check_outbound_frame_size body_size frame_max =
     (if frame_max = 0 then Ok ()
      else if body_size > unat frame_max then
        Err (StreamError ProtocolViolation ''outbound frame exceeds negotiated FrameMax'')
      else Ok ())"

section \<open>The bytes of a frame\<close>

definition enc_cid :: "u32 option \<Rightarrow> bytes" where
  "enc_cid c = (case c of None \<Rightarrow> [] | Some x \<Rightarrow> be_split 4 x)"

definition frame_size :: "incoming_frame \<Rightarrow> nat" where
  "frame_size f = 4 + length (enc_cid (fr_cid f)) + length (fr_body f)"

definition enc_frame :: "incoming_frame \<Rightarrow> bytes" where
  "enc_frame f =
     be_split 4 (word_of_nat (frame_size f) :: u32) @ be_split 2 (fr_key f) @
     be_split 2 (fr_version f) @ enc_cid (fr_cid f) @ fr_body f"

definition valid_frame :: "incoming_frame \<Rightarrow> bool" where
  "valid_frame f \<longleftrightarrow> frame_size f < 2 ^ 32 \<and> (fr_cid f \<noteq> None \<longleftrightarrow> is_response (fr_key f))"

section \<open>The response bit\<close>

lemma key_bit_lemmas: "kResponseBit = push_bit 15 1" "kKeyMask = mask 15"
  by (simp_all add: wire_consts mask_eq_exp_minus_1)

lemma is_response_iff: "is_response k \<longleftrightarrow> bit k 15"
  using bit_iff_and_push_bit_not_eq_0 [of k 15] by (simp add: is_response_def key_bit_lemmas)

lemma bit_kResponseBit: "bit kResponseBit n \<longleftrightarrow> n = 15"
  by (auto simp: key_bit_lemmas bit_simps simp del: push_bit_of_1)

lemma is_response_response_of [simp]: "is_response (response_of k)"
  by (simp add: is_response_iff response_of_def bit_or_iff bit_kResponseBit)

lemma not_is_response_request_of [simp]: "\<not> is_response (request_of k)"
  by (simp add: is_response_iff request_of_def key_bit_lemmas bit_simps)

lemma request_of_response_of: "\<not> is_response k \<Longrightarrow> request_of (response_of k) = k"
  by (rule bit_word_eqI)
    (auto simp: is_response_iff request_of_def response_of_def key_bit_lemmas(2) bit_simps
      bit_kResponseBit less_Suc_eq [of _ 15, simplified])

lemma response_of_request_of: "is_response k \<Longrightarrow> response_of (request_of k) = k"
  by (rule bit_word_eqI)
    (auto simp: is_response_iff request_of_def response_of_def key_bit_lemmas(2) bit_simps
      bit_kResponseBit less_Suc_eq [of _ 15, simplified])

lemma not_response_keys [simp]:
  "\<not> is_response key_QueryPublisherSequence" "\<not> is_response key_StoreOffset"
  "\<not> is_response key_QueryOffset" "\<not> is_response key_Create" "\<not> is_response key_Delete"
  "\<not> is_response key_PeerProperties" "\<not> is_response key_SaslHandshake"
  "\<not> is_response key_SaslAuthenticate" "\<not> is_response key_Tune" "\<not> is_response key_Open"
  "\<not> is_response key_Close" "\<not> is_response key_Heartbeat" "\<not> is_response key_MetadataUpdate"
  by (simp_all add: is_response_def wire_consts)

section \<open>Encoding\<close>

lemma encode_request_frame_eq:
  "encode_request_frame key ver cid body =
     be_split 4 (word_of_nat (8 + length body) :: u32) @ be_split 2 key @ be_split 2 ver @
     be_split 4 cid @ body"
  by (simp add: encode_request_frame_def Let_def wire_write)

lemma encode_oneway_frame_eq:
  "encode_oneway_frame key ver body =
     be_split 4 (word_of_nat (4 + length body) :: u32) @ be_split 2 key @ be_split 2 ver @ body"
  by (simp add: encode_oneway_frame_def Let_def wire_write)

lemma length_encode_request_frame: "length (encode_request_frame key ver cid body) = 12 + length body"
  by (simp add: encode_request_frame_eq)

lemma length_encode_oneway_frame: "length (encode_oneway_frame key ver body) = 8 + length body"
  by (simp add: encode_oneway_frame_eq)

text \<open>A frame with a correlation id and a one-way frame, as frames.\<close>

lemma encode_request_frame_enc:
  "encode_request_frame key ver cid body =
     enc_frame \<lparr>fr_key = key, fr_version = ver, fr_body = body, fr_cid = Some cid\<rparr>"
  by (simp add: encode_request_frame_eq enc_frame_def frame_size_def enc_cid_def)

lemma encode_oneway_frame_enc:
  "encode_oneway_frame key ver body =
     enc_frame \<lparr>fr_key = key, fr_version = ver, fr_body = body, fr_cid = None\<rparr>"
  by (simp add: encode_oneway_frame_eq enc_frame_def frame_size_def enc_cid_def)

text \<open>A request frame as \<open>read_frame_auto\<close> sees it: the correlation id stays in the body.\<close>

lemma encode_request_frame_oneway:
  "encode_request_frame key ver cid body =
     enc_frame \<lparr>fr_key = key, fr_version = ver, fr_body = be_split 4 cid @ body, fr_cid = None\<rparr>"
  by (simp add: encode_request_frame_eq enc_frame_def frame_size_def enc_cid_def)

section \<open>Decoding\<close>

lemma length_enc_cid: "length (enc_cid c) = (case c of None \<Rightarrow> 0 | Some _ \<Rightarrow> 4)"
  by (simp add: enc_cid_def split: option.split)

lemma length_enc_frame: "length (enc_frame f) = 4 + frame_size f"
  by (simp add: enc_frame_def frame_size_def)

lemma read_frame_rest_enc:
  assumes cid: "fr_cid f \<noteq> None \<longleftrightarrow> is_response (fr_key f)"
    and declared: "unat declared = frame_size f"
  shows "read_frame_rest declared (length pre)
      (reader_at pre (be_split 2 (fr_key f) @ be_split 2 (fr_version f) @ enc_cid (fr_cid f) @
         fr_body f @ s)) =
    (Ok f, reader_at (pre @ be_split 2 (fr_key f) @ be_split 2 (fr_version f) @ enc_cid (fr_cid f) @
         fr_body f) s)"
proof (cases "fr_cid f")
  case None
  with cid declared show ?thesis
    by (cases f) (simp add: read_frame_rest_def wire_read enc_cid_def frame_size_def borrow_at)
next
  case (Some c)
  with cid declared show ?thesis
    by (cases f) (simp add: read_frame_rest_def wire_read enc_cid_def frame_size_def borrow_at)
qed

lemma read_frame_enc:
  assumes "valid_frame f"
  shows "read_frame_auto (reader_at pre (enc_frame f @ s)) = (Ok f, reader_at (pre @ enc_frame f) s)"
proof -
  let ?d = "word_of_nat (frame_size f) :: u32"
  have d: "unat ?d = frame_size f"
    using assms by (simp add: valid_frame_def unat_of_nat)
  then have "\<not> ?d < 4" by (simp add: word_less_nat_alt frame_size_def)
  moreover have "fr_cid f \<noteq> None \<longleftrightarrow> is_response (fr_key f)"
    using assms by (simp add: valid_frame_def)
  ultimately show ?thesis
    using read_frame_rest_enc [of f ?d "pre @ be_split 4 ?d" s] d
    by (simp add: read_frame_auto_def enc_frame_def wire_read frame_size_def)
qed

text \<open>
  The converse, for buffers that fit the address space: the wrapped \<open>body_len\<close> of a response
  that is too short for its correlation id is longer than any buffer.
\<close>

definition fits :: "bytes \<Rightarrow> bool" where
  "fits bs \<longleftrightarrow> length bs < 2 ^ 63"

lemma fits_appendD: "fits (xs @ ys) \<Longrightarrow> fits ys"
  by (simp add: fits_def)

lemma short_body_len: "a < b \<Longrightarrow> b \<le> 8 \<Longrightarrow> fits s \<Longrightarrow> length s < size_sub a b"
  by (simp add: size_sub_def fits_def)

lemma read_frame_rest_sound:
  assumes "read_frame_rest declared (length pre) (reader_at pre suf) = (Ok f, r')"
    and fits: "fits suf" and four: "4 \<le> unat declared"
  shows "(fr_cid f \<noteq> None \<longleftrightarrow> is_response (fr_key f)) \<and> unat declared = frame_size f \<and>
    (\<exists>s. suf = be_split 2 (fr_key f) @ be_split 2 (fr_version f) @ enc_cid (fr_cid f) @ fr_body f @ s \<and>
       r' = reader_at (pre @ be_split 2 (fr_key f) @ be_split 2 (fr_version f) @ enc_cid (fr_cid f) @
         fr_body f) s)"
proof -
  let ?body = "\<lambda>key ver cid r. rbind (borrow (size_sub (unat declared) (size_sub (rd_pos r) (length pre)))) (\<lambda>p.
      rreturn \<lparr>fr_key = key, fr_version = ver, fr_body = p, fr_cid = cid\<rparr>) r"
  from assms(1) obtain key r1 ver r2 where key: "read_u16 (reader_at pre suf) = (Ok key, r1)"
    and ver: "read_u16 r1 = (Ok ver, r2)"
    and rest: "rbind (if is_response key then rbind read_u32 (\<lambda>c. rreturn (Some c)) else rreturn None)
      (?body key ver) r2 = (Ok f, r')"
    unfolding read_frame_rest_def Let_def by (auto elim!: rbind_OkE)
  from u16_codec.rd_sound [OF key] obtain s1 where s1: "suf = be_split 2 key @ s1"
    "r1 = reader_at (pre @ be_split 2 key) s1" by blast
  from u16_codec.rd_sound [OF ver [unfolded s1(2)]] obtain s2 where s2: "s1 = be_split 2 ver @ s2"
    "r2 = reader_at ((pre @ be_split 2 key) @ be_split 2 ver) s2" by blast
  show ?thesis
  proof (cases "is_response key")
    case False
    with rest s2(2) four have "unat declared - 4 \<le> length s2"
      "f = \<lparr>fr_key = key, fr_version = ver, fr_body = take (unat declared - 4) s2, fr_cid = None\<rparr>"
      "r' = reader_at (((pre @ be_split 2 key) @ be_split 2 ver) @ take (unat declared - 4) s2)
         (drop (unat declared - 4) s2)"
      by (auto simp: rbind_def borrow_at split: if_splits)
    with False four s1 s2 show ?thesis
      by (auto simp: frame_size_def enc_cid_def)
  next
    case True
    with rest obtain c r3 where c: "read_u32 r2 = (Ok c, r3)"
      and body: "?body key ver (Some c) r3 = (Ok f, r')"
      by (auto elim!: rbind_OkE)
    from u32_codec.rd_sound [OF c [unfolded s2(2)]] obtain s3 where s3: "s2 = be_split 4 c @ s3"
      "r3 = reader_at (((pre @ be_split 2 key) @ be_split 2 ver) @ be_split 4 c) s3" by blast
    let ?len = "size_sub (unat declared) 8"
    from body s3(2) have len: "?len \<le> length s3"
      and f: "f = \<lparr>fr_key = key, fr_version = ver, fr_body = take ?len s3, fr_cid = Some c\<rparr>"
      and r': "r' = reader_at ((((pre @ be_split 2 key) @ be_split 2 ver) @ be_split 4 c) @ take ?len s3)
         (drop ?len s3)"
      by (auto simp: rbind_def borrow_at split: if_splits)
    have "fits s3" using fits s1(1) s2(1) s3(1) by (auto dest!: fits_appendD)
    with len short_body_len [of "unat declared" 8 s3] have "8 \<le> unat declared"
      by (meson leD leI order_refl)
    with True len f r' s1 s2 s3 show ?thesis
      by (auto simp: frame_size_def enc_cid_def)
  qed
qed

lemma read_frame_sound:
  assumes "read_frame_auto (reader_at pre suf) = (Ok f, r')" and "fits suf"
  shows "valid_frame f \<and> (\<exists>s. suf = enc_frame f @ s \<and> r' = reader_at (pre @ enc_frame f) s)"
proof -
  from assms(1) obtain d r1 where d: "read_u32 (reader_at pre suf) = (Ok d, r1)"
    and four: "\<not> d < 4" and rest: "read_frame_rest d (rd_pos r1) r1 = (Ok f, r')"
    unfolding read_frame_auto_def by (auto elim!: rbind_OkE split: if_splits)
  from u32_codec.rd_sound [OF d] obtain s1 where s1: "suf = be_split 4 d @ s1"
    "r1 = reader_at (pre @ be_split 4 d) s1" by blast
  from rest have rest': "read_frame_rest d (length (pre @ be_split 4 d))
      (reader_at (pre @ be_split 4 d) s1) = (Ok f, r')"
    by (simp add: s1(2))
  have "fits s1" using assms(2) s1(1) by (auto dest: fits_appendD)
  moreover have "4 \<le> unat d" using four by (simp add: word_less_nat_alt)
  ultimately have f: "fr_cid f \<noteq> None \<longleftrightarrow> is_response (fr_key f)" "unat d = frame_size f"
    "\<exists>s. s1 = be_split 2 (fr_key f) @ be_split 2 (fr_version f) @ enc_cid (fr_cid f) @ fr_body f @ s \<and>
       r' = reader_at ((pre @ be_split 4 d) @ be_split 2 (fr_key f) @ be_split 2 (fr_version f) @
         enc_cid (fr_cid f) @ fr_body f) s"
    using read_frame_rest_sound [OF rest'] by blast+
  have "word_of_nat (frame_size f) = d" by (simp flip: f(2))
  moreover have "frame_size f < 2 ^ 32"
    using unsigned_less [of d, where ?'a = nat] f(2) by simp
  ultimately show ?thesis
    using f s1 by (auto simp: valid_frame_def enc_frame_def)
qed

lemma read_frame_iff:
  assumes "fits suf"
  shows "read_frame_auto (reader_at pre suf) = (Ok f, r') \<longleftrightarrow>
    valid_frame f \<and> (\<exists>s. suf = enc_frame f @ s \<and> r' = reader_at (pre @ enc_frame f) s)"
  using read_frame_sound [OF _ assms] read_frame_enc by blast

lemma read_frame_forward: "reads_forward read_frame_auto"
proof -
  have body: "reads_forward (\<lambda>r. rbind (borrow (size_sub d (size_sub (rd_pos r) n))) (\<lambda>p. rreturn (mk p)) r)"
    for d n and mk :: "bytes \<Rightarrow> incoming_frame"
    by (rule reads_forward_peek [where g = rd_pos and f = "\<lambda>a. rbind (borrow (size_sub d (size_sub a n))) (\<lambda>p. rreturn (mk p))"])
      (intro reads_forward_rbind reads_forward_borrow reads_forward_rreturn)
  have cid: "reads_forward (if b then rbind read_u32 (\<lambda>c. rreturn (Some c)) else rreturn None)" for b
    by (cases b) (simp_all only: if_True if_False forward_intros read_ints_forward)
  have rest: "reads_forward (read_frame_rest d n)" for d n
    unfolding read_frame_rest_def Let_def
    by (rule reads_forward_rbind read_ints_forward cid body)+
  have "reads_forward (\<lambda>r. if b then rfail frame_too_small r else if c r then rfail frame_truncated r
      else read_frame_rest d (rd_pos r) r)" for b c d
  proof -
    have "reads_forward (if b then rfail frame_too_small else if fst p then rfail frame_truncated
        else read_frame_rest d (snd p))" for p :: "bool \<times> nat"
      by (simp only: split: if_split) (simp only: reads_forward_rfail rest simp_thms)
    then have "reads_forward (\<lambda>r. (\<lambda>p. if b then rfail frame_too_small else if fst p then rfail frame_truncated
        else read_frame_rest d (snd p)) (c r, rd_pos r) r)"
      by (rule reads_forward_peek)
    then show ?thesis by (simp only: fst_conv snd_conv if_distribR)
  qed
  then show ?thesis
    unfolding read_frame_auto_def by (intro reads_forward_rbind read_ints_forward)
qed

text \<open>Failures are of two kinds only; a size below 4 is the only violation reported as such.\<close>

lemma read_frame_rest_fails: "fails_decoding (read_frame_rest d n)"
  unfolding read_frame_rest_def
  by (intro forward_intros fails_decodingI)
    (auto simp: Let_def dest: fails_decodingD [OF fails_decoding_rbind
        [OF fails_decoding_raw(2) fails_decoding_rreturn]])

lemma read_frame_errors:
  assumes "read_frame_auto r = (Err e, r')"
  shows "e = frame_too_small \<or> kind e = DecodeError"
  using assms unfolding read_frame_auto_def rbind_def
  by (auto simp: frame_truncated_def split: prod.splits sum.splits if_splits
      dest: fails_decodingD [OF read_frame_rest_fails] fails_decodingD [OF read_ints_forward(13)])

lemma read_frame_large_errors:
  assumes "read_frame_auto (reader_at pre (be_split 4 declared @ suf)) = (Err e, r')"
    and "4 \<le> unat (declared :: u32)"
  shows "kind e = DecodeError"
proof -
  have "\<not> declared < 4" using assms(2) by (simp add: word_less_nat_alt)
  with assms(1) show ?thesis
    by (auto simp: read_frame_auto_def wire_read frame_truncated_def split: if_splits
        dest: fails_decodingD [OF read_frame_rest_fails])
qed

lemma check_outbound_frame_size_iff:
  "check_outbound_frame_size n frame_max = Ok () \<longleftrightarrow> frame_max = 0 \<or> n \<le> unat frame_max"
  by (auto simp: check_outbound_frame_size_def)

section \<open>The contract of a command struct\<close>

text \<open>
  Every command struct of \<open>commands/\<close> has a key, a version, \<open>encode_body\<close> and \<open>decode_body\<close>.
  What follows from the body codec alone: a frame that carries the struct is read back whole,
  with its correlation id for a response, and its body decodes to the struct. A request keeps its
  correlation id as the first four bytes of the body (a server reads it from there).
\<close>

locale command = wire_codec wr rd enc valid
  for wr :: "buffer_writer \<Rightarrow> 'a \<Rightarrow> buffer_writer" and rd :: "'a read_op"
    and enc :: "'a \<Rightarrow> bytes" and valid :: "'a \<Rightarrow> bool" +
  fixes kKey :: u16 and kVersion :: u16

locale request_command = command +
  assumes request_key: "\<not> is_response kKey"

locale response_command = command +
  assumes response_key: "is_response kKey"

context command
begin

lemma body_eq: "bw_data (wr empty_writer x) = enc x"
  by (simp add: wr_appends)

lemma body_decodes: "valid x \<Longrightarrow> rd (reader_of (enc x)) = (Ok x, reader_at (enc x) [])"
  using roundtrip [of x] by (simp add: body_eq)

end

context request_command
begin

lemma oneway_frame_roundtrip:
  assumes "4 + length (enc x) < 2 ^ 32"
  shows "read_frame_auto
      (reader_at pre (encode_oneway_frame kKey kVersion (bw_data (wr empty_writer x)) @ s)) =
    (Ok \<lparr>fr_key = kKey, fr_version = kVersion, fr_body = enc x, fr_cid = None\<rparr>,
     reader_at (pre @ encode_oneway_frame kKey kVersion (enc x)) s)"
  using assms request_key unfolding body_eq encode_oneway_frame_enc
  by (intro read_frame_enc) (simp add: valid_frame_def frame_size_def enc_cid_def)

lemma request_frame_roundtrip:
  assumes "8 + length (enc x) < 2 ^ 32"
  shows "read_frame_auto
      (reader_at pre (encode_request_frame kKey kVersion cid (bw_data (wr empty_writer x)) @ s)) =
    (Ok \<lparr>fr_key = kKey, fr_version = kVersion, fr_body = be_split 4 cid @ enc x, fr_cid = None\<rparr>,
     reader_at (pre @ encode_request_frame kKey kVersion cid (enc x)) s)"
  using assms request_key unfolding body_eq encode_request_frame_oneway
  by (intro read_frame_enc) (simp add: valid_frame_def frame_size_def enc_cid_def)

lemma request_body_decodes:
  assumes "valid x"
  shows "rbind read_u32 (\<lambda>cid. rbind rd (\<lambda>y. rreturn (cid, y))) (reader_of (be_split 4 cid @ enc x)) =
    (Ok (cid, x), reader_at (be_split 4 cid @ enc x) [])"
  using rd_enc [OF assms, of "be_split 4 cid" "[]"]
    int_rd_enc(4) [of "[]" cid "enc x"]
  by (simp add: reader_of_at)

end

context response_command
begin

lemma response_frame_roundtrip:
  assumes "8 + length (enc x) < 2 ^ 32"
  shows "read_frame_auto
      (reader_at pre (encode_request_frame kKey kVersion cid (bw_data (wr empty_writer x)) @ s)) =
    (Ok \<lparr>fr_key = kKey, fr_version = kVersion, fr_body = enc x, fr_cid = Some cid\<rparr>,
     reader_at (pre @ encode_request_frame kKey kVersion cid (enc x)) s)"
  using assms response_key unfolding body_eq encode_request_frame_enc
  by (intro read_frame_enc) (simp add: valid_frame_def frame_size_def enc_cid_def)

end

end
