(* ===== verification/Commands.thy ===== *)
theory Commands
  imports Frame
begin

text \<open>
  The command structs of \<open>commands/handshake.hpp\<close> and \<open>commands/lifecycle.hpp\<close>: for each one its
  fields as a record, \<open>encode_body\<close>, \<open>decode_body\<close>, its key and version, the bytes the protocol
  assigns to it and the values that have them. The interpretations show that every struct keeps
  the contract of \<open>Buffer\<close> and \<open>Frame\<close>. Three decoders accept more than the encodings
  (\<open>SaslAuthenticateRequest\<close> takes a null payload as an empty one, \<open>SaslAuthenticateResponse\<close> and
  \<open>OpenResponse\<close> accept that the last field is left out) and are no canonical codecs; all the
  others are.
\<close>

type_synonym key_value = "string \<times> string"

section \<open>Handshake commands\<close>

subsection \<open>Arrays of key/value pairs\<close>

definition encode_kv :: "buffer_writer \<Rightarrow> key_value \<Rightarrow> buffer_writer" where
  "encode_kv w kv = write_string (write_string w (fst kv)) (snd kv)"

definition encode_kv_array :: "buffer_writer \<Rightarrow> key_value list \<Rightarrow> buffer_writer" where
  "encode_kv_array w kvs = foldl encode_kv (write_array_prefix w (word_of_nat (length kvs))) kvs"

definition decode_kv :: "key_value read_op" where
  "decode_kv = rbind read_string_required (\<lambda>k. rbind read_string_required (\<lambda>v. rreturn (k, v)))"

definition decode_kv_array :: "key_value list read_op" where
  "decode_kv_array = rbind read_array_prefix (\<lambda>count. rloop decode_kv (nat (sint count)) [])"

definition enc_kv :: "key_value \<Rightarrow> bytes" where
  "enc_kv kv = enc_string (fst kv) @ enc_string (snd kv)"

definition valid_kv :: "key_value \<Rightarrow> bool" where
  "valid_kv kv \<longleftrightarrow> valid_string (fst kv) \<and> valid_string (snd kv)"

definition enc_kvs :: "key_value list \<Rightarrow> bytes" where
  "enc_kvs kvs = be_split 4 (word_of_nat (length kvs) :: i32) @ concat (map enc_kv kvs)"

definition valid_kvs :: "key_value list \<Rightarrow> bool" where
  "valid_kvs kvs \<longleftrightarrow> length kvs < 2 ^ 31 \<and> (\<forall>kv\<in>set kvs. valid_kv kv)"

subsection \<open>PeerProperties\<close>

definition PeerPropertiesRequest_kKey :: u16 where
  [wire_consts]: "PeerPropertiesRequest_kKey = key_PeerProperties"

definition PeerPropertiesResponse_kKey :: u16 where
  [wire_consts]: "PeerPropertiesResponse_kKey = response_of key_PeerProperties"

definition kVersion :: u16 where
  [wire_consts]: "kVersion = 1"

record PeerPropertiesRequest =
  ppq_properties :: "key_value list"

definition PeerPropertiesRequest_encode_body ::
    "buffer_writer \<Rightarrow> PeerPropertiesRequest \<Rightarrow> buffer_writer" where
  "PeerPropertiesRequest_encode_body w x = encode_kv_array w (ppq_properties x)"

definition PeerPropertiesRequest_decode_body :: "PeerPropertiesRequest read_op" where
  "PeerPropertiesRequest_decode_body =
     rbind decode_kv_array (\<lambda>kvs. rreturn \<lparr>ppq_properties = kvs\<rparr>)"

record PeerPropertiesResponse =
  ppr_response_code :: u16
  ppr_properties :: "key_value list"

definition PeerPropertiesResponse_encode_body ::
    "buffer_writer \<Rightarrow> PeerPropertiesResponse \<Rightarrow> buffer_writer" where
  "PeerPropertiesResponse_encode_body w x =
     encode_kv_array (write_u16 w (ppr_response_code x)) (ppr_properties x)"

definition PeerPropertiesResponse_decode_body :: "PeerPropertiesResponse read_op" where
  "PeerPropertiesResponse_decode_body =
     rbind read_u16 (\<lambda>rc. rbind decode_kv_array (\<lambda>kvs.
       rreturn \<lparr>ppr_response_code = rc, ppr_properties = kvs\<rparr>))"

subsection \<open>SaslHandshake\<close>

definition SaslHandshakeRequest_kKey :: u16 where
  [wire_consts]: "SaslHandshakeRequest_kKey = key_SaslHandshake"

definition SaslHandshakeResponse_kKey :: u16 where
  [wire_consts]: "SaslHandshakeResponse_kKey = response_of key_SaslHandshake"

datatype SaslHandshakeRequest = SaslHandshakeRequest

definition SaslHandshakeRequest_encode_body ::
    "buffer_writer \<Rightarrow> SaslHandshakeRequest \<Rightarrow> buffer_writer" where
  "SaslHandshakeRequest_encode_body w x = w"

definition SaslHandshakeRequest_decode_body :: "SaslHandshakeRequest read_op" where
  "SaslHandshakeRequest_decode_body = rreturn SaslHandshakeRequest"

record SaslHandshakeResponse =
  shr_response_code :: u16
  shr_mechanisms :: "string list"

definition SaslHandshakeResponse_encode_body ::
    "buffer_writer \<Rightarrow> SaslHandshakeResponse \<Rightarrow> buffer_writer" where
  "SaslHandshakeResponse_encode_body w x =
     foldl write_string
       (write_array_prefix (write_u16 w (shr_response_code x))
          (word_of_nat (length (shr_mechanisms x))))
       (shr_mechanisms x)"

definition SaslHandshakeResponse_decode_body :: "SaslHandshakeResponse read_op" where
  "SaslHandshakeResponse_decode_body =
     rbind read_u16 (\<lambda>rc. rbind read_array_prefix (\<lambda>count.
     rbind (rloop read_string_required (nat (sint count)) []) (\<lambda>ms.
       rreturn \<lparr>shr_response_code = rc, shr_mechanisms = ms\<rparr>)))"

definition enc_strings :: "string list \<Rightarrow> bytes" where
  "enc_strings ss = be_split 4 (word_of_nat (length ss) :: i32) @ concat (map enc_string ss)"

definition valid_strings :: "string list \<Rightarrow> bool" where
  "valid_strings ss \<longleftrightarrow> length ss < 2 ^ 31 \<and> (\<forall>s\<in>set ss. valid_string s)"

subsection \<open>SaslAuthenticate\<close>

definition SaslAuthenticateRequest_kKey :: u16 where
  [wire_consts]: "SaslAuthenticateRequest_kKey = key_SaslAuthenticate"

definition SaslAuthenticateResponse_kKey :: u16 where
  [wire_consts]: "SaslAuthenticateResponse_kKey = response_of key_SaslAuthenticate"

record SaslAuthenticateRequest =
  saq_mechanism :: string
  saq_sasl_opaque_data :: bytes

definition SaslAuthenticateRequest_encode_body ::
    "buffer_writer \<Rightarrow> SaslAuthenticateRequest \<Rightarrow> buffer_writer" where
  "SaslAuthenticateRequest_encode_body w x =
     write_bytes_raw (write_string w (saq_mechanism x)) (saq_sasl_opaque_data x)
       (length (saq_sasl_opaque_data x))"

definition SaslAuthenticateRequest_decode_body :: "SaslAuthenticateRequest read_op" where
  "SaslAuthenticateRequest_decode_body =
     rbind read_string_required (\<lambda>mech. rbind read_bytes (\<lambda>data.
       rreturn \<lparr>saq_mechanism = mech,
                saq_sasl_opaque_data = (case data of None \<Rightarrow> [] | Some d \<Rightarrow> d)\<rparr>))"

record SaslAuthenticateResponse =
  sar_response_code :: u16
  sar_sasl_opaque_data :: "bytes option"

definition SaslAuthenticateResponse_encode_body ::
    "buffer_writer \<Rightarrow> SaslAuthenticateResponse \<Rightarrow> buffer_writer" where
  "SaslAuthenticateResponse_encode_body w x =
     write_bytes (write_u16 w (sar_response_code x)) (sar_sasl_opaque_data x)"

definition SaslAuthenticateResponse_decode_body :: "SaslAuthenticateResponse read_op" where
  "SaslAuthenticateResponse_decode_body =
     rbind read_u16 (\<lambda>rc r.
       if \<not> reader_empty r then
         rbind read_bytes (\<lambda>data.
           rreturn \<lparr>sar_response_code = rc, sar_sasl_opaque_data = data\<rparr>) r
       else rreturn \<lparr>sar_response_code = rc, sar_sasl_opaque_data = None\<rparr> r)"

subsection \<open>Tune\<close>

definition Tune_kKey :: u16 where
  [wire_consts]: "Tune_kKey = key_Tune"

record Tune =
  tune_frame_max :: u32
  tune_heartbeat :: u32

definition Tune_encode_body :: "buffer_writer \<Rightarrow> Tune \<Rightarrow> buffer_writer" where
  "Tune_encode_body w x = write_u32 (write_u32 w (tune_frame_max x)) (tune_heartbeat x)"

definition Tune_decode_body :: "Tune read_op" where
  "Tune_decode_body =
     rbind read_u32 (\<lambda>fm. rbind read_u32 (\<lambda>hb.
       rreturn \<lparr>tune_frame_max = fm, tune_heartbeat = hb\<rparr>))"

subsection \<open>Open\<close>

definition OpenRequest_kKey :: u16 where
  [wire_consts]: "OpenRequest_kKey = key_Open"

definition OpenResponse_kKey :: u16 where
  [wire_consts]: "OpenResponse_kKey = response_of key_Open"

record OpenRequest =
  opq_virtual_host :: string

definition OpenRequest_encode_body :: "buffer_writer \<Rightarrow> OpenRequest \<Rightarrow> buffer_writer" where
  "OpenRequest_encode_body w x = write_string w (opq_virtual_host x)"

definition OpenRequest_decode_body :: "OpenRequest read_op" where
  "OpenRequest_decode_body =
     rbind read_string_required (\<lambda>v. rreturn \<lparr>opq_virtual_host = v\<rparr>)"

record OpenResponse =
  opr_response_code :: u16
  opr_connection_properties :: "key_value list"

definition OpenResponse_encode_body :: "buffer_writer \<Rightarrow> OpenResponse \<Rightarrow> buffer_writer" where
  "OpenResponse_encode_body w x =
     encode_kv_array (write_u16 w (opr_response_code x)) (opr_connection_properties x)"

definition OpenResponse_decode_body :: "OpenResponse read_op" where
  "OpenResponse_decode_body =
     rbind read_u16 (\<lambda>rc r.
       if reader_empty r then
         rreturn \<lparr>opr_response_code = rc, opr_connection_properties = []\<rparr> r
       else
         rbind decode_kv_array (\<lambda>kvs.
           rreturn \<lparr>opr_response_code = rc, opr_connection_properties = kvs\<rparr>) r)"

subsection \<open>Close\<close>

definition CloseRequest_kKey :: u16 where
  [wire_consts]: "CloseRequest_kKey = key_Close"

definition CloseResponse_kKey :: u16 where
  [wire_consts]: "CloseResponse_kKey = response_of key_Close"

record CloseRequest =
  clq_closing_code :: u16
  clq_closing_reason :: string

definition CloseRequest_encode_body :: "buffer_writer \<Rightarrow> CloseRequest \<Rightarrow> buffer_writer" where
  "CloseRequest_encode_body w x =
     write_string (write_u16 w (clq_closing_code x)) (clq_closing_reason x)"

definition CloseRequest_decode_body :: "CloseRequest read_op" where
  "CloseRequest_decode_body =
     rbind read_u16 (\<lambda>rc. rbind read_string_required (\<lambda>reason.
       rreturn \<lparr>clq_closing_code = rc, clq_closing_reason = reason\<rparr>))"

record CloseResponse =
  clr_response_code :: u16

definition CloseResponse_encode_body :: "buffer_writer \<Rightarrow> CloseResponse \<Rightarrow> buffer_writer" where
  "CloseResponse_encode_body w x = write_u16 w (clr_response_code x)"

definition CloseResponse_decode_body :: "CloseResponse read_op" where
  "CloseResponse_decode_body = rbind read_u16 (\<lambda>rc. rreturn \<lparr>clr_response_code = rc\<rparr>)"

subsection \<open>Heartbeat\<close>

definition Heartbeat_kKey :: u16 where
  [wire_consts]: "Heartbeat_kKey = key_Heartbeat"

datatype Heartbeat = Heartbeat

definition Heartbeat_encode_body :: "buffer_writer \<Rightarrow> Heartbeat \<Rightarrow> buffer_writer" where
  "Heartbeat_encode_body w x = w"

definition Heartbeat_decode_body :: "Heartbeat read_op" where
  "Heartbeat_decode_body = rreturn Heartbeat"

section \<open>Lifecycle commands\<close>

subsection \<open>Create\<close>

definition CreateRequest_kKey :: u16 where
  [wire_consts]: "CreateRequest_kKey = key_Create"

definition CreateResponse_kKey :: u16 where
  [wire_consts]: "CreateResponse_kKey = response_of key_Create"

record CreateRequest =
  crq_stream :: string
  crq_arguments :: "key_value list"

text \<open>The loops over the arguments are those of the key/value arrays, written out again.\<close>

definition CreateRequest_encode_body :: "buffer_writer \<Rightarrow> CreateRequest \<Rightarrow> buffer_writer" where
  "CreateRequest_encode_body w x =
     foldl (\<lambda>w a. write_string (write_string w (fst a)) (snd a))
       (write_array_prefix (write_string w (crq_stream x)) (word_of_nat (length (crq_arguments x))))
       (crq_arguments x)"

definition CreateRequest_decode_body :: "CreateRequest read_op" where
  "CreateRequest_decode_body =
     rbind read_string_required (\<lambda>s. rbind read_array_prefix (\<lambda>count.
     rbind (rloop (rbind read_string_required (\<lambda>k. rbind read_string_required (\<lambda>v. rreturn (k, v))))
              (nat (sint count)) []) (\<lambda>args.
       rreturn \<lparr>crq_stream = s, crq_arguments = args\<rparr>)))"

record CreateResponse =
  crr_response_code :: u16

definition CreateResponse_encode_body :: "buffer_writer \<Rightarrow> CreateResponse \<Rightarrow> buffer_writer" where
  "CreateResponse_encode_body w x = write_u16 w (crr_response_code x)"

definition CreateResponse_decode_body :: "CreateResponse read_op" where
  "CreateResponse_decode_body = rbind read_u16 (\<lambda>rc. rreturn \<lparr>crr_response_code = rc\<rparr>)"

subsection \<open>Delete\<close>

definition DeleteRequest_kKey :: u16 where
  [wire_consts]: "DeleteRequest_kKey = key_Delete"

definition DeleteResponse_kKey :: u16 where
  [wire_consts]: "DeleteResponse_kKey = response_of key_Delete"

record DeleteRequest =
  dlq_stream :: string

definition DeleteRequest_encode_body :: "buffer_writer \<Rightarrow> DeleteRequest \<Rightarrow> buffer_writer" where
  "DeleteRequest_encode_body w x = write_string w (dlq_stream x)"

definition DeleteRequest_decode_body :: "DeleteRequest read_op" where
  "DeleteRequest_decode_body = rbind read_string_required (\<lambda>s. rreturn \<lparr>dlq_stream = s\<rparr>)"

record DeleteResponse =
  dlr_response_code :: u16

definition DeleteResponse_encode_body :: "buffer_writer \<Rightarrow> DeleteResponse \<Rightarrow> buffer_writer" where
  "DeleteResponse_encode_body w x = write_u16 w (dlr_response_code x)"

definition DeleteResponse_decode_body :: "DeleteResponse read_op" where
  "DeleteResponse_decode_body = rbind read_u16 (\<lambda>rc. rreturn \<lparr>dlr_response_code = rc\<rparr>)"

subsection \<open>StoreOffset\<close>

definition StoreOffset_kKey :: u16 where
  [wire_consts]: "StoreOffset_kKey = key_StoreOffset"

record StoreOffset =
  so_reference :: string
  so_stream :: string
  so_offset :: u64

definition StoreOffset_encode_body :: "buffer_writer \<Rightarrow> StoreOffset \<Rightarrow> buffer_writer" where
  "StoreOffset_encode_body w x =
     write_u64 (write_string (write_string w (so_reference x)) (so_stream x)) (so_offset x)"

definition StoreOffset_decode_body :: "StoreOffset read_op" where
  "StoreOffset_decode_body =
     rbind read_string_required (\<lambda>ref. rbind read_string_required (\<lambda>str. rbind read_u64 (\<lambda>off.
       rreturn \<lparr>so_reference = ref, so_stream = str, so_offset = off\<rparr>)))"

subsection \<open>QueryOffset\<close>

definition QueryOffsetRequest_kKey :: u16 where
  [wire_consts]: "QueryOffsetRequest_kKey = key_QueryOffset"

definition QueryOffsetResponse_kKey :: u16 where
  [wire_consts]: "QueryOffsetResponse_kKey = response_of key_QueryOffset"

record QueryOffsetRequest =
  qoq_reference :: string
  qoq_stream :: string

definition QueryOffsetRequest_encode_body ::
    "buffer_writer \<Rightarrow> QueryOffsetRequest \<Rightarrow> buffer_writer" where
  "QueryOffsetRequest_encode_body w x = write_string (write_string w (qoq_reference x)) (qoq_stream x)"

definition QueryOffsetRequest_decode_body :: "QueryOffsetRequest read_op" where
  "QueryOffsetRequest_decode_body =
     rbind read_string_required (\<lambda>ref. rbind read_string_required (\<lambda>str.
       rreturn \<lparr>qoq_reference = ref, qoq_stream = str\<rparr>))"

record QueryOffsetResponse =
  qor_response_code :: u16
  qor_offset :: u64

definition QueryOffsetResponse_encode_body ::
    "buffer_writer \<Rightarrow> QueryOffsetResponse \<Rightarrow> buffer_writer" where
  "QueryOffsetResponse_encode_body w x = write_u64 (write_u16 w (qor_response_code x)) (qor_offset x)"

definition QueryOffsetResponse_decode_body :: "QueryOffsetResponse read_op" where
  "QueryOffsetResponse_decode_body =
     rbind read_u16 (\<lambda>rc. rbind read_u64 (\<lambda>off.
       rreturn \<lparr>qor_response_code = rc, qor_offset = off\<rparr>))"

subsection \<open>QueryPublisherSequence\<close>

definition QueryPublisherRequest_kKey :: u16 where
  [wire_consts]: "QueryPublisherRequest_kKey = key_QueryPublisherSequence"

definition QueryPublisherResponse_kKey :: u16 where
  [wire_consts]: "QueryPublisherResponse_kKey = response_of key_QueryPublisherSequence"

record QueryPublisherRequest =
  qpq_publisher_reference :: string
  qpq_stream :: string

definition QueryPublisherRequest_encode_body ::
    "buffer_writer \<Rightarrow> QueryPublisherRequest \<Rightarrow> buffer_writer" where
  "QueryPublisherRequest_encode_body w x =
     write_string (write_string w (qpq_publisher_reference x)) (qpq_stream x)"

definition QueryPublisherRequest_decode_body :: "QueryPublisherRequest read_op" where
  "QueryPublisherRequest_decode_body =
     rbind read_string_required (\<lambda>ref. rbind read_string_required (\<lambda>str.
       rreturn \<lparr>qpq_publisher_reference = ref, qpq_stream = str\<rparr>))"

record QueryPublisherResponse =
  qpr_response_code :: u16
  qpr_sequence :: u64

definition QueryPublisherResponse_encode_body ::
    "buffer_writer \<Rightarrow> QueryPublisherResponse \<Rightarrow> buffer_writer" where
  "QueryPublisherResponse_encode_body w x =
     write_u64 (write_u16 w (qpr_response_code x)) (qpr_sequence x)"

definition QueryPublisherResponse_decode_body :: "QueryPublisherResponse read_op" where
  "QueryPublisherResponse_decode_body =
     rbind read_u16 (\<lambda>rc. rbind read_u64 (\<lambda>seq.
       rreturn \<lparr>qpr_response_code = rc, qpr_sequence = seq\<rparr>))"

section \<open>The bodies are wire types\<close>

subsection \<open>Arrays\<close>

interpretation kv_pair: codec_pair
  write_string read_string_required enc_string valid_string
  write_string read_string_required enc_string valid_string
  by unfold_locales

lemma kv_canonical: "canonical_codec encode_kv decode_kv enc_kv valid_kv"
  using kv_pair.pair.canonical_codec_axioms
  unfolding encode_kv_def [abs_def] decode_kv_def enc_kv_def [abs_def] valid_kv_def [abs_def] .

interpretation kv_array: codec_array encode_kv decode_kv enc_kv valid_kv
  using kv_canonical by (rule codec_array.intro)

interpretation kvs_codec: canonical_codec encode_kv_array decode_kv_array enc_kvs valid_kvs
  using kv_array.arr.canonical_codec_axioms
  unfolding encode_kv_array_def [abs_def] decode_kv_array_def enc_kvs_def [abs_def]
    valid_kvs_def [abs_def] .

interpretation string_array: codec_array write_string read_string_required enc_string valid_string
  by unfold_locales

lemma strings_canonical:
  "canonical_codec (\<lambda>w ss. foldl write_string (write_array_prefix w (word_of_nat (length ss))) ss)
     (rbind read_array_prefix (\<lambda>count. rloop read_string_required (nat (sint count)) []))
     enc_strings valid_strings"
  using string_array.arr.canonical_codec_axioms
  unfolding enc_strings_def [abs_def] valid_strings_def [abs_def] .

text \<open>An array loop written inside a longer chain is the array reader followed by the rest.\<close>

lemma rbind_assoc: "rbind (rbind m f) g = rbind m (\<lambda>x. rbind (f x) g)"
  by (intro ext) (auto simp: rbind_def split: prod.split sum.split)

lemma rbind_rreturn_left [simp]: "rbind (rreturn x) f = f x"
  by (intro ext) (simp add: rbind_def)

subsection \<open>Structs of three or fewer fields\<close>

lemma request_commandI: "canonical_codec wr rd enc valid \<Longrightarrow> \<not> is_response k \<Longrightarrow>
    request_command wr rd enc valid k"
  by (simp add: request_command_def request_command_axioms_def command_def canonical_codec_def)

lemma response_commandI: "canonical_codec wr rd enc valid \<Longrightarrow> is_response k \<Longrightarrow>
    response_command wr rd enc valid k"
  by (simp add: response_command_def response_command_axioms_def command_def canonical_codec_def)

lemma unit_canonical: "(\<And>x y :: 'a. x = y) \<Longrightarrow>
    canonical_codec (\<lambda>w (_ :: 'a). w) (rreturn c) (\<lambda>_. []) (\<lambda>_. True)"
  by unfold_locales (simp_all add: forward_intros del: rreturn_eq, auto)

definition enc_PeerPropertiesRequest :: "PeerPropertiesRequest \<Rightarrow> bytes" where
  "enc_PeerPropertiesRequest x = enc_kvs (ppq_properties x)"

definition valid_PeerPropertiesRequest :: "PeerPropertiesRequest \<Rightarrow> bool" where
  "valid_PeerPropertiesRequest x \<longleftrightarrow> valid_kvs (ppq_properties x)"

definition enc_PeerPropertiesResponse :: "PeerPropertiesResponse \<Rightarrow> bytes" where
  "enc_PeerPropertiesResponse x = be_split 2 (ppr_response_code x) @ enc_kvs (ppr_properties x)"

definition valid_PeerPropertiesResponse :: "PeerPropertiesResponse \<Rightarrow> bool" where
  "valid_PeerPropertiesResponse x \<longleftrightarrow> valid_kvs (ppr_properties x)"

definition enc_SaslHandshakeRequest :: "SaslHandshakeRequest \<Rightarrow> bytes" where
  "enc_SaslHandshakeRequest x = []"

definition valid_SaslHandshakeRequest :: "SaslHandshakeRequest \<Rightarrow> bool" where
  "valid_SaslHandshakeRequest x \<longleftrightarrow> True"

definition enc_SaslHandshakeResponse :: "SaslHandshakeResponse \<Rightarrow> bytes" where
  "enc_SaslHandshakeResponse x = be_split 2 (shr_response_code x) @ enc_strings (shr_mechanisms x)"

definition valid_SaslHandshakeResponse :: "SaslHandshakeResponse \<Rightarrow> bool" where
  "valid_SaslHandshakeResponse x \<longleftrightarrow> valid_strings (shr_mechanisms x)"

definition enc_Tune :: "Tune \<Rightarrow> bytes" where
  "enc_Tune x = be_split 4 (tune_frame_max x) @ be_split 4 (tune_heartbeat x)"

definition valid_Tune :: "Tune \<Rightarrow> bool" where
  "valid_Tune x \<longleftrightarrow> True"

definition enc_OpenRequest :: "OpenRequest \<Rightarrow> bytes" where
  "enc_OpenRequest x = enc_string (opq_virtual_host x)"

definition valid_OpenRequest :: "OpenRequest \<Rightarrow> bool" where
  "valid_OpenRequest x \<longleftrightarrow> valid_string (opq_virtual_host x)"

definition enc_CloseRequest :: "CloseRequest \<Rightarrow> bytes" where
  "enc_CloseRequest x = be_split 2 (clq_closing_code x) @ enc_string (clq_closing_reason x)"

definition valid_CloseRequest :: "CloseRequest \<Rightarrow> bool" where
  "valid_CloseRequest x \<longleftrightarrow> valid_string (clq_closing_reason x)"

definition enc_CloseResponse :: "CloseResponse \<Rightarrow> bytes" where
  "enc_CloseResponse x = be_split 2 (clr_response_code x)"

definition valid_CloseResponse :: "CloseResponse \<Rightarrow> bool" where
  "valid_CloseResponse x \<longleftrightarrow> True"

definition enc_Heartbeat :: "Heartbeat \<Rightarrow> bytes" where
  "enc_Heartbeat x = []"

definition valid_Heartbeat :: "Heartbeat \<Rightarrow> bool" where
  "valid_Heartbeat x \<longleftrightarrow> True"

definition enc_CreateRequest :: "CreateRequest \<Rightarrow> bytes" where
  "enc_CreateRequest x = enc_string (crq_stream x) @ enc_kvs (crq_arguments x)"

definition valid_CreateRequest :: "CreateRequest \<Rightarrow> bool" where
  "valid_CreateRequest x \<longleftrightarrow> valid_string (crq_stream x) \<and> valid_kvs (crq_arguments x)"

definition enc_CreateResponse :: "CreateResponse \<Rightarrow> bytes" where
  "enc_CreateResponse x = be_split 2 (crr_response_code x)"

definition valid_CreateResponse :: "CreateResponse \<Rightarrow> bool" where
  "valid_CreateResponse x \<longleftrightarrow> True"

definition enc_DeleteRequest :: "DeleteRequest \<Rightarrow> bytes" where
  "enc_DeleteRequest x = enc_string (dlq_stream x)"

definition valid_DeleteRequest :: "DeleteRequest \<Rightarrow> bool" where
  "valid_DeleteRequest x \<longleftrightarrow> valid_string (dlq_stream x)"

definition enc_DeleteResponse :: "DeleteResponse \<Rightarrow> bytes" where
  "enc_DeleteResponse x = be_split 2 (dlr_response_code x)"

definition valid_DeleteResponse :: "DeleteResponse \<Rightarrow> bool" where
  "valid_DeleteResponse x \<longleftrightarrow> True"

definition enc_StoreOffset :: "StoreOffset \<Rightarrow> bytes" where
  "enc_StoreOffset x = enc_string (so_reference x) @ enc_string (so_stream x) @ be_split 8 (so_offset x)"

definition valid_StoreOffset :: "StoreOffset \<Rightarrow> bool" where
  "valid_StoreOffset x \<longleftrightarrow> valid_string (so_reference x) \<and> valid_string (so_stream x)"

definition enc_QueryOffsetRequest :: "QueryOffsetRequest \<Rightarrow> bytes" where
  "enc_QueryOffsetRequest x = enc_string (qoq_reference x) @ enc_string (qoq_stream x)"

definition valid_QueryOffsetRequest :: "QueryOffsetRequest \<Rightarrow> bool" where
  "valid_QueryOffsetRequest x \<longleftrightarrow> valid_string (qoq_reference x) \<and> valid_string (qoq_stream x)"

definition enc_QueryOffsetResponse :: "QueryOffsetResponse \<Rightarrow> bytes" where
  "enc_QueryOffsetResponse x = be_split 2 (qor_response_code x) @ be_split 8 (qor_offset x)"

definition valid_QueryOffsetResponse :: "QueryOffsetResponse \<Rightarrow> bool" where
  "valid_QueryOffsetResponse x \<longleftrightarrow> True"

definition enc_QueryPublisherRequest :: "QueryPublisherRequest \<Rightarrow> bytes" where
  "enc_QueryPublisherRequest x = enc_string (qpq_publisher_reference x) @ enc_string (qpq_stream x)"

definition valid_QueryPublisherRequest :: "QueryPublisherRequest \<Rightarrow> bool" where
  "valid_QueryPublisherRequest x \<longleftrightarrow> valid_string (qpq_publisher_reference x) \<and> valid_string (qpq_stream x)"

definition enc_QueryPublisherResponse :: "QueryPublisherResponse \<Rightarrow> bytes" where
  "enc_QueryPublisherResponse x = be_split 2 (qpr_response_code x) @ be_split 8 (qpr_sequence x)"

definition valid_QueryPublisherResponse :: "QueryPublisherResponse \<Rightarrow> bool" where
  "valid_QueryPublisherResponse x \<longleftrightarrow> True"

lemma ppq_canonical:
  "canonical_codec PeerPropertiesRequest_encode_body PeerPropertiesRequest_decode_body enc_PeerPropertiesRequest valid_PeerPropertiesRequest"
  using canonical_seq1 [OF kvs_codec.canonical_codec_axioms,
      where mk = "\<lambda>a. \<lparr>ppq_properties = a\<rparr>" and fa = ppq_properties]
  unfolding PeerPropertiesRequest_encode_body_def [abs_def] PeerPropertiesRequest_decode_body_def
    enc_PeerPropertiesRequest_def [abs_def] valid_PeerPropertiesRequest_def [abs_def]
  by (simp del: rreturn_eq)

interpretation ppq: request_command PeerPropertiesRequest_encode_body PeerPropertiesRequest_decode_body
  enc_PeerPropertiesRequest valid_PeerPropertiesRequest PeerPropertiesRequest_kKey kVersion
  by (rule request_commandI [OF ppq_canonical]) (simp add: PeerPropertiesRequest_kKey_def)

lemma ppr_canonical:
  "canonical_codec PeerPropertiesResponse_encode_body PeerPropertiesResponse_decode_body enc_PeerPropertiesResponse valid_PeerPropertiesResponse"
  using canonical_seq2 [OF u16_codec.canonical_codec_axioms kvs_codec.canonical_codec_axioms,
      where mk = "\<lambda>a b. \<lparr>ppr_response_code = a, ppr_properties = b\<rparr>" and fa = ppr_response_code and fb = ppr_properties]
  unfolding PeerPropertiesResponse_encode_body_def [abs_def] PeerPropertiesResponse_decode_body_def
    enc_PeerPropertiesResponse_def [abs_def] valid_PeerPropertiesResponse_def [abs_def]
  by (simp del: rreturn_eq)

interpretation ppr: response_command PeerPropertiesResponse_encode_body PeerPropertiesResponse_decode_body
  enc_PeerPropertiesResponse valid_PeerPropertiesResponse PeerPropertiesResponse_kKey kVersion
  by (rule response_commandI [OF ppr_canonical]) (simp add: PeerPropertiesResponse_kKey_def)

lemma shq_canonical:
  "canonical_codec SaslHandshakeRequest_encode_body SaslHandshakeRequest_decode_body enc_SaslHandshakeRequest valid_SaslHandshakeRequest"
  unfolding SaslHandshakeRequest_encode_body_def [abs_def] SaslHandshakeRequest_decode_body_def
    enc_SaslHandshakeRequest_def [abs_def] valid_SaslHandshakeRequest_def [abs_def]
  by (rule unit_canonical) (metis SaslHandshakeRequest.exhaust)

interpretation shq: request_command SaslHandshakeRequest_encode_body SaslHandshakeRequest_decode_body
  enc_SaslHandshakeRequest valid_SaslHandshakeRequest SaslHandshakeRequest_kKey kVersion
  by (rule request_commandI [OF shq_canonical]) (simp add: SaslHandshakeRequest_kKey_def)

lemma shr_canonical:
  "canonical_codec SaslHandshakeResponse_encode_body SaslHandshakeResponse_decode_body enc_SaslHandshakeResponse valid_SaslHandshakeResponse"
  using canonical_seq2 [OF u16_codec.canonical_codec_axioms strings_canonical,
      where mk = "\<lambda>a b. \<lparr>shr_response_code = a, shr_mechanisms = b\<rparr>" and fa = shr_response_code and fb = shr_mechanisms]
  unfolding SaslHandshakeResponse_encode_body_def [abs_def] SaslHandshakeResponse_decode_body_def
    enc_SaslHandshakeResponse_def [abs_def] valid_SaslHandshakeResponse_def [abs_def] rbind_assoc
  by (simp del: rreturn_eq)

interpretation shr: response_command SaslHandshakeResponse_encode_body SaslHandshakeResponse_decode_body
  enc_SaslHandshakeResponse valid_SaslHandshakeResponse SaslHandshakeResponse_kKey kVersion
  by (rule response_commandI [OF shr_canonical]) (simp add: SaslHandshakeResponse_kKey_def)

lemma tune_canonical:
  "canonical_codec Tune_encode_body Tune_decode_body enc_Tune valid_Tune"
  using canonical_seq2 [OF u32_codec.canonical_codec_axioms u32_codec.canonical_codec_axioms,
      where mk = "\<lambda>a b. \<lparr>tune_frame_max = a, tune_heartbeat = b\<rparr>" and fa = tune_frame_max and fb = tune_heartbeat]
  unfolding Tune_encode_body_def [abs_def] Tune_decode_body_def
    enc_Tune_def [abs_def] valid_Tune_def [abs_def]
  by (simp del: rreturn_eq)

interpretation tune: request_command Tune_encode_body Tune_decode_body
  enc_Tune valid_Tune Tune_kKey kVersion
  by (rule request_commandI [OF tune_canonical]) (simp add: Tune_kKey_def)

lemma opq_canonical:
  "canonical_codec OpenRequest_encode_body OpenRequest_decode_body enc_OpenRequest valid_OpenRequest"
  using canonical_seq1 [OF string_codec.canonical_codec_axioms,
      where mk = "\<lambda>a. \<lparr>opq_virtual_host = a\<rparr>" and fa = opq_virtual_host]
  unfolding OpenRequest_encode_body_def [abs_def] OpenRequest_decode_body_def
    enc_OpenRequest_def [abs_def] valid_OpenRequest_def [abs_def]
  by (simp del: rreturn_eq)

interpretation opq: request_command OpenRequest_encode_body OpenRequest_decode_body
  enc_OpenRequest valid_OpenRequest OpenRequest_kKey kVersion
  by (rule request_commandI [OF opq_canonical]) (simp add: OpenRequest_kKey_def)

lemma clq_canonical:
  "canonical_codec CloseRequest_encode_body CloseRequest_decode_body enc_CloseRequest valid_CloseRequest"
  using canonical_seq2 [OF u16_codec.canonical_codec_axioms string_codec.canonical_codec_axioms,
      where mk = "\<lambda>a b. \<lparr>clq_closing_code = a, clq_closing_reason = b\<rparr>" and fa = clq_closing_code and fb = clq_closing_reason]
  unfolding CloseRequest_encode_body_def [abs_def] CloseRequest_decode_body_def
    enc_CloseRequest_def [abs_def] valid_CloseRequest_def [abs_def]
  by (simp del: rreturn_eq)

interpretation clq: request_command CloseRequest_encode_body CloseRequest_decode_body
  enc_CloseRequest valid_CloseRequest CloseRequest_kKey kVersion
  by (rule request_commandI [OF clq_canonical]) (simp add: CloseRequest_kKey_def)

lemma clr_canonical:
  "canonical_codec CloseResponse_encode_body CloseResponse_decode_body enc_CloseResponse valid_CloseResponse"
  using canonical_seq1 [OF u16_codec.canonical_codec_axioms,
      where mk = "\<lambda>a. \<lparr>clr_response_code = a\<rparr>" and fa = clr_response_code]
  unfolding CloseResponse_encode_body_def [abs_def] CloseResponse_decode_body_def
    enc_CloseResponse_def [abs_def] valid_CloseResponse_def [abs_def]
  by (simp del: rreturn_eq)

interpretation clr: response_command CloseResponse_encode_body CloseResponse_decode_body
  enc_CloseResponse valid_CloseResponse CloseResponse_kKey kVersion
  by (rule response_commandI [OF clr_canonical]) (simp add: CloseResponse_kKey_def)

lemma hb_canonical:
  "canonical_codec Heartbeat_encode_body Heartbeat_decode_body enc_Heartbeat valid_Heartbeat"
  unfolding Heartbeat_encode_body_def [abs_def] Heartbeat_decode_body_def
    enc_Heartbeat_def [abs_def] valid_Heartbeat_def [abs_def]
  by (rule unit_canonical) (metis Heartbeat.exhaust)

interpretation hb: request_command Heartbeat_encode_body Heartbeat_decode_body
  enc_Heartbeat valid_Heartbeat Heartbeat_kKey kVersion
  by (rule request_commandI [OF hb_canonical]) (simp add: Heartbeat_kKey_def)

lemma crq_canonical:
  "canonical_codec CreateRequest_encode_body CreateRequest_decode_body enc_CreateRequest valid_CreateRequest"
  using canonical_seq2 [OF string_codec.canonical_codec_axioms kvs_codec.canonical_codec_axioms,
      where mk = "\<lambda>a b. \<lparr>crq_stream = a, crq_arguments = b\<rparr>" and fa = crq_stream and fb = crq_arguments]
  unfolding CreateRequest_encode_body_def [abs_def] CreateRequest_decode_body_def
    enc_CreateRequest_def [abs_def] valid_CreateRequest_def [abs_def] encode_kv_array_def encode_kv_def [abs_def]
    decode_kv_array_def decode_kv_def rbind_assoc
  by (simp del: rreturn_eq)

interpretation crq: request_command CreateRequest_encode_body CreateRequest_decode_body
  enc_CreateRequest valid_CreateRequest CreateRequest_kKey kVersion
  by (rule request_commandI [OF crq_canonical]) (simp add: CreateRequest_kKey_def)

lemma crr_canonical:
  "canonical_codec CreateResponse_encode_body CreateResponse_decode_body enc_CreateResponse valid_CreateResponse"
  using canonical_seq1 [OF u16_codec.canonical_codec_axioms,
      where mk = "\<lambda>a. \<lparr>crr_response_code = a\<rparr>" and fa = crr_response_code]
  unfolding CreateResponse_encode_body_def [abs_def] CreateResponse_decode_body_def
    enc_CreateResponse_def [abs_def] valid_CreateResponse_def [abs_def]
  by (simp del: rreturn_eq)

interpretation crr: response_command CreateResponse_encode_body CreateResponse_decode_body
  enc_CreateResponse valid_CreateResponse CreateResponse_kKey kVersion
  by (rule response_commandI [OF crr_canonical]) (simp add: CreateResponse_kKey_def)

lemma dlq_canonical:
  "canonical_codec DeleteRequest_encode_body DeleteRequest_decode_body enc_DeleteRequest valid_DeleteRequest"
  using canonical_seq1 [OF string_codec.canonical_codec_axioms,
      where mk = "\<lambda>a. \<lparr>dlq_stream = a\<rparr>" and fa = dlq_stream]
  unfolding DeleteRequest_encode_body_def [abs_def] DeleteRequest_decode_body_def
    enc_DeleteRequest_def [abs_def] valid_DeleteRequest_def [abs_def]
  by (simp del: rreturn_eq)

interpretation dlq: request_command DeleteRequest_encode_body DeleteRequest_decode_body
  enc_DeleteRequest valid_DeleteRequest DeleteRequest_kKey kVersion
  by (rule request_commandI [OF dlq_canonical]) (simp add: DeleteRequest_kKey_def)

lemma dlr_canonical:
  "canonical_codec DeleteResponse_encode_body DeleteResponse_decode_body enc_DeleteResponse valid_DeleteResponse"
  using canonical_seq1 [OF u16_codec.canonical_codec_axioms,
      where mk = "\<lambda>a. \<lparr>dlr_response_code = a\<rparr>" and fa = dlr_response_code]
  unfolding DeleteResponse_encode_body_def [abs_def] DeleteResponse_decode_body_def
    enc_DeleteResponse_def [abs_def] valid_DeleteResponse_def [abs_def]
  by (simp del: rreturn_eq)

interpretation dlr: response_command DeleteResponse_encode_body DeleteResponse_decode_body
  enc_DeleteResponse valid_DeleteResponse DeleteResponse_kKey kVersion
  by (rule response_commandI [OF dlr_canonical]) (simp add: DeleteResponse_kKey_def)

lemma so_canonical:
  "canonical_codec StoreOffset_encode_body StoreOffset_decode_body enc_StoreOffset valid_StoreOffset"
  using canonical_seq3 [OF string_codec.canonical_codec_axioms string_codec.canonical_codec_axioms u64_codec.canonical_codec_axioms,
      where mk = "\<lambda>a b c. \<lparr>so_reference = a, so_stream = b, so_offset = c\<rparr>" and fa = so_reference and fb = so_stream and fc = so_offset]
  unfolding StoreOffset_encode_body_def [abs_def] StoreOffset_decode_body_def
    enc_StoreOffset_def [abs_def] valid_StoreOffset_def [abs_def]
  by (simp del: rreturn_eq)

interpretation so: request_command StoreOffset_encode_body StoreOffset_decode_body
  enc_StoreOffset valid_StoreOffset StoreOffset_kKey kVersion
  by (rule request_commandI [OF so_canonical]) (simp add: StoreOffset_kKey_def)

lemma qoq_canonical:
  "canonical_codec QueryOffsetRequest_encode_body QueryOffsetRequest_decode_body enc_QueryOffsetRequest valid_QueryOffsetRequest"
  using canonical_seq2 [OF string_codec.canonical_codec_axioms string_codec.canonical_codec_axioms,
      where mk = "\<lambda>a b. \<lparr>qoq_reference = a, qoq_stream = b\<rparr>" and fa = qoq_reference and fb = qoq_stream]
  unfolding QueryOffsetRequest_encode_body_def [abs_def] QueryOffsetRequest_decode_body_def
    enc_QueryOffsetRequest_def [abs_def] valid_QueryOffsetRequest_def [abs_def]
  by (simp del: rreturn_eq)

interpretation qoq: request_command QueryOffsetRequest_encode_body QueryOffsetRequest_decode_body
  enc_QueryOffsetRequest valid_QueryOffsetRequest QueryOffsetRequest_kKey kVersion
  by (rule request_commandI [OF qoq_canonical]) (simp add: QueryOffsetRequest_kKey_def)

lemma qor_canonical:
  "canonical_codec QueryOffsetResponse_encode_body QueryOffsetResponse_decode_body enc_QueryOffsetResponse valid_QueryOffsetResponse"
  using canonical_seq2 [OF u16_codec.canonical_codec_axioms u64_codec.canonical_codec_axioms,
      where mk = "\<lambda>a b. \<lparr>qor_response_code = a, qor_offset = b\<rparr>" and fa = qor_response_code and fb = qor_offset]
  unfolding QueryOffsetResponse_encode_body_def [abs_def] QueryOffsetResponse_decode_body_def
    enc_QueryOffsetResponse_def [abs_def] valid_QueryOffsetResponse_def [abs_def]
  by (simp del: rreturn_eq)

interpretation qor: response_command QueryOffsetResponse_encode_body QueryOffsetResponse_decode_body
  enc_QueryOffsetResponse valid_QueryOffsetResponse QueryOffsetResponse_kKey kVersion
  by (rule response_commandI [OF qor_canonical]) (simp add: QueryOffsetResponse_kKey_def)

lemma qpq_canonical:
  "canonical_codec QueryPublisherRequest_encode_body QueryPublisherRequest_decode_body enc_QueryPublisherRequest valid_QueryPublisherRequest"
  using canonical_seq2 [OF string_codec.canonical_codec_axioms string_codec.canonical_codec_axioms,
      where mk = "\<lambda>a b. \<lparr>qpq_publisher_reference = a, qpq_stream = b\<rparr>" and fa = qpq_publisher_reference and fb = qpq_stream]
  unfolding QueryPublisherRequest_encode_body_def [abs_def] QueryPublisherRequest_decode_body_def
    enc_QueryPublisherRequest_def [abs_def] valid_QueryPublisherRequest_def [abs_def]
  by (simp del: rreturn_eq)

interpretation qpq: request_command QueryPublisherRequest_encode_body QueryPublisherRequest_decode_body
  enc_QueryPublisherRequest valid_QueryPublisherRequest QueryPublisherRequest_kKey kVersion
  by (rule request_commandI [OF qpq_canonical]) (simp add: QueryPublisherRequest_kKey_def)

lemma qpr_canonical:
  "canonical_codec QueryPublisherResponse_encode_body QueryPublisherResponse_decode_body enc_QueryPublisherResponse valid_QueryPublisherResponse"
  using canonical_seq2 [OF u16_codec.canonical_codec_axioms u64_codec.canonical_codec_axioms,
      where mk = "\<lambda>a b. \<lparr>qpr_response_code = a, qpr_sequence = b\<rparr>" and fa = qpr_response_code and fb = qpr_sequence]
  unfolding QueryPublisherResponse_encode_body_def [abs_def] QueryPublisherResponse_decode_body_def
    enc_QueryPublisherResponse_def [abs_def] valid_QueryPublisherResponse_def [abs_def]
  by (simp del: rreturn_eq)

interpretation qpr: response_command QueryPublisherResponse_encode_body QueryPublisherResponse_decode_body
  enc_QueryPublisherResponse valid_QueryPublisherResponse QueryPublisherResponse_kKey kVersion
  by (rule response_commandI [OF qpr_canonical]) (simp add: QueryPublisherResponse_kKey_def)

subsection \<open>The structs with a lenient decoder\<close>

definition enc_SaslAuthenticateRequest :: "SaslAuthenticateRequest \<Rightarrow> bytes" where
  "enc_SaslAuthenticateRequest x =
     enc_string (saq_mechanism x) @ enc_bytes (Some (saq_sasl_opaque_data x))"

definition valid_SaslAuthenticateRequest :: "SaslAuthenticateRequest \<Rightarrow> bool" where
  "valid_SaslAuthenticateRequest x \<longleftrightarrow>
     valid_string (saq_mechanism x) \<and> length (saq_sasl_opaque_data x) < 2 ^ 31"

definition enc_SaslAuthenticateResponse :: "SaslAuthenticateResponse \<Rightarrow> bytes" where
  "enc_SaslAuthenticateResponse x =
     be_split 2 (sar_response_code x) @ enc_bytes (sar_sasl_opaque_data x)"

definition valid_SaslAuthenticateResponse :: "SaslAuthenticateResponse \<Rightarrow> bool" where
  "valid_SaslAuthenticateResponse x \<longleftrightarrow> valid_bytes (sar_sasl_opaque_data x)"

definition enc_OpenResponse :: "OpenResponse \<Rightarrow> bytes" where
  "enc_OpenResponse x = be_split 2 (opr_response_code x) @ enc_kvs (opr_connection_properties x)"

definition valid_OpenResponse :: "OpenResponse \<Rightarrow> bool" where
  "valid_OpenResponse x \<longleftrightarrow> valid_kvs (opr_connection_properties x)"

lemma reads_forward_branch [forward_intros]:
  "reads_forward m \<Longrightarrow> reads_forward m' \<Longrightarrow> reads_forward (\<lambda>r. if b r then m r else m' r)"
  by (simp add: reads_forward_def)

lemma fails_decoding_branch [forward_intros]:
  "fails_decoding m \<Longrightarrow> fails_decoding m' \<Longrightarrow> fails_decoding (\<lambda>r. if b r then m r else m' r)"
  unfolding fails_decoding_def by simp

lemma enc_bytes_not_Nil [simp]: "enc_bytes b \<noteq> []"
  by (simp add: enc_bytes_def eval_nat_numeral split: option.split)

lemma enc_kvs_not_Nil [simp]: "enc_kvs kvs \<noteq> []"
  by (simp add: enc_kvs_def eval_nat_numeral)

interpretation saq: request_command SaslAuthenticateRequest_encode_body
  SaslAuthenticateRequest_decode_body enc_SaslAuthenticateRequest valid_SaslAuthenticateRequest
  SaslAuthenticateRequest_kKey kVersion
proof (unfold_locales, goal_cases)
  case (1 w x)
  show ?case
    by (simp add: SaslAuthenticateRequest_encode_body_def enc_SaslAuthenticateRequest_def wire_write)
next
  case 2
  show ?case unfolding SaslAuthenticateRequest_decode_body_def by (intro forward_intros)
next
  case 3
  show ?case unfolding SaslAuthenticateRequest_decode_body_def by (intro forward_intros)
next
  case (4 x pre s)
  then show ?case
    by (simp add: SaslAuthenticateRequest_decode_body_def enc_SaslAuthenticateRequest_def
        valid_SaslAuthenticateRequest_def valid_bytes_def wire_read)
next
  case 5
  show ?case by (simp add: SaslAuthenticateRequest_kKey_def)
qed

interpretation sar: response_command SaslAuthenticateResponse_encode_body
  SaslAuthenticateResponse_decode_body enc_SaslAuthenticateResponse valid_SaslAuthenticateResponse
  SaslAuthenticateResponse_kKey kVersion
proof (unfold_locales, goal_cases)
  case (1 w x)
  show ?case
    by (simp add: SaslAuthenticateResponse_encode_body_def enc_SaslAuthenticateResponse_def wire_write)
next
  case 2
  show ?case unfolding SaslAuthenticateResponse_decode_body_def by (intro forward_intros)
next
  case 3
  show ?case unfolding SaslAuthenticateResponse_decode_body_def by (intro forward_intros)
next
  case (4 x pre s)
  then show ?case
    by (simp add: SaslAuthenticateResponse_decode_body_def enc_SaslAuthenticateResponse_def
        valid_SaslAuthenticateResponse_def wire_read)
next
  case 5
  show ?case by (simp add: SaslAuthenticateResponse_kKey_def)
qed

interpretation opr: response_command OpenResponse_encode_body OpenResponse_decode_body
  enc_OpenResponse valid_OpenResponse OpenResponse_kKey kVersion
proof (unfold_locales, goal_cases)
  case (1 w x)
  show ?case
    by (simp add: OpenResponse_encode_body_def enc_OpenResponse_def wire_write kvs_codec.wr_appends)
next
  case 2
  show ?case unfolding OpenResponse_decode_body_def
    by (intro forward_intros kvs_codec.rd_forward)
next
  case 3
  show ?case unfolding OpenResponse_decode_body_def
    by (intro forward_intros kvs_codec.rd_fails)
next
  case (4 x pre s)
  then show ?case
    by (simp add: OpenResponse_decode_body_def enc_OpenResponse_def valid_OpenResponse_def wire_read
        kvs_codec.rd_enc)
next
  case 5
  show ?case by (simp add: OpenResponse_kKey_def)
qed

text \<open>What the last field may look like on the wire without being there.\<close>

lemma SaslAuthenticateResponse_short:
  "SaslAuthenticateResponse_decode_body (reader_of (be_split 2 rc)) =
     (Ok \<lparr>sar_response_code = rc, sar_sasl_opaque_data = None\<rparr>, reader_at (be_split 2 rc) [])"
  using int_rd_enc(2) [of "[]" rc "[]"]
  by (simp add: SaslAuthenticateResponse_decode_body_def reader_of_at)

lemma OpenResponse_short:
  "OpenResponse_decode_body (reader_of (be_split 2 rc)) =
     (Ok \<lparr>opr_response_code = rc, opr_connection_properties = []\<rparr>, reader_at (be_split 2 rc) [])"
  using int_rd_enc(2) [of "[]" rc "[]"]
  by (simp add: OpenResponse_decode_body_def reader_of_at)

lemmas command_bodies =
  ppq.body_eq shq.body_eq saq.body_eq tune.body_eq opq.body_eq clq.body_eq clr.body_eq hb.body_eq
  crq.body_eq dlq.body_eq so.body_eq qoq.body_eq qpq.body_eq

end
