(* ===== verification/Wire_Properties.thy ===== *)
theory Wire_Properties
  imports Commands
begin

text \<open>
  The properties of the wire format: UTF-8 validation, the primitive codecs, frames and command
  bodies. Each rests on the interpretations of the contracts of \<open>Buffer\<close>, \<open>Codec\<close> and \<open>Frame\<close>.
  \<open>server_reads\<close> and \<open>client_reads\<close> are the two ends of a connection: what the other side finds in
  the bytes of a frame.
\<close>

section \<open>The two ends\<close>

text \<open>A request keeps its correlation id in the body, a response has it in the frame header.\<close>

definition server_reads :: "'a read_op \<Rightarrow> bytes \<Rightarrow> (u16 \<times> u16 \<times> u32 \<times> 'a) option" where
  "server_reads dec bs =
     (case fst (read_frame_auto (reader_of bs)) of
        Inl _ \<Rightarrow> None
      | Inr f \<Rightarrow>
          (case fst (rbind read_u32 (\<lambda>cid. rbind dec (\<lambda>x. rreturn (cid, x))) (reader_of (fr_body f))) of
             Inl _ \<Rightarrow> None
           | Inr cx \<Rightarrow> Some (fr_key f, fr_version f, fst cx, snd cx)))"

definition oneway_reads :: "'a read_op \<Rightarrow> bytes \<Rightarrow> (u16 \<times> u16 \<times> 'a) option" where
  "oneway_reads dec bs =
     (case fst (read_frame_auto (reader_of bs)) of
        Inl _ \<Rightarrow> None
      | Inr f \<Rightarrow>
          (case fst (dec (reader_of (fr_body f))) of
             Inl _ \<Rightarrow> None
           | Inr x \<Rightarrow> if fr_cid f = None then Some (fr_key f, fr_version f, x) else None))"

definition client_reads :: "'a read_op \<Rightarrow> bytes \<Rightarrow> (u16 \<times> u16 \<times> u32 \<times> 'a) option" where
  "client_reads dec bs =
     (case fst (read_frame_auto (reader_of bs)) of
        Inl _ \<Rightarrow> None
      | Inr f \<Rightarrow>
          (case (fr_cid f, fst (dec (reader_of (fr_body f)))) of
             (Some cid, Inr x) \<Rightarrow> Some (fr_key f, fr_version f, cid, x)
           | _ \<Rightarrow> None))"

text \<open>The reader after \<open>m\<close>: the same buffer, a cursor that is inside it and did not move back.\<close>

definition in_bounds :: "'a read_op \<Rightarrow> buffer_reader \<Rightarrow> bool" where
  "in_bounds m r \<longleftrightarrow> reader_ok (snd (m r)) \<and> rd_data (snd (m r)) = rd_data r \<and>
     rd_pos r \<le> rd_pos (snd (m r))"

context request_command
begin

lemma server_reads_request:
  assumes "valid x" and "8 + length (enc x) < 2 ^ 32"
  shows "server_reads rd (encode_request_frame kKey kVersion cid (bw_data (wr empty_writer x))) =
    Some (kKey, kVersion, cid, x)"
  using request_frame_roundtrip [OF assms(2), of "[]" cid "[]"] request_body_decodes [OF assms(1), of cid]
  by (simp add: server_reads_def reader_of_at del: rreturn_eq)

lemma oneway_reads_frame:
  assumes "valid x" and "4 + length (enc x) < 2 ^ 32"
  shows "oneway_reads rd (encode_oneway_frame kKey kVersion (bw_data (wr empty_writer x))) =
    Some (kKey, kVersion, x)"
  using oneway_frame_roundtrip [OF assms(2), of "[]" "[]"] body_decodes [OF assms(1)]
  by (simp add: oneway_reads_def reader_of_at)

end

context response_command
begin

lemma client_reads_response:
  assumes "valid x" and "8 + length (enc x) < 2 ^ 32"
  shows "client_reads rd (encode_request_frame kKey kVersion cid (bw_data (wr empty_writer x))) =
    Some (kKey, kVersion, cid, x)"
  using response_frame_roundtrip [OF assms(2), of "[]" cid "[]"] body_decodes [OF assms(1)]
  by (simp add: client_reads_def reader_of_at)

end

section \<open>Text and primitives\<close>

text \<open>
  C12. \<open>is_valid_utf8\<close> accepts a byte string exactly when it is the UTF-8 encoding of a sequence of
  Unicode scalar values: overlong forms, surrogates, values above U+10FFFF, stray and missing
  continuation bytes are all refused, and nothing else is.
\<close>

theorem utf8_exact:
  "is_valid_utf8 bs (length bs) \<longleftrightarrow> (\<exists>cps. list_all is_scalar cps \<and> bs = utf8_text cps)"
  using is_valid_utf8_iff by (simp add: list_all_iff)

text \<open>
  Every integer width is read back from the bytes it was written as, and the reader has then
  consumed exactly those bytes.
\<close>

lemma integer_roundtrip:
  "read_u8 (reader_of (bw_data (write_u8 empty_writer a))) = (Ok a, reader_at (be_split 1 a) []) \<and>
   read_i8 (reader_of (bw_data (write_i8 empty_writer a))) = (Ok a, reader_at (be_split 1 a) []) \<and>
   read_u16 (reader_of (bw_data (write_u16 empty_writer b))) = (Ok b, reader_at (be_split 2 b) []) \<and>
   read_i16 (reader_of (bw_data (write_i16 empty_writer b))) = (Ok b, reader_at (be_split 2 b) []) \<and>
   read_u32 (reader_of (bw_data (write_u32 empty_writer c))) = (Ok c, reader_at (be_split 4 c) []) \<and>
   read_i32 (reader_of (bw_data (write_i32 empty_writer c))) = (Ok c, reader_at (be_split 4 c) []) \<and>
   read_u64 (reader_of (bw_data (write_u64 empty_writer d))) = (Ok d, reader_at (be_split 8 d) []) \<and>
   read_i64 (reader_of (bw_data (write_i64 empty_writer d))) = (Ok d, reader_at (be_split 8 d) [])"
  by (intro conjI u8_codec.roundtrip i8_codec.roundtrip u16_codec.roundtrip i16_codec.roundtrip
      u32_codec.roundtrip i32_codec.roundtrip u64_codec.roundtrip i64_codec.roundtrip TrueI)

text \<open>
  C30. The readers of the variable-length types succeed exactly on what the writers produce.
  \<open>read_string_required\<close> accepts the bytes of a string of at most 32767 bytes of valid UTF-8,
  \<open>read_bytes\<close> those of a null value or of at most \<open>2\<^sup>3\<^sup>1 - 1\<close> bytes, \<open>decode_kv_array\<close> those of a list of
  string pairs: the count is the number of pairs that follow, a negative count and a null or malformed
  string are refused. Each returns that value and consumes exactly its bytes.
\<close>

theorem values_exact:
  "(read_string_required (reader_at pre suf) = (Ok s, r') \<longleftrightarrow>
      valid_string s \<and>
      (\<exists>t. suf = bw_data (write_string empty_writer s) @ t \<and>
           r' = reader_at (pre @ bw_data (write_string empty_writer s)) t)) \<and>
   (read_bytes (reader_at pre suf) = (Ok b, r') \<longleftrightarrow>
      valid_bytes b \<and>
      (\<exists>t. suf = bw_data (write_bytes empty_writer b) @ t \<and>
           r' = reader_at (pre @ bw_data (write_bytes empty_writer b)) t)) \<and>
   (decode_kv_array (reader_at pre suf) = (Ok kvs, r') \<longleftrightarrow>
      valid_kvs kvs \<and>
      (\<exists>t. suf = bw_data (encode_kv_array empty_writer kvs) @ t \<and>
           r' = reader_at (pre @ bw_data (encode_kv_array empty_writer kvs)) t))"
  using string_codec.rd_iff [of pre suf s r'] bytes_codec.rd_iff [of pre suf b r'] kvs_codec.rd_iff [of pre suf kvs r']
  by (simp add: wire_write kvs_codec.wr_appends)

text \<open>
  C40. A string longer than an \<open>int16\<close> length can say is not refused: \<open>write_string\<close> sends its first
  32767 bytes.
\<close>

theorem long_string_is_cut:
  assumes "32767 < length s"
  shows "bw_data (write_string w s) = bw_data w @ [0x7F, 0xFF] @ bytes_of_string (take 32767 s)"
  using assms by (simp add: wire_write enc_string_def INT16_MAX_def be_split_widths byte_at_def)

theorem long_string_is_cut_witness:
  "bw_data (write_string empty_writer (replicate 40000 CHR ''x'')) =
     [0x7F, 0xFF] @ bytes_of_string (replicate 32767 CHR ''x'')"
  using long_string_is_cut [of "replicate 40000 CHR ''x''" empty_writer] by (simp add: take_replicate)

section \<open>Frames\<close>

text \<open>
  C10. \<open>read_frame_auto\<close> returns a frame exactly when the input begins with the bytes of that frame,
  and it consumes exactly those bytes (the size field and as many bytes as it says).
\<close>

theorem read_frame_exact:
  assumes "length suf < 2 ^ 63"
  shows "read_frame_auto (reader_at pre suf) = (Ok f, r') \<longleftrightarrow>
    valid_frame f \<and> (\<exists>t. suf = enc_frame f @ t \<and> r' = reader_at (pre @ enc_frame f) t)"
  using assms by (intro read_frame_iff) (simp add: fits_def)

theorem read_frame_exact_witness:
  "\<exists>r'. read_frame_auto (reader_at [] [0, 0, 0, 5, 0, 0x17, 0, 1, 9, 7]) =
     (Ok \<lparr>fr_key = 0x17, fr_version = 1, fr_body = [9], fr_cid = None\<rparr>, r') \<and> remaining r' = 1"
proof -
  let ?f = "\<lparr>fr_key = 0x17, fr_version = 1, fr_body = [9], fr_cid = None\<rparr> :: incoming_frame"
  have "valid_frame ?f"
    by (simp add: valid_frame_def frame_size_def enc_cid_def is_response_def wire_consts)
  moreover have "[0, 0, 0, 5, 0, 0x17, 0, 1, 9, 7] = enc_frame ?f @ [7]"
    by (simp add: enc_frame_def frame_size_def enc_cid_def byte_at_def be_split_widths)
  ultimately have "read_frame_auto (reader_at [] [0, 0, 0, 5, 0, 0x17, 0, 1, 9, 7]) =
      (Ok ?f, reader_at ([] @ enc_frame ?f) [7])"
    by (subst read_frame_exact) auto
  then show ?thesis by auto
qed

text \<open>Frames written one after the other are read back one by one, in order, whatever follows them.\<close>

lemma frames_loop:
  "\<forall>f\<in>set fs. valid_frame f \<Longrightarrow>
   rloop read_frame_auto (length fs) out (reader_at pre (concat (map enc_frame fs) @ t)) =
     (Ok (out @ fs), reader_at (pre @ concat (map enc_frame fs)) t)"
proof (induction fs arbitrary: out pre)
  case Nil
  show ?case by simp
next
  case (Cons f fs)
  then have "read_frame_auto (reader_at pre (enc_frame f @ concat (map enc_frame fs) @ t)) =
      (Ok f, reader_at (pre @ enc_frame f) (concat (map enc_frame fs) @ t))"
    by (simp add: read_frame_enc)
  with Cons show ?case by simp
qed

text \<open>
  C39. A response frame whose declared size leaves no room for its correlation id makes the
  subtraction \<open>declared - consumed\<close> wrap; the frame is refused as truncated, it never yields a body
  from beyond the frame.
\<close>

theorem short_response_refused:
  assumes "is_response key" and "4 \<le> unat declared" and "unat declared < 8"
    and "length rest < 2 ^ 62"
  shows "\<exists>e r'. read_frame_auto (reader_of (be_split 4 (declared :: u32) @ be_split 2 key @ rest)) = (Err e, r') \<and>
    kind e = DecodeError"
proof -
  let ?in = "be_split 4 declared @ be_split 2 key @ rest"
  obtain res r' where run: "read_frame_auto (reader_of ?in) = (res, r')" by fastforce
  show ?thesis
  proof (cases res)
    case (Inr f)
    have "fits ?in" using assms(4) by (simp add: fits_def)
    with run Inr obtain t where f: "valid_frame f" "?in = enc_frame f @ t"
      using read_frame_sound [of "[]" ?in f r'] by (auto simp: reader_of_at)
    then have "be_split 4 declared = be_split 4 (word_of_nat (frame_size f) :: u32)"
      "be_split 2 key = be_split 2 (fr_key f)"
      by (simp_all add: enc_frame_def)
    then have "declared = word_of_nat (frame_size f)" "key = fr_key f"
      by (simp_all only: u32_codec.enc_inject u16_codec.enc_inject)
    with f(1) assms(1) have "unat declared = frame_size f" "fr_cid f \<noteq> None"
      by (simp_all add: valid_frame_def unat_of_nat)
    then have "8 \<le> unat declared" by (auto simp: frame_size_def enc_cid_def)
    with assms(3) show ?thesis by simp
  next
    case (Inl e)
    with run read_frame_large_errors [of "[]" declared _ e r'] assms(2) show ?thesis
      by (simp add: reader_of_at)
  qed
qed

theorem short_response_refused_witness:
  "\<exists>e r'. read_frame_auto (reader_of (be_split 4 (6 :: u32) @ be_split 2 (0x800D :: u16) @
       [0, 1, 0, 0, 0, 9, 0, 1])) = (Err e, r') \<and> kind e = DecodeError"
  by (rule short_response_refused) (simp_all add: is_response_def wire_consts)

text \<open>
  The response bit: \<open>response_of\<close> and \<open>request_of\<close> are inverse to each other between request keys
  and response keys, and \<open>is_response\<close> tells the two apart.
\<close>

lemma response_bit:
  "is_response (response_of k) \<and> \<not> is_response (request_of k) \<and>
   (request_of (response_of k) = k \<longleftrightarrow> \<not> is_response k) \<and>
   (response_of (request_of k) = k \<longleftrightarrow> is_response k)"
  using request_of_response_of response_of_request_of
  by (metis is_response_response_of not_is_response_request_of)

text \<open>
  A frame passes the outbound check exactly when no maximum is set or its body (the frame
  without the size field) is not longer than the maximum; a refused frame is a \<open>ProtocolViolation\<close>.
\<close>

lemma outbound_size_check:
  "check_outbound_frame_size (length (encode_request_frame key version cid body) - 4) frame_max =
     (if frame_max = 0 \<or> 8 + length body \<le> unat frame_max then Ok ()
      else Err (StreamError ProtocolViolation ''outbound frame exceeds negotiated FrameMax'')) \<and>
   check_outbound_frame_size (length (encode_oneway_frame key version body) - 4) frame_max =
     (if frame_max = 0 \<or> 4 + length body \<le> unat frame_max then Ok ()
      else Err (StreamError ProtocolViolation ''outbound frame exceeds negotiated FrameMax''))"
  by (simp add: check_outbound_frame_size_def length_encode_request_frame length_encode_oneway_frame)

section \<open>Commands\<close>

lemma length_enc_string: "length (enc_string s) \<le> 32769"
  by (simp add: enc_string_def INT16_MAX_def bytes_of_string_def)

lemma small_requests_fit:
  "8 + length (enc_DeleteRequest b) < 2 ^ 32" "8 + length (enc_QueryOffsetRequest c) < 2 ^ 32"
  "8 + length (enc_QueryPublisherRequest d) < 2 ^ 32" "4 + length (enc_StoreOffset so) < 2 ^ 32"
  "8 + length (enc_OpenRequest op) < 2 ^ 32" "8 + length (enc_CloseRequest cl) < 2 ^ 32"
proof -
  have two: "length (enc_string s) + length (enc_string t) \<le> 65538" for s t
    using add_mono [OF length_enc_string length_enc_string, of s t] by simp
  show "8 + length (enc_DeleteRequest b) < 2 ^ 32" "8 + length (enc_QueryOffsetRequest c) < 2 ^ 32"
    "8 + length (enc_QueryPublisherRequest d) < 2 ^ 32" "4 + length (enc_StoreOffset so) < 2 ^ 32"
    "8 + length (enc_OpenRequest op) < 2 ^ 32" "8 + length (enc_CloseRequest cl) < 2 ^ 32"
    using length_enc_string [of "dlq_stream b"] length_enc_string [of "opq_virtual_host op"]
      length_enc_string [of "clq_closing_reason cl"]
      two [of "qoq_reference c" "qoq_stream c"] two [of "qpq_publisher_reference d" "qpq_stream d"]
      two [of "so_reference so" "so_stream so"]
    by (simp_all add: enc_DeleteRequest_def enc_QueryOffsetRequest_def enc_QueryPublisherRequest_def
        enc_StoreOffset_def enc_OpenRequest_def enc_CloseRequest_def)
qed

text \<open>The requests of the lifecycle commands, and those of the handshake and of \<open>close\<close>.\<close>

lemma lifecycle_requests_roundtrip:
  assumes "valid_CreateRequest a" "8 + length (enc_CreateRequest a) < 2 ^ 32"
    and "valid_DeleteRequest b" "valid_QueryOffsetRequest c" "valid_QueryPublisherRequest d"
    and "valid_StoreOffset so"
  shows "server_reads CreateRequest_decode_body
      (encode_request_frame CreateRequest_kKey kVersion cid (bw_data (CreateRequest_encode_body empty_writer a)))
      = Some (0x000D, 1, cid, a) \<and>
    server_reads DeleteRequest_decode_body
      (encode_request_frame DeleteRequest_kKey kVersion cid (bw_data (DeleteRequest_encode_body empty_writer b)))
      = Some (0x000E, 1, cid, b) \<and>
    server_reads QueryOffsetRequest_decode_body
      (encode_request_frame QueryOffsetRequest_kKey kVersion cid
         (bw_data (QueryOffsetRequest_encode_body empty_writer c))) = Some (0x000B, 1, cid, c) \<and>
    server_reads QueryPublisherRequest_decode_body
      (encode_request_frame QueryPublisherRequest_kKey kVersion cid
         (bw_data (QueryPublisherRequest_encode_body empty_writer d))) = Some (0x0005, 1, cid, d) \<and>
    oneway_reads StoreOffset_decode_body
      (encode_oneway_frame StoreOffset_kKey kVersion (bw_data (StoreOffset_encode_body empty_writer so)))
      = Some (0x000A, 1, so)"
  using crq.server_reads_request [OF assms(1,2), of cid]
    dlq.server_reads_request [OF assms(3) small_requests_fit(1), of cid]
    qoq.server_reads_request [OF assms(4) small_requests_fit(2), of cid]
    qpq.server_reads_request [OF assms(5) small_requests_fit(3), of cid]
    so.oneway_reads_frame [OF assms(6) small_requests_fit(4)]
  by (simp add: wire_consts)

lemma handshake_requests_roundtrip:
  assumes "valid_PeerPropertiesRequest a" "8 + length (enc_PeerPropertiesRequest a) < 2 ^ 32"
    and "valid_SaslAuthenticateRequest b" "8 + length (enc_SaslAuthenticateRequest b) < 2 ^ 32"
    and "valid_OpenRequest c" "valid_CloseRequest d"
  shows "server_reads PeerPropertiesRequest_decode_body
      (encode_request_frame PeerPropertiesRequest_kKey kVersion cid
         (bw_data (PeerPropertiesRequest_encode_body empty_writer a))) = Some (0x0011, 1, cid, a) \<and>
    server_reads SaslHandshakeRequest_decode_body
      (encode_request_frame SaslHandshakeRequest_kKey kVersion cid
         (bw_data (SaslHandshakeRequest_encode_body empty_writer SaslHandshakeRequest)))
      = Some (0x0012, 1, cid, SaslHandshakeRequest) \<and>
    server_reads SaslAuthenticateRequest_decode_body
      (encode_request_frame SaslAuthenticateRequest_kKey kVersion cid
         (bw_data (SaslAuthenticateRequest_encode_body empty_writer b))) = Some (0x0013, 1, cid, b) \<and>
    server_reads OpenRequest_decode_body
      (encode_request_frame OpenRequest_kKey kVersion cid (bw_data (OpenRequest_encode_body empty_writer c)))
      = Some (0x0015, 1, cid, c) \<and>
    server_reads CloseRequest_decode_body
      (encode_request_frame CloseRequest_kKey kVersion cid (bw_data (CloseRequest_encode_body empty_writer d)))
      = Some (0x0016, 1, cid, d) \<and>
    oneway_reads Tune_decode_body
      (encode_oneway_frame Tune_kKey kVersion (bw_data (Tune_encode_body empty_writer t)))
      = Some (0x0014, 1, t) \<and>
    oneway_reads Heartbeat_decode_body
      (encode_oneway_frame Heartbeat_kKey kVersion (bw_data (Heartbeat_encode_body empty_writer Heartbeat)))
      = Some (0x0017, 1, Heartbeat)"
proof -
  have "valid_SaslHandshakeRequest SaslHandshakeRequest" "8 + length (enc_SaslHandshakeRequest SaslHandshakeRequest) < 2 ^ 32"
    "valid_Tune t" "4 + length (enc_Tune t) < 2 ^ 32" "valid_Heartbeat Heartbeat"
    "4 + length (enc_Heartbeat Heartbeat) < 2 ^ 32"
    by (simp_all add: valid_SaslHandshakeRequest_def enc_SaslHandshakeRequest_def valid_Tune_def enc_Tune_def
        valid_Heartbeat_def enc_Heartbeat_def)
  note small = this
  show ?thesis
    using ppq.server_reads_request [OF assms(1,2), of cid] shq.server_reads_request [OF small(1,2), of cid]
      saq.server_reads_request [OF assms(3,4), of cid]
      opq.server_reads_request [OF assms(5) small_requests_fit(5), of cid]
      clq.server_reads_request [OF assms(6) small_requests_fit(6), of cid]
      tune.oneway_reads_frame [OF small(3,4)] hb.oneway_reads_frame [OF small(5,6)]
    by (simp add: wire_consts)
qed

text \<open>
  C28. Every request reaches the server intact: from the bytes of the frame the server reads the key of
  the protocol, version 1, the correlation id and the same request. The one-way frames \<open>StoreOffset\<close>,
  \<open>Tune\<close> and \<open>Heartbeat\<close> have no correlation id. Only the requests with a list of properties or
  arguments or a payload can be too long for a frame.
\<close>

theorem requests_roundtrip:
  assumes "valid_CreateRequest a" "8 + length (enc_CreateRequest a) < 2 ^ 32"
    and "valid_DeleteRequest b" "valid_QueryOffsetRequest c" "valid_QueryPublisherRequest d"
    and "valid_StoreOffset so"
    and "valid_PeerPropertiesRequest pp" "8 + length (enc_PeerPropertiesRequest pp) < 2 ^ 32"
    and "valid_SaslAuthenticateRequest au" "8 + length (enc_SaslAuthenticateRequest au) < 2 ^ 32"
    and "valid_OpenRequest op" "valid_CloseRequest cl"
  shows "server_reads CreateRequest_decode_body
      (encode_request_frame CreateRequest_kKey kVersion cid (bw_data (CreateRequest_encode_body empty_writer a)))
      = Some (0x000D, 1, cid, a) \<and>
    server_reads DeleteRequest_decode_body
      (encode_request_frame DeleteRequest_kKey kVersion cid (bw_data (DeleteRequest_encode_body empty_writer b)))
      = Some (0x000E, 1, cid, b) \<and>
    server_reads QueryOffsetRequest_decode_body
      (encode_request_frame QueryOffsetRequest_kKey kVersion cid
         (bw_data (QueryOffsetRequest_encode_body empty_writer c))) = Some (0x000B, 1, cid, c) \<and>
    server_reads QueryPublisherRequest_decode_body
      (encode_request_frame QueryPublisherRequest_kKey kVersion cid
         (bw_data (QueryPublisherRequest_encode_body empty_writer d))) = Some (0x0005, 1, cid, d) \<and>
    oneway_reads StoreOffset_decode_body
      (encode_oneway_frame StoreOffset_kKey kVersion (bw_data (StoreOffset_encode_body empty_writer so)))
      = Some (0x000A, 1, so) \<and>
    server_reads PeerPropertiesRequest_decode_body
      (encode_request_frame PeerPropertiesRequest_kKey kVersion cid
         (bw_data (PeerPropertiesRequest_encode_body empty_writer pp))) = Some (0x0011, 1, cid, pp) \<and>
    server_reads SaslHandshakeRequest_decode_body
      (encode_request_frame SaslHandshakeRequest_kKey kVersion cid
         (bw_data (SaslHandshakeRequest_encode_body empty_writer SaslHandshakeRequest)))
      = Some (0x0012, 1, cid, SaslHandshakeRequest) \<and>
    server_reads SaslAuthenticateRequest_decode_body
      (encode_request_frame SaslAuthenticateRequest_kKey kVersion cid
         (bw_data (SaslAuthenticateRequest_encode_body empty_writer au))) = Some (0x0013, 1, cid, au) \<and>
    server_reads OpenRequest_decode_body
      (encode_request_frame OpenRequest_kKey kVersion cid (bw_data (OpenRequest_encode_body empty_writer op)))
      = Some (0x0015, 1, cid, op) \<and>
    server_reads CloseRequest_decode_body
      (encode_request_frame CloseRequest_kKey kVersion cid (bw_data (CloseRequest_encode_body empty_writer cl)))
      = Some (0x0016, 1, cid, cl) \<and>
    oneway_reads Tune_decode_body
      (encode_oneway_frame Tune_kKey kVersion (bw_data (Tune_encode_body empty_writer t)))
      = Some (0x0014, 1, t) \<and>
    oneway_reads Heartbeat_decode_body
      (encode_oneway_frame Heartbeat_kKey kVersion (bw_data (Heartbeat_encode_body empty_writer Heartbeat)))
      = Some (0x0017, 1, Heartbeat)"
  using lifecycle_requests_roundtrip [OF assms(1-6), of cid] handshake_requests_roundtrip [OF assms(7-12), of cid t]
  by (intro conjI) simp_all

lemma ascii_witness: "valid_string ''s1''" "valid_string ''age''" "valid_string ''9''"
  by (simp_all add: valid_string_ascii)

theorem requests_roundtrip_witness:
  "server_reads CreateRequest_decode_body
     (encode_request_frame CreateRequest_kKey kVersion 100 (bw_data (CreateRequest_encode_body empty_writer
        \<lparr>crq_stream = ''s1'', crq_arguments = [(''age'', ''9'')]\<rparr>)))
   = Some (0x000D, 1, 100, \<lparr>crq_stream = ''s1'', crq_arguments = [(''age'', ''9'')]\<rparr>)"
  by (rule conjunct1, rule requests_roundtrip
      [of "\<lparr>crq_stream = ''s1'', crq_arguments = [(''age'', ''9'')]\<rparr>" "\<lparr>dlq_stream = ''s1''\<rparr>"
        "\<lparr>qoq_reference = ''s1'', qoq_stream = ''s1''\<rparr>"
        "\<lparr>qpq_publisher_reference = ''s1'', qpq_stream = ''s1''\<rparr>"
        "\<lparr>so_reference = ''s1'', so_stream = ''s1'', so_offset = 5\<rparr>"
        "\<lparr>ppq_properties = [(''age'', ''9'')]\<rparr>"
        "\<lparr>saq_mechanism = ''s1'', saq_sasl_opaque_data = [0, 103, 0, 103]\<rparr>" "\<lparr>opq_virtual_host = ''s1''\<rparr>"
        "\<lparr>clq_closing_code = 1, clq_closing_reason = ''s1''\<rparr>"])
    (simp_all add: valid_CreateRequest_def valid_kvs_def valid_kv_def ascii_witness enc_CreateRequest_def
      enc_kvs_def enc_kv_def enc_string_def INT16_MAX_def bytes_of_string_def valid_DeleteRequest_def
      valid_QueryOffsetRequest_def valid_QueryPublisherRequest_def valid_StoreOffset_def
      valid_PeerPropertiesRequest_def enc_PeerPropertiesRequest_def valid_SaslAuthenticateRequest_def
      enc_SaslAuthenticateRequest_def enc_bytes_def valid_OpenRequest_def valid_CloseRequest_def)

text \<open>
  C29. Every response of the server is understood by the client: from the bytes of the frame it reads
  the response key, the correlation id of the request and the same response.
\<close>

theorem responses_roundtrip:
  assumes "valid_PeerPropertiesResponse a" "8 + length (enc_PeerPropertiesResponse a) < 2 ^ 32"
    and "valid_SaslHandshakeResponse b" "8 + length (enc_SaslHandshakeResponse b) < 2 ^ 32"
    and "valid_SaslAuthenticateResponse c" "8 + length (enc_SaslAuthenticateResponse c) < 2 ^ 32"
    and "valid_OpenResponse d" "8 + length (enc_OpenResponse d) < 2 ^ 32"
  shows "client_reads PeerPropertiesResponse_decode_body
      (encode_request_frame PeerPropertiesResponse_kKey kVersion cid
         (bw_data (PeerPropertiesResponse_encode_body empty_writer a))) = Some (0x8011, 1, cid, a) \<and>
    client_reads SaslHandshakeResponse_decode_body
      (encode_request_frame SaslHandshakeResponse_kKey kVersion cid
         (bw_data (SaslHandshakeResponse_encode_body empty_writer b))) = Some (0x8012, 1, cid, b) \<and>
    client_reads SaslAuthenticateResponse_decode_body
      (encode_request_frame SaslAuthenticateResponse_kKey kVersion cid
         (bw_data (SaslAuthenticateResponse_encode_body empty_writer c))) = Some (0x8013, 1, cid, c) \<and>
    client_reads OpenResponse_decode_body
      (encode_request_frame OpenResponse_kKey kVersion cid (bw_data (OpenResponse_encode_body empty_writer d)))
      = Some (0x8015, 1, cid, d) \<and>
    client_reads CloseResponse_decode_body
      (encode_request_frame CloseResponse_kKey kVersion cid (bw_data (CloseResponse_encode_body empty_writer e)))
      = Some (0x8016, 1, cid, e) \<and>
    client_reads CreateResponse_decode_body
      (encode_request_frame CreateResponse_kKey kVersion cid (bw_data (CreateResponse_encode_body empty_writer f)))
      = Some (0x800D, 1, cid, f) \<and>
    client_reads DeleteResponse_decode_body
      (encode_request_frame DeleteResponse_kKey kVersion cid (bw_data (DeleteResponse_encode_body empty_writer g)))
      = Some (0x800E, 1, cid, g) \<and>
    client_reads QueryOffsetResponse_decode_body
      (encode_request_frame QueryOffsetResponse_kKey kVersion cid
         (bw_data (QueryOffsetResponse_encode_body empty_writer h))) = Some (0x800B, 1, cid, h) \<and>
    client_reads QueryPublisherResponse_decode_body
      (encode_request_frame QueryPublisherResponse_kKey kVersion cid
         (bw_data (QueryPublisherResponse_encode_body empty_writer i))) = Some (0x8005, 1, cid, i)"
proof -
  have small: "valid_CloseResponse e" "8 + length (enc_CloseResponse e) < 2 ^ 32"
    "valid_CreateResponse f" "8 + length (enc_CreateResponse f) < 2 ^ 32"
    "valid_DeleteResponse g" "8 + length (enc_DeleteResponse g) < 2 ^ 32"
    "valid_QueryOffsetResponse h" "8 + length (enc_QueryOffsetResponse h) < 2 ^ 32"
    "valid_QueryPublisherResponse i" "8 + length (enc_QueryPublisherResponse i) < 2 ^ 32"
    by (simp_all add: valid_CloseResponse_def enc_CloseResponse_def valid_CreateResponse_def
        enc_CreateResponse_def valid_DeleteResponse_def enc_DeleteResponse_def valid_QueryOffsetResponse_def
        enc_QueryOffsetResponse_def valid_QueryPublisherResponse_def enc_QueryPublisherResponse_def)
  show ?thesis
    using ppr.client_reads_response [OF assms(1,2), of cid] shr.client_reads_response [OF assms(3,4), of cid]
      sar.client_reads_response [OF assms(5,6), of cid] opr.client_reads_response [OF assms(7,8), of cid]
      clr.client_reads_response [OF small(1,2), of cid] crr.client_reads_response [OF small(3,4), of cid]
      dlr.client_reads_response [OF small(5,6), of cid] qor.client_reads_response [OF small(7,8), of cid]
      qpr.client_reads_response [OF small(9,10), of cid]
    by (simp add: wire_consts response_of_def)
qed

theorem responses_roundtrip_witness:
  "client_reads PeerPropertiesResponse_decode_body
     (encode_request_frame PeerPropertiesResponse_kKey kVersion 1
        (bw_data (PeerPropertiesResponse_encode_body empty_writer
           \<lparr>ppr_response_code = 1, ppr_properties = [(''age'', ''9'')]\<rparr>)))
   = Some (0x8011, 1, 1, \<lparr>ppr_response_code = 1, ppr_properties = [(''age'', ''9'')]\<rparr>)"
  by (rule conjunct1, rule responses_roundtrip
      [of "\<lparr>ppr_response_code = 1, ppr_properties = [(''age'', ''9'')]\<rparr>"
        "\<lparr>shr_response_code = 1, shr_mechanisms = [''s1'']\<rparr>"
        "\<lparr>sar_response_code = 1, sar_sasl_opaque_data = Some [1]\<rparr>"
        "\<lparr>opr_response_code = 1, opr_connection_properties = [(''age'', ''9'')]\<rparr>"])
    (simp_all add: valid_PeerPropertiesResponse_def valid_kvs_def valid_kv_def ascii_witness
      enc_PeerPropertiesResponse_def enc_kvs_def enc_kv_def enc_string_def INT16_MAX_def bytes_of_string_def
      valid_SaslHandshakeResponse_def valid_strings_def enc_SaslHandshakeResponse_def enc_strings_def
      valid_SaslAuthenticateResponse_def valid_bytes_def enc_SaslAuthenticateResponse_def enc_bytes_def
      valid_OpenResponse_def enc_OpenResponse_def)

text \<open>
  The optional last field: an \<open>Open\<close> or \<open>SaslAuthenticate\<close> response that ends after the response
  code is accepted, with no properties and no data.
\<close>

lemma short_responses_accepted:
  "OpenResponse_decode_body (reader_of (be_split 2 rc)) =
     (Ok \<lparr>opr_response_code = rc, opr_connection_properties = []\<rparr>, reader_at (be_split 2 rc) []) \<and>
   SaslAuthenticateResponse_decode_body (reader_of (be_split 2 rc)) =
     (Ok \<lparr>sar_response_code = rc, sar_sasl_opaque_data = None\<rparr>, reader_at (be_split 2 rc) [])"
  using OpenResponse_short SaslAuthenticateResponse_short by blast

lemma body_decoders_forward:
  "reads_forward PeerPropertiesRequest_decode_body" "reads_forward PeerPropertiesResponse_decode_body"
  "reads_forward SaslHandshakeRequest_decode_body" "reads_forward SaslHandshakeResponse_decode_body"
  "reads_forward SaslAuthenticateRequest_decode_body" "reads_forward SaslAuthenticateResponse_decode_body"
  "reads_forward Tune_decode_body" "reads_forward OpenRequest_decode_body"
  "reads_forward OpenResponse_decode_body" "reads_forward CloseRequest_decode_body"
  "reads_forward CloseResponse_decode_body" "reads_forward Heartbeat_decode_body"
  "reads_forward CreateRequest_decode_body" "reads_forward CreateResponse_decode_body"
  "reads_forward DeleteRequest_decode_body" "reads_forward DeleteResponse_decode_body"
  "reads_forward StoreOffset_decode_body" "reads_forward QueryOffsetRequest_decode_body"
  "reads_forward QueryOffsetResponse_decode_body" "reads_forward QueryPublisherRequest_decode_body"
  "reads_forward QueryPublisherResponse_decode_body"
  by (rule
    ppq.rd_forward ppr.rd_forward shq.rd_forward shr.rd_forward saq.rd_forward sar.rd_forward tune.rd_forward
    opq.rd_forward opr.rd_forward clq.rd_forward clr.rd_forward hb.rd_forward crq.rd_forward crr.rd_forward
    dlq.rd_forward dlr.rd_forward so.rd_forward qoq.rd_forward qor.rd_forward qpq.rd_forward qpr.rd_forward)+

lemma forward_in_bounds:
  "reads_forward m \<Longrightarrow> reader_ok r \<Longrightarrow> in_bounds m r"
  unfolding in_bounds_def by (rule reads_forward_ok)

text \<open>
  C31. No decoder reads outside its buffer, neither the primitive readers nor the readers of frames and of the
  bodies of all 21 commands: from a well-formed reader each one ends in a well-formed reader over the same
  bytes, at or after the position where it began, also when it fails.
\<close>

theorem decoders_in_bounds:
  assumes "reader_ok r"
  shows "in_bounds (read_raw n) r \<and> in_bounds (borrow n) r \<and> in_bounds read_u8 r \<and>
    in_bounds read_i8 r \<and> in_bounds read_u16 r \<and> in_bounds read_i16 r \<and> in_bounds read_u32 r \<and>
    in_bounds read_i32 r \<and> in_bounds read_u64 r \<and> in_bounds read_i64 r \<and>
    in_bounds read_string r \<and> in_bounds read_string_required r \<and> in_bounds read_bytes r \<and>
    in_bounds read_array_prefix r \<and> in_bounds decode_kv r \<and> in_bounds decode_kv_array r \<and>
    in_bounds read_frame_auto r \<and> in_bounds PeerPropertiesRequest_decode_body r \<and>
    in_bounds PeerPropertiesResponse_decode_body r \<and> in_bounds SaslHandshakeRequest_decode_body r \<and>
    in_bounds SaslHandshakeResponse_decode_body r \<and> in_bounds SaslAuthenticateRequest_decode_body r \<and>
    in_bounds SaslAuthenticateResponse_decode_body r \<and> in_bounds Tune_decode_body r \<and>
    in_bounds OpenRequest_decode_body r \<and> in_bounds OpenResponse_decode_body r \<and>
    in_bounds CloseRequest_decode_body r \<and> in_bounds CloseResponse_decode_body r \<and>
    in_bounds Heartbeat_decode_body r \<and> in_bounds CreateRequest_decode_body r \<and>
    in_bounds CreateResponse_decode_body r \<and> in_bounds DeleteRequest_decode_body r \<and>
    in_bounds DeleteResponse_decode_body r \<and> in_bounds StoreOffset_decode_body r \<and>
    in_bounds QueryOffsetRequest_decode_body r \<and> in_bounds QueryOffsetResponse_decode_body r \<and>
    in_bounds QueryPublisherRequest_decode_body r \<and> in_bounds QueryPublisherResponse_decode_body r"
proof -
  note prim = reads_forward_read_raw reads_forward_borrow read_ints_forward read_string_forward(1)
    read_string_required_forward(1) read_bytes_forward(1) read_array_prefix_forward(1)
    wire_codec.rd_forward [OF canonical_codec.axioms(1) [OF kv_canonical]] kvs_codec.rd_forward
  show ?thesis by (intro conjI; rule forward_in_bounds [OF _ assms]; rule prim read_frame_forward body_decoders_forward)
qed

theorem decoders_in_bounds_witness:
  "in_bounds Tune_decode_body \<lparr>rd_data = [1, 2, 3, 4, 5, 6], rd_size = 6, rd_pos = 1\<rparr> \<and>
   in_bounds StoreOffset_decode_body \<lparr>rd_data = [1, 2, 3, 4, 5, 6], rd_size = 6, rd_pos = 1\<rparr>"
proof -
  have "reader_ok \<lparr>rd_data = [1, 2, 3, 4, 5, 6], rd_size = 6, rd_pos = 1\<rparr>" by (simp add: reader_ok_def)
  from decoders_in_bounds [OF this] show ?thesis by blast
qed

end
