(* ===== verification/Dispatcher.thy ===== *)
theory Dispatcher
  imports Frame "HOL-Library.AList" "HOL-Library.Multiset"
begin

text \<open>
  \<open>dispatcher.hpp\<close> and \<open>dispatcher.cpp\<close>: the pending-request map and the routing of inbound
  frames. A \<open>std::promise\<close> and its \<open>std::future\<close> share a state; \<open>ds_shared\<close> lists these states
  in the order of their creation and a promise is its index. Setting a value twice makes the
  library throw, which no caller catches: \<open>ds_terminated\<close> records it. A promise destroyed
  without a value leaves a broken one. The \<open>unordered_map\<close> is an association list with distinct
  keys; nothing below depends on its order. Points of the steady clock are integers.

  Shown here: no promise is set twice, a settled one never changes, every unsettled one is still
  owned by exactly one entry (so none is lost), also when the critical sections of several threads
  interleave.
\<close>

section \<open>State\<close>

datatype shared_state = Unset | Ready "incoming_frame result" | Broken

record pending_entry =
  pe_promise :: nat
  pe_deadline :: int

record dispatcher =
  ds_next_id :: u32
  ds_pending :: "(u32 \<times> pending_entry) list"
  ds_on_heartbeat :: "nat option"
  ds_on_metadata_update :: "nat option"
  ds_shared :: "shared_state list"
  ds_calls :: "(nat \<times> incoming_frame) list"
  ds_terminated :: bool

definition new_dispatcher :: dispatcher where
  "new_dispatcher =
     \<lparr>ds_next_id = 1, ds_pending = [], ds_on_heartbeat = None, ds_on_metadata_update = None,
      ds_shared = [], ds_calls = [], ds_terminated = False\<rparr>"

text \<open>\<open>promise::set_value\<close> and the destruction of an unset promise.\<close>

definition set_value :: "nat \<Rightarrow> incoming_frame result \<Rightarrow> dispatcher \<Rightarrow> dispatcher" where
  "set_value p v d =
     (if p < length (ds_shared d) \<and> ds_shared d ! p = Unset
      then d\<lparr>ds_shared := (ds_shared d)[p := Ready v]\<rparr>
      else d\<lparr>ds_terminated := True\<rparr>)"

definition abandon :: "nat \<Rightarrow> dispatcher \<Rightarrow> dispatcher" where
  "abandon p d =
     (if p < length (ds_shared d) \<and> ds_shared d ! p = Unset
      then d\<lparr>ds_shared := (ds_shared d)[p := Broken]\<rparr>
      else d)"

section \<open>Operations\<close>

text \<open>The counter is an \<open>atomic\<close>; \<open>fetch_add\<close> wraps and returns the old value.\<close>

definition next_correlation_id :: "dispatcher \<Rightarrow> u32 \<times> dispatcher" where
  "next_correlation_id d = (ds_next_id d, d\<lparr>ds_next_id := ds_next_id d + 1\<rparr>)"

text \<open>\<open>emplace\<close> keeps an entry that is already there; the new one is then destroyed.\<close>

definition register_pending :: "u32 \<Rightarrow> int \<Rightarrow> dispatcher \<Rightarrow> nat \<times> dispatcher" where
  "register_pending cid deadline d =
     (let p = length (ds_shared d);
          d = d\<lparr>ds_shared := ds_shared d @ [Unset]\<rparr>
      in (p, case map_of (ds_pending d) cid of
               None \<Rightarrow> d\<lparr>ds_pending := (cid, \<lparr>pe_promise = p, pe_deadline = deadline\<rparr>) # ds_pending d\<rparr>
             | Some _ \<Rightarrow> abandon p d))"

definition dispatch :: "incoming_frame \<Rightarrow> dispatcher \<Rightarrow> bool \<times> dispatcher" where
  "dispatch frame d =
     (if is_response (fr_key frame) then
        (case fr_cid frame of
           None \<Rightarrow> (False, d)
         | Some cid \<Rightarrow>
             (case map_of (ds_pending d) cid of
                None \<Rightarrow> (False, d)
              | Some entry \<Rightarrow>
                  (True, set_value (pe_promise entry) (Ok frame)
                           (d\<lparr>ds_pending := AList.delete cid (ds_pending d)\<rparr>))))
      else
        (let kind = request_of (fr_key frame) in
         case (if kind = key_Heartbeat then ds_on_heartbeat d else None) of
           Some h \<Rightarrow> (True, d\<lparr>ds_calls := ds_calls d @ [(h, frame)]\<rparr>)
         | None \<Rightarrow>
             (case (if kind = key_MetadataUpdate then ds_on_metadata_update d else None) of
                Some h \<Rightarrow> (True, d\<lparr>ds_calls := ds_calls d @ [(h, frame)]\<rparr>)
              | None \<Rightarrow> (False, d))))"

definition resolve_all :: "incoming_frame result \<Rightarrow> pending_entry list \<Rightarrow> dispatcher \<Rightarrow> dispatcher" where
  "resolve_all v es d = foldl (\<lambda>d e. set_value (pe_promise e) v d) d es"

definition fail_all_pending :: "stream_error \<Rightarrow> dispatcher \<Rightarrow> dispatcher" where
  "fail_all_pending e d =
     (let taken = map snd (ds_pending d)
      in resolve_all (Err e) taken (d\<lparr>ds_pending := []\<rparr>))"

definition request_timed_out :: stream_error where
  "request_timed_out = StreamError RequestTimeout ''request timed out''"

definition reap_expired :: "int \<Rightarrow> dispatcher \<Rightarrow> nat \<times> dispatcher" where
  "reap_expired now d =
     (let expired = [e. (cid, e) \<leftarrow> ds_pending d, now \<ge> pe_deadline e];
          kept = [(cid, e). (cid, e) \<leftarrow> ds_pending d, \<not> now \<ge> pe_deadline e]
      in (length expired, resolve_all (Err request_timed_out) expired (d\<lparr>ds_pending := kept\<rparr>)))"

definition on_heartbeat :: "nat option \<Rightarrow> dispatcher \<Rightarrow> dispatcher" where
  "on_heartbeat h d = d\<lparr>ds_on_heartbeat := h\<rparr>"

definition on_metadata_update :: "nat option \<Rightarrow> dispatcher \<Rightarrow> dispatcher" where
  "on_metadata_update h d = d\<lparr>ds_on_metadata_update := h\<rparr>"

section \<open>Ownership of the promises\<close>

text \<open>The promises of a list of entries that nobody has settled yet, each owned once.\<close>

definition promises :: "(u32 \<times> pending_entry) list \<Rightarrow> nat list" where
  "promises es = map (pe_promise \<circ> snd) es"

definition unsettled :: "dispatcher \<Rightarrow> nat set" where
  "unsettled d = {p. p < length (ds_shared d) \<and> ds_shared d ! p = Unset}"

text \<open>\<open>flight\<close>: the promises that a thread has taken out of the map and will settle.\<close>

definition owned_ok :: "nat list \<Rightarrow> dispatcher \<Rightarrow> bool" where
  "owned_ok flight d \<longleftrightarrow>
     distinct (map fst (ds_pending d)) \<and> distinct (promises (ds_pending d) @ flight) \<and>
     set (promises (ds_pending d) @ flight) = unsettled d \<and> \<not> ds_terminated d"

abbreviation dispatcher_ok :: "dispatcher \<Rightarrow> bool" where
  "dispatcher_ok \<equiv> owned_ok []"

text \<open>What may happen to the shared states: new ones appear, unset ones are settled.\<close>

definition settles_once :: "dispatcher \<Rightarrow> dispatcher \<Rightarrow> bool" where
  "settles_once d d' \<longleftrightarrow>
     length (ds_shared d) \<le> length (ds_shared d') \<and>
     (\<forall>p < length (ds_shared d). ds_shared d ! p \<noteq> Unset \<longrightarrow> ds_shared d' ! p = ds_shared d ! p)"

lemma settles_once_refl [simp]: "settles_once d d"
  by (simp add: settles_once_def)

lemma settles_once_trans: "settles_once d d' \<Longrightarrow> settles_once d' d'' \<Longrightarrow> settles_once d d''"
  unfolding settles_once_def by (metis order_less_le_trans order_trans)

lemma settles_once_shared: "ds_shared d' = ds_shared d \<Longrightarrow> settles_once d d'"
  by (simp add: settles_once_def)

lemma set_value_settles: "settles_once d (set_value p v d)"
  by (auto simp: settles_once_def set_value_def nth_list_update)

lemma resolve_all_settles: "settles_once d (resolve_all v es d)"
  unfolding resolve_all_def
  by (induction es arbitrary: d) (auto intro: settles_once_trans set_value_settles)

lemma set_value_fields [simp]:
  "ds_pending (set_value p v d) = ds_pending d"
  "ds_on_heartbeat (set_value p v d) = ds_on_heartbeat d"
  "ds_on_metadata_update (set_value p v d) = ds_on_metadata_update d"
  "ds_calls (set_value p v d) = ds_calls d" "ds_next_id (set_value p v d) = ds_next_id d"
  "length (ds_shared (set_value p v d)) = length (ds_shared d)"
  by (simp_all add: set_value_def)

lemma resolve_all_fields [simp]:
  "ds_pending (resolve_all v es d) = ds_pending d"
  "ds_on_heartbeat (resolve_all v es d) = ds_on_heartbeat d"
  "ds_on_metadata_update (resolve_all v es d) = ds_on_metadata_update d"
  "ds_calls (resolve_all v es d) = ds_calls d" "ds_next_id (resolve_all v es d) = ds_next_id d"
  "length (ds_shared (resolve_all v es d)) = length (ds_shared d)"
  by (induction es arbitrary: d) (simp_all add: resolve_all_def)

lemma unsettled_set_value: "p \<in> unsettled d \<Longrightarrow> unsettled (set_value p v d) = unsettled d - {p}"
  by (auto simp: unsettled_def set_value_def nth_list_update)

lemma set_value_owned:
  assumes "owned_ok (p # flight) d"
  shows "owned_ok flight (set_value p v d)"
proof -
  from assms have p: "p \<in> unsettled d" by (auto simp: owned_ok_def)
  then have "\<not> ds_terminated (set_value p v d)"
    using assms by (simp add: set_value_def unsettled_def owned_ok_def)
  with assms unsettled_set_value [OF p] show ?thesis
    by (auto simp: owned_ok_def)
qed

lemma resolve_all_owned:
  "owned_ok (map pe_promise es @ flight) d \<Longrightarrow> owned_ok flight (resolve_all v es d)"
  unfolding resolve_all_def
  by (induction es arbitrary: d) (simp_all add: set_value_owned)

text \<open>Entries move between the map and a thread without a promise being lost or doubled.\<close>

lemma owned_move:
  assumes "owned_ok flight d" and "distinct (map fst kept)"
    and "mset (promises (ds_pending d)) + mset flight = mset (promises kept) + mset flight'"
  shows "owned_ok flight' (d\<lparr>ds_pending := kept\<rparr>)"
proof -
  have ms: "mset (promises (ds_pending d) @ flight) = mset (promises kept @ flight')"
    using assms(3) by simp
  from mset_eq_setD [OF ms] mset_eq_imp_distinct_iff [OF ms] assms show ?thesis
    by (auto simp: owned_ok_def unsettled_def)
qed

lemma resolve_all_values:
  assumes "owned_ok (map pe_promise es @ flight) d" and "e \<in> set es"
  shows "ds_shared (resolve_all v es d) ! pe_promise e = Ready v"
  using assms
proof (induction es arbitrary: d)
  case Nil
  then show ?case by simp
next
  case (Cons e' es)
  let ?d = "set_value (pe_promise e') v d"
  from Cons.prems(1) have ok: "owned_ok (map pe_promise es @ flight) ?d"
    by (simp add: set_value_owned)
  show ?case
  proof (cases "e \<in> set es")
    case True
    with Cons.IH [OF ok] show ?thesis by (simp add: resolve_all_def)
  next
    case False
    with Cons.prems have e: "e = e'" by simp
    from Cons.prems(1) have "pe_promise e' \<in> unsettled d" by (auto simp: owned_ok_def)
    then have "ds_shared ?d ! pe_promise e = Ready v" "pe_promise e < length (ds_shared ?d)"
      by (simp_all add: e set_value_def unsettled_def)
    with resolve_all_settles [of ?d v es] show ?thesis
      by (auto simp: settles_once_def resolve_all_def)
  qed
qed

lemma resolve_all_others:
  "p \<notin> pe_promise ` set es \<Longrightarrow> ds_shared (resolve_all v es d) ! p = ds_shared d ! p"
  unfolding resolve_all_def
  by (induction es arbitrary: d) (simp_all add: set_value_def)

section \<open>The contract of the operations\<close>

text \<open>
  Every operation of the class, run while other threads hold the promises \<open>flight\<close>, keeps the
  ownership and settles a promise at most once. The lemmas of the locale are what the client
  relies on.
\<close>

locale dispatcher_operation =
  fixes run :: "dispatcher \<Rightarrow> dispatcher"
  assumes keeps_owned: "owned_ok flight d \<Longrightarrow> owned_ok flight (run d)"
    and settles: "owned_ok flight d \<Longrightarrow> settles_once d (run d)"

context dispatcher_operation
begin

lemma never_terminates: "owned_ok flight d \<Longrightarrow> \<not> ds_terminated (run d)"
  using keeps_owned [of flight d] by (simp add: owned_ok_def)

lemma ready_stays:
  assumes "owned_ok flight d" and "p < length (ds_shared d)" and "ds_shared d ! p = Ready v"
  shows "ds_shared (run d) ! p = Ready v"
  using settles [OF assms(1)] assms(2,3) by (simp add: settles_once_def)

lemma unsettled_is_pending:
  assumes "dispatcher_ok d" and "p \<in> unsettled (run d)"
  shows "\<exists>cid e. (cid, e) \<in> set (ds_pending (run d)) \<and> pe_promise e = p"
proof -
  have "p \<in> set (promises (ds_pending (run d)))"
    using keeps_owned [OF assms(1)] assms(2) by (simp add: owned_ok_def)
  then show ?thesis unfolding promises_def by fastforce
qed

end

lemma owned_flight_irrelevant_fields:
  "ds_pending d' = ds_pending d \<Longrightarrow> ds_shared d' = ds_shared d \<Longrightarrow>
   ds_terminated d' = ds_terminated d \<Longrightarrow> owned_ok flight d' \<longleftrightarrow> owned_ok flight d"
  by (simp add: owned_ok_def unsettled_def)

subsection \<open>Taking one entry\<close>

lemma promises_delete:
  assumes "distinct (map fst es)" and "map_of es cid = Some e"
  shows "mset (promises es) = mset (promises (AList.delete cid es)) + {#pe_promise e#}"
  using assms
proof (induction es)
  case Nil
  then show ?case by simp
next
  case (Cons kv es)
  then show ?case
    by (cases "fst kv = cid")
      (auto simp: promises_def delete_notin_dom AList.delete_idem dest: map_of_SomeD)
qed

lemma dispatch_take_owned:
  assumes "owned_ok flight d" and "map_of (ds_pending d) cid = Some e"
  shows "owned_ok (pe_promise e # flight) (d\<lparr>ds_pending := AList.delete cid (ds_pending d)\<rparr>)"
proof (rule owned_move [OF assms(1)])
  from assms(1) have "distinct (map fst (ds_pending d))" by (simp add: owned_ok_def)
  then show "distinct (map fst (AList.delete cid (ds_pending d)))"
    by (rule distinct_delete)
  show "mset (promises (ds_pending d)) + mset flight =
      mset (promises (AList.delete cid (ds_pending d))) + mset (pe_promise e # flight)"
    using promises_delete [OF \<open>distinct (map fst (ds_pending d))\<close> assms(2)] by simp
qed

text \<open>The entry a frame is for: only a response with a correlation id that is registered has one.\<close>

definition entry_for :: "incoming_frame \<Rightarrow> dispatcher \<Rightarrow> (u32 \<times> pending_entry) option" where
  "entry_for frame d =
     (if is_response (fr_key frame) then
        (case fr_cid frame of
           None \<Rightarrow> None
         | Some cid \<Rightarrow> (case map_of (ds_pending d) cid of None \<Rightarrow> None | Some e \<Rightarrow> Some (cid, e)))
      else None)"

lemma entry_for_SomeD:
  "entry_for frame d = Some (cid, e) \<Longrightarrow>
     is_response (fr_key frame) \<and> fr_cid frame = Some cid \<and> map_of (ds_pending d) cid = Some e"
  by (simp add: entry_for_def split: if_splits option.splits)

lemma dispatch_found:
  assumes "entry_for frame d = Some (cid, e)"
  shows "dispatch frame d = (True, set_value (pe_promise e) (Ok frame)
    (d\<lparr>ds_pending := AList.delete cid (ds_pending d)\<rparr>))"
  using entry_for_SomeD [OF assms] by (simp add: dispatch_def)

lemma dispatch_not_found:
  assumes "entry_for frame d = None"
  shows "ds_pending (snd (dispatch frame d)) = ds_pending d"
    "ds_shared (snd (dispatch frame d)) = ds_shared d"
    "ds_terminated (snd (dispatch frame d)) = ds_terminated d"
  using assms by (simp_all add: entry_for_def dispatch_def Let_def split: option.splits if_splits)

interpretation dispatch: dispatcher_operation "\<lambda>d. snd (dispatch frame d)"
proof
  fix flight d
  assume ok: "owned_ok flight d"
  show "owned_ok flight (snd (dispatch frame d))"
  proof (cases "entry_for frame d")
    case None
    with ok show ?thesis
      by (subst owned_flight_irrelevant_fields [of _ d]) (simp_all add: dispatch_not_found)
  next
    case (Some ce)
    obtain cid e where ce: "ce = (cid, e)" by (cases ce)
    with Some have "map_of (ds_pending d) cid = Some e" by (auto dest: entry_for_SomeD)
    from set_value_owned [OF dispatch_take_owned [OF ok this]] Some ce show ?thesis
      by (simp add: dispatch_found)
  qed
  show "settles_once d (snd (dispatch frame d))"
  proof (cases "entry_for frame d")
    case None
    then show ?thesis by (intro settles_once_shared) (simp add: dispatch_not_found)
  next
    case (Some ce)
    then show ?thesis
      by (cases ce) (simp add: dispatch_found settles_once_trans
          [OF settles_once_shared set_value_settles])
  qed
qed

subsection \<open>Registering\<close>

lemma unsettled_less: "p \<in> unsettled d \<Longrightarrow> p < length (ds_shared d)"
  by (simp add: unsettled_def)

lemma owned_ok_less: "owned_ok flight d \<Longrightarrow> p \<in> set (promises (ds_pending d) @ flight) \<Longrightarrow>
    p < length (ds_shared d)"
  unfolding owned_ok_def using unsettled_less by blast

lemma unsettled_new:
  "unsettled (d\<lparr>ds_shared := ds_shared d @ [Unset], ds_pending := es\<rparr>) =
     insert (length (ds_shared d)) (unsettled d)"
  by (auto simp: unsettled_def nth_append)

lemma unsettled_abandoned:
  "unsettled (abandon (length (ds_shared d)) (d\<lparr>ds_shared := ds_shared d @ [Unset]\<rparr>)) = unsettled d"
  by (auto simp: unsettled_def abandon_def nth_append nth_list_update)

lemma abandon_fields [simp]:
  "ds_pending (abandon p d) = ds_pending d" "ds_terminated (abandon p d) = ds_terminated d"
  by (simp_all add: abandon_def)

lemma register_pending_cases:
  "snd (register_pending cid deadline d) =
     (if cid \<in> fst ` set (ds_pending d)
      then abandon (length (ds_shared d)) (d\<lparr>ds_shared := ds_shared d @ [Unset]\<rparr>)
      else d\<lparr>ds_shared := ds_shared d @ [Unset],
             ds_pending := (cid, \<lparr>pe_promise = length (ds_shared d), pe_deadline = deadline\<rparr>)
               # ds_pending d\<rparr>)"
proof (cases "map_of (ds_pending d) cid")
  case None
  then have "cid \<notin> fst ` set (ds_pending d)" by (simp add: map_of_eq_None_iff)
  with None show ?thesis by (simp add: register_pending_def Let_def)
next
  case (Some e)
  then have "cid \<in> fst ` set (ds_pending d)" by (force dest: map_of_SomeD)
  with Some show ?thesis by (simp add: register_pending_def Let_def)
qed

interpretation register_pending: dispatcher_operation "\<lambda>d. snd (register_pending cid deadline d)"
proof
  fix flight d
  assume ok: "owned_ok flight d"
  have new: "length (ds_shared d) \<notin> set (promises (ds_pending d) @ flight)"
    using owned_ok_less [OF ok] by blast
  show "owned_ok flight (snd (register_pending cid deadline d))"
  proof (cases "cid \<in> fst ` set (ds_pending d)")
    case True
    with ok show ?thesis
      by (simp add: register_pending_cases owned_ok_def unsettled_abandoned)
  next
    case False
    with ok new show ?thesis
      by (auto simp: register_pending_cases owned_ok_def unsettled_new promises_def)
  qed
  show "settles_once d (snd (register_pending cid deadline d))"
    by (auto simp: register_pending_cases settles_once_def abandon_def nth_append nth_list_update)
qed

subsection \<open>Failing and reaping\<close>

lemma fail_all_take_owned:
  assumes "owned_ok flight d"
  shows "owned_ok (map pe_promise (map snd (ds_pending d)) @ flight) (d\<lparr>ds_pending := []\<rparr>)"
  by (rule owned_move [OF assms]) (simp_all add: promises_def)

interpretation fail_all_pending: dispatcher_operation "\<lambda>d. fail_all_pending e d"
proof
  fix flight d
  assume ok: "owned_ok flight d"
  show "owned_ok flight (fail_all_pending e d)"
    unfolding fail_all_pending_def Let_def
    by (rule resolve_all_owned, rule fail_all_take_owned, rule ok)
  show "settles_once d (fail_all_pending e d)"
    unfolding fail_all_pending_def Let_def
    by (rule settles_once_trans [OF settles_once_shared resolve_all_settles]) simp
qed

text \<open>The two lists of the reaper, as filters.\<close>

definition expired_at :: "int \<Rightarrow> u32 \<times> pending_entry \<Rightarrow> bool" where
  "expired_at now kv \<longleftrightarrow> pe_deadline (snd kv) \<le> now"

lemma reap_lists:
  "[e. (cid, e) \<leftarrow> es, now \<ge> pe_deadline e] = map snd (filter (expired_at now) es)"
  "[(cid, e). (cid, e) \<leftarrow> es, \<not> now \<ge> pe_deadline e] = filter (\<lambda>kv. \<not> expired_at now kv) es"
  by (induction es) (auto simp: expired_at_def)

lemma reap_expired_eq:
  "reap_expired now d =
     (let expired = map snd (filter (expired_at now) (ds_pending d)) in
      (length expired, resolve_all (Err request_timed_out) expired
        (d\<lparr>ds_pending := filter (\<lambda>kv. \<not> expired_at now kv) (ds_pending d)\<rparr>)))"
  unfolding reap_expired_def reap_lists Let_def by (rule refl)

lemma mset_promises_partition:
  "mset (promises es) =
     mset (promises (filter (\<lambda>kv. \<not> P kv) es)) + mset (map pe_promise (map snd (filter P es)))"
  by (induction es) (simp_all add: promises_def)

lemma reap_take_owned:
  assumes "owned_ok flight d"
  shows "owned_ok (map pe_promise (map snd (filter (expired_at now) (ds_pending d))) @ flight)
    (d\<lparr>ds_pending := filter (\<lambda>kv. \<not> expired_at now kv) (ds_pending d)\<rparr>)"
proof (rule owned_move [OF assms])
  show "distinct (map fst (filter (\<lambda>kv. \<not> expired_at now kv) (ds_pending d)))"
    using assms by (simp add: owned_ok_def distinct_map_filter)
  show "mset (promises (ds_pending d)) + mset flight =
      mset (promises (filter (\<lambda>kv. \<not> expired_at now kv) (ds_pending d))) +
      mset (map pe_promise (map snd (filter (expired_at now) (ds_pending d))) @ flight)"
    using mset_promises_partition [of "ds_pending d" "expired_at now"] by simp
qed

interpretation reap_expired: dispatcher_operation "\<lambda>d. snd (reap_expired now d)"
proof
  fix flight d
  assume ok: "owned_ok flight d"
  show "owned_ok flight (snd (reap_expired now d))"
    using resolve_all_owned [OF reap_take_owned [OF ok]] by (simp add: reap_expired_eq Let_def)
  show "settles_once d (snd (reap_expired now d))"
    unfolding reap_expired_eq Let_def snd_conv
    by (rule settles_once_trans [OF settles_once_shared resolve_all_settles]) simp
qed

lemma new_dispatcher_ok: "dispatcher_ok new_dispatcher"
  by (simp add: owned_ok_def new_dispatcher_def promises_def unsettled_def)

section \<open>What the operations do\<close>

lemma fst_register_pending [simp]: "fst (register_pending cid deadline d) = length (ds_shared d)"
  by (simp add: register_pending_def Let_def)

lemma owned_pendingD:
  assumes "owned_ok flight d" and "(cid, e) \<in> set (ds_pending d)"
  shows "pe_promise e \<in> unsettled d"
proof -
  have "pe_promise e \<in> set (promises (ds_pending d))"
    using assms(2) by (force simp: promises_def)
  with assms(1) show ?thesis by (auto simp: owned_ok_def)
qed

lemma register_pending_fresh:
  assumes "dispatcher_ok d" and "cid \<notin> fst ` set (ds_pending d)"
  shows "map_of (ds_pending (snd (register_pending cid deadline d))) cid =
      Some \<lparr>pe_promise = fst (register_pending cid deadline d), pe_deadline = deadline\<rparr>"
    "ds_shared (snd (register_pending cid deadline d)) ! fst (register_pending cid deadline d) = Unset"
  using assms(2) by (simp_all add: register_pending_cases)

lemma dispatch_resolves:
  assumes ok: "owned_ok flight d" and entry: "entry_for frame d = Some (cid, e)"
  shows "ds_shared (snd (dispatch frame d)) ! pe_promise e = Ready (Ok frame)"
    "\<forall>p. p \<noteq> pe_promise e \<longrightarrow> ds_shared (snd (dispatch frame d)) ! p = ds_shared d ! p"
    "ds_pending (snd (dispatch frame d)) = AList.delete cid (ds_pending d)"
proof -
  have "pe_promise e \<in> unsettled d"
    using entry by (auto dest!: entry_for_SomeD map_of_SomeD intro: owned_pendingD [OF ok])
  then show "ds_shared (snd (dispatch frame d)) ! pe_promise e = Ready (Ok frame)"
    by (simp add: dispatch_found [OF entry] set_value_def unsettled_def)
  show "\<forall>p. p \<noteq> pe_promise e \<longrightarrow> ds_shared (snd (dispatch frame d)) ! p = ds_shared d ! p"
    "ds_pending (snd (dispatch frame d)) = AList.delete cid (ds_pending d)"
    by (simp_all add: dispatch_found [OF entry] set_value_def)
qed

lemma fail_all_resolves:
  assumes "owned_ok flight d" and "(cid, entry) \<in> set (ds_pending d)"
  shows "ds_shared (fail_all_pending e d) ! pe_promise entry = Ready (Err e)"
  unfolding fail_all_pending_def Let_def
  by (rule resolve_all_values [OF fail_all_take_owned [OF assms(1)]])
    (use assms(2) in force)

lemma fail_all_pending_empty [simp]: "ds_pending (fail_all_pending e d) = []"
  by (simp add: fail_all_pending_def Let_def)

lemma fail_all_unsettled:
  assumes "dispatcher_ok d"
  shows "unsettled (fail_all_pending e d) = {}"
  using fail_all_pending.keeps_owned [OF assms, of e] by (simp add: owned_ok_def promises_def)

lemma reap_expired_resolves:
  assumes "owned_ok flight d" and "(cid, entry) \<in> set (ds_pending d)"
  shows "ds_shared (snd (reap_expired now d)) ! pe_promise entry =
    (if pe_deadline entry \<le> now then Ready (Err request_timed_out) else Unset)"
proof (cases "pe_deadline entry \<le> now")
  case True
  then have "entry \<in> set (map snd (filter (expired_at now) (ds_pending d)))"
    using assms(2) by (force simp: expired_at_def)
  with True show ?thesis
    using resolve_all_values [OF reap_take_owned [OF assms(1)]]
    by (simp add: reap_expired_eq Let_def)
next
  case False
  let ?d = "snd (reap_expired now d)"
  have "(cid, entry) \<in> set (ds_pending ?d)"
    using assms(2) False by (simp add: reap_expired_eq Let_def expired_at_def)
  with reap_expired.keeps_owned [OF assms(1)] have "pe_promise entry \<in> unsettled ?d"
    by (rule owned_pendingD)
  with False show ?thesis by (simp add: unsettled_def)
qed

lemma reap_expired_pending:
  "ds_pending (snd (reap_expired now d)) = filter (\<lambda>kv. now < pe_deadline (snd kv)) (ds_pending d)"
  by (simp add: reap_expired_eq Let_def expired_at_def not_le)

lemma reap_expired_count:
  "fst (reap_expired now d) + length (ds_pending (snd (reap_expired now d))) = length (ds_pending d)"
  using sum_length_filter_compl [of "expired_at now" "ds_pending d"]
  by (simp add: reap_expired_eq Let_def)

text \<open>A response whose entry is gone (answered, reaped or failed before) is dropped.\<close>

lemma dispatch_late:
  assumes "is_response (fr_key frame)" and "fr_cid frame = Some cid"
    and "cid \<notin> fst ` set (ds_pending d)"
  shows "dispatch frame d = (False, d)"
proof -
  have "map_of (ds_pending d) cid = None" using assms(3) by (simp add: map_of_eq_None_iff)
  with assms(1,2) show ?thesis by (simp add: dispatch_def)
qed

section \<open>Interleaving\<close>

text \<open>
  Each operation is a critical section under \<open>mu_\<close>, which takes entries out of the map, and then
  the settling of the promises it took, outside the lock. In \<open>disp_step\<close> the sections and the
  single \<open>set_value\<close> calls of all threads interleave freely.
\<close>

record dsys =
  sys_disp :: dispatcher
  sys_flight :: "(nat \<times> incoming_frame result) list"

inductive disp_step :: "dsys \<Rightarrow> dsys \<Rightarrow> bool" where
  register: "disp_step s (s\<lparr>sys_disp := snd (register_pending cid deadline (sys_disp s))\<rparr>)"
| take_response: "entry_for frame (sys_disp s) = Some (cid, e) \<Longrightarrow>
    disp_step s (s\<lparr>sys_disp := (sys_disp s)\<lparr>ds_pending := AList.delete cid (ds_pending (sys_disp s))\<rparr>,
                   sys_flight := (pe_promise e, Ok frame) # sys_flight s\<rparr>)"
| no_entry: "entry_for frame (sys_disp s) = None \<Longrightarrow>
    disp_step s (s\<lparr>sys_disp := snd (dispatch frame (sys_disp s))\<rparr>)"
| take_all:
    "disp_step s (s\<lparr>sys_disp := (sys_disp s)\<lparr>ds_pending := []\<rparr>,
                   sys_flight := map (\<lambda>e. (pe_promise e, Err err)) (map snd (ds_pending (sys_disp s)))
                     @ sys_flight s\<rparr>)"
| take_expired:
    "disp_step s (s\<lparr>sys_disp := (sys_disp s)\<lparr>ds_pending :=
                      filter (\<lambda>kv. \<not> expired_at now kv) (ds_pending (sys_disp s))\<rparr>,
                   sys_flight := map (\<lambda>e. (pe_promise e, Err request_timed_out))
                       (map snd (filter (expired_at now) (ds_pending (sys_disp s))))
                     @ sys_flight s\<rparr>)"
| complete: "sys_flight s = xs @ (p, v) # ys \<Longrightarrow>
    disp_step s (s\<lparr>sys_disp := set_value p v (sys_disp s), sys_flight := xs @ ys\<rparr>)"

definition dsys_ok :: "dsys \<Rightarrow> bool" where
  "dsys_ok s \<longleftrightarrow> owned_ok (map fst (sys_flight s)) (sys_disp s)"

lemma owned_perm:
  assumes "owned_ok flight d" and "mset flight = mset flight'"
  shows "owned_ok flight' d"
proof -
  have "owned_ok flight' (d\<lparr>ds_pending := ds_pending d\<rparr>)"
    using assms by (intro owned_move [OF assms(1)]) (simp_all add: owned_ok_def)
  then show ?thesis by simp
qed

lemma disp_step_ok: "disp_step s s' \<Longrightarrow> dsys_ok s \<Longrightarrow> dsys_ok s'"
proof (induction rule: disp_step.induct)
  case (register s cid deadline)
  then show ?case by (simp add: dsys_ok_def register_pending.keeps_owned)
next
  case (take_response frame s cid e)
  then show ?case by (auto simp: dsys_ok_def dest: entry_for_SomeD intro: dispatch_take_owned)
next
  case (no_entry frame s)
  then show ?case by (simp add: dsys_ok_def dispatch.keeps_owned)
next
  case (take_all s err)
  then show ?case using fail_all_take_owned by (simp add: dsys_ok_def comp_def)
next
  case (take_expired s now)
  then show ?case using reap_take_owned by (simp add: dsys_ok_def comp_def)
next
  case (complete s xs p v ys)
  then have "owned_ok (p # map fst (xs @ ys)) (sys_disp s)"
    by (auto simp: dsys_ok_def intro: owned_perm)
  then show ?case by (simp add: dsys_ok_def set_value_owned)
qed

lemma disp_step_settles: "disp_step s s' \<Longrightarrow> dsys_ok s \<Longrightarrow> settles_once (sys_disp s) (sys_disp s')"
  by (induction rule: disp_step.induct)
    (simp_all add: dsys_ok_def register_pending.settles dispatch.settles settles_once_shared
      set_value_settles)

lemma disp_steps_ok:
  assumes "disp_step\<^sup>*\<^sup>* s s'" and "dsys_ok s"
  shows "dsys_ok s' \<and> settles_once (sys_disp s) (sys_disp s')"
  using assms
proof (induction rule: rtranclp_induct)
  case base
  then show ?case by simp
next
  case (step s' s'')
  then show ?case using disp_step_ok disp_step_settles settles_once_trans by blast
qed

text \<open>The operations as they are written are runs of this system.\<close>

lemma complete_all:
  "disp_step\<^sup>*\<^sup>* \<lparr>sys_disp = d, sys_flight = map (\<lambda>e. (pe_promise e, v)) es @ fl\<rparr>
     \<lparr>sys_disp = resolve_all v es d, sys_flight = fl\<rparr>"
proof (induction es arbitrary: d)
  case Nil
  show ?case by (simp add: resolve_all_def)
next
  case (Cons e es)
  have "disp_step \<lparr>sys_disp = d, sys_flight = map (\<lambda>e. (pe_promise e, v)) (e # es) @ fl\<rparr>
      \<lparr>sys_disp = set_value (pe_promise e) v d, sys_flight = map (\<lambda>e. (pe_promise e, v)) es @ fl\<rparr>"
    using disp_step.complete [of "\<lparr>sys_disp = d, sys_flight = map (\<lambda>e. (pe_promise e, v)) (e # es) @ fl\<rparr>"
        "[]" "pe_promise e" v "map (\<lambda>e. (pe_promise e, v)) es @ fl"]
    by simp
  also note Cons.IH
  finally show ?case by (simp add: resolve_all_def)
qed

lemma fail_all_pending_run:
  "disp_step\<^sup>*\<^sup>* \<lparr>sys_disp = d, sys_flight = fl\<rparr> \<lparr>sys_disp = fail_all_pending e d, sys_flight = fl\<rparr>"
proof -
  have "disp_step \<lparr>sys_disp = d, sys_flight = fl\<rparr> \<lparr>sys_disp = d\<lparr>ds_pending := []\<rparr>,
      sys_flight = map (\<lambda>en. (pe_promise en, Err e)) (map snd (ds_pending d)) @ fl\<rparr>"
    using disp_step.take_all [of "\<lparr>sys_disp = d, sys_flight = fl\<rparr>" e] by simp
  also note complete_all
  finally show ?thesis by (simp only: fail_all_pending_def Let_def)
qed

lemma reap_expired_run:
  "disp_step\<^sup>*\<^sup>* \<lparr>sys_disp = d, sys_flight = fl\<rparr> \<lparr>sys_disp = snd (reap_expired now d), sys_flight = fl\<rparr>"
proof -
  let ?es = "map snd (filter (expired_at now) (ds_pending d))"
  have "disp_step \<lparr>sys_disp = d, sys_flight = fl\<rparr>
      \<lparr>sys_disp = d\<lparr>ds_pending := filter (\<lambda>kv. \<not> expired_at now kv) (ds_pending d)\<rparr>,
       sys_flight = map (\<lambda>en. (pe_promise en, Err request_timed_out)) ?es @ fl\<rparr>"
    using disp_step.take_expired [of "\<lparr>sys_disp = d, sys_flight = fl\<rparr>" now] by simp
  also note complete_all
  finally show ?thesis by (simp only: reap_expired_eq Let_def snd_conv)
qed

lemma dispatch_run:
  "disp_step\<^sup>*\<^sup>* \<lparr>sys_disp = d, sys_flight = fl\<rparr> \<lparr>sys_disp = snd (dispatch frame d), sys_flight = fl\<rparr>"
proof (cases "entry_for frame d")
  case None
  then show ?thesis
    using disp_step.no_entry [of frame "\<lparr>sys_disp = d, sys_flight = fl\<rparr>"] by simp
next
  case (Some ce)
  obtain cid e where ce: "ce = (cid, e)" by (cases ce)
  with Some have "disp_step \<lparr>sys_disp = d, sys_flight = fl\<rparr>
      \<lparr>sys_disp = d\<lparr>ds_pending := AList.delete cid (ds_pending d)\<rparr>,
       sys_flight = map (\<lambda>en. (pe_promise en, Ok frame)) [e] @ fl\<rparr>"
    using disp_step.take_response [of frame "\<lparr>sys_disp = d, sys_flight = fl\<rparr>" cid e] by simp
  also note complete_all
  finally show ?thesis using Some ce by (simp add: dispatch_found resolve_all_def)
qed

end
