(* ===== verification/Dispatcher_Spec.thy ===== *)
theory Dispatcher_Spec
  imports Dispatcher
begin

text \<open>
  An abstract specification of the dispatcher, and that the operations of \<open>dispatcher.cpp\<close> implement it.
  A board says which requests are waiting, by correlation id, and what has become of every future. There
  are two operations: to register a request, and to settle all waiting requests of some kind with one
  result. The order of the \<open>unordered_map\<close>, the lists of taken entries and the loops over them are gone.
\<close>

section \<open>The specification\<close>

record board =
  waiting :: "u32 \<rightharpoonup> pending_entry"
  outcome :: "nat \<rightharpoonup> shared_state"

definition register :: "nat \<Rightarrow> u32 \<Rightarrow> int \<Rightarrow> board \<Rightarrow> board" where
  "register p cid deadline b =
     (case waiting b cid of
        None \<Rightarrow> b\<lparr>waiting := (waiting b)(cid \<mapsto> \<lparr>pe_promise = p, pe_deadline = deadline\<rparr>),
                 outcome := (outcome b)(p \<mapsto> Unset)\<rparr>
      | Some _ \<Rightarrow> b\<lparr>outcome := (outcome b)(p \<mapsto> Broken)\<rparr>)"

definition settled_by :: "(u32 \<Rightarrow> pending_entry \<Rightarrow> bool) \<Rightarrow> board \<Rightarrow> nat set" where
  "settled_by P b = {pe_promise e | cid e. waiting b cid = Some e \<and> P cid e}"

definition settle :: "(u32 \<Rightarrow> pending_entry \<Rightarrow> bool) \<Rightarrow> incoming_frame result \<Rightarrow> board \<Rightarrow> board" where
  "settle P r b =
     b\<lparr>waiting := (\<lambda>cid. case waiting b cid of None \<Rightarrow> None | Some e \<Rightarrow> if P cid e then None else Some e),
       outcome := (\<lambda>p. if p \<in> settled_by P b then Some (Ready r) else outcome b p)\<rparr>"

definition board_of :: "dispatcher \<Rightarrow> board" where
  "board_of d =
     \<lparr>waiting = map_of (ds_pending d),
      outcome = (\<lambda>p. if p < length (ds_shared d) then Some (ds_shared d ! p) else None)\<rparr>"

section \<open>The dispatcher implements it\<close>

lemma map_of_filter_pairs:
  "distinct (map fst xs) \<Longrightarrow> map_of (filter (\<lambda>(k, v). \<not> P k v) xs) k =
     (case map_of xs k of None \<Rightarrow> None | Some v \<Rightarrow> if P k v then None else Some v)"
  by (induction xs) (auto simp: map_of_eq_None_iff split: option.splits)

text \<open>
  An operation settles when it removes the entries of some kind, gives their futures the result, and
  keeps the ownership of the promises: the other futures are then as before.
\<close>

lemma settle_board:
  assumes ok: "dispatcher_ok d" "dispatcher_ok d'" and once: "settles_once d d'"
    and len: "length (ds_shared d') = length (ds_shared d)"
    and pending: "ds_pending d' = filter (\<lambda>(cid, e). \<not> P cid e) (ds_pending d)"
    and vals: "\<And>cid e. (cid, e) \<in> set (ds_pending d) \<Longrightarrow> P cid e \<Longrightarrow> ds_shared d' ! pe_promise e = Ready r"
  shows "board_of d' = settle P r (board_of d)"
proof -
  have dist: "distinct (map fst (ds_pending d))" using ok(1) by (simp add: owned_ok_def)
  let ?S = "settled_by P (board_of d)"
  have S: "p \<in> ?S \<longleftrightarrow> (\<exists>cid e. (cid, e) \<in> set (ds_pending d) \<and> P cid e \<and> p = pe_promise e)" for p
    using dist by (auto simp: settled_by_def board_of_def)
  have "ds_shared d' ! p = (if p \<in> ?S then Ready r else ds_shared d ! p)" if p: "p < length (ds_shared d)" for p
  proof (cases "p \<in> ?S \<or> ds_shared d ! p \<noteq> Unset")
    case True
    then show ?thesis using S vals once p ok(1) by (fastforce simp: settles_once_def unsettled_def dest: owned_pendingD)
  next
    case False
    with p have "p \<in> unsettled d" by (simp add: unsettled_def)
    with ok(1) have "p \<in> (\<lambda>x. pe_promise (snd x)) ` set (ds_pending d)"
      by (simp add: owned_ok_def promises_def)
    then obtain cid e where e: "(cid, e) \<in> set (ds_pending d)" "p = pe_promise e" by auto
    with False S have "(cid, e) \<in> set (ds_pending d')" by (auto simp: pending)
    from owned_pendingD [OF ok(2) this] e(2) False show ?thesis by (simp add: unsettled_def)
  qed
  moreover have "p < length (ds_shared d)" if "p \<in> ?S" for p
    using that S owned_pendingD [OF ok(1)] by (auto simp: unsettled_def)
  ultimately show ?thesis
    by (auto simp: settle_def board_of_def len pending map_of_filter_pairs [OF dist] fun_eq_iff)
qed

lemma length_resolve_all [simp]: "length (ds_shared (resolve_all v es d)) = length (ds_shared d)"
  unfolding resolve_all_def by (induction es arbitrary: d) (simp_all add: set_value_def)

lemma board_register:
  "board_of (snd (register_pending cid deadline d)) = register (length (ds_shared d)) cid deadline (board_of d)"
  by (auto simp: board_of_def register_def register_pending_def Let_def abandon_def nth_append fun_eq_iff
      split: option.splits)

lemma board_dispatch:
  assumes "dispatcher_ok d"
  shows "board_of (snd (dispatch f d)) =
    settle (\<lambda>cid e. is_response (fr_key f) \<and> fr_cid f = Some cid) (Ok f) (board_of d)"
proof (cases "entry_for f d")
  case None
  then have none: "\<not> (is_response (fr_key f) \<and> fr_cid f = Some cid \<and> map_of (ds_pending d) cid \<noteq> None)" for cid
    by (auto simp: entry_for_def split: if_splits option.splits)
  then have "settled_by (\<lambda>cid e. is_response (fr_key f) \<and> fr_cid f = Some cid) (board_of d) = {}"
    by (auto simp: settled_by_def board_of_def)
  with none show ?thesis
    by (auto simp: settle_def board_of_def dispatch_not_found [OF None] fun_eq_iff split: option.splits)
next
  case (Some ce)
  obtain cid e where e: "entry_for f d = Some (cid, e)" using Some by (cases ce) simp
  note f = entry_for_SomeD [OF e]
  have dist: "distinct (map fst (ds_pending d))" using assms by (simp add: owned_ok_def)
  show ?thesis
  proof (rule settle_board [OF assms dispatch.keeps_owned [OF assms] dispatch.settles [OF assms]])
    show "length (ds_shared (snd (dispatch f d))) = length (ds_shared d)"
      by (simp add: dispatch_found [OF e] set_value_def)
    show "ds_pending (snd (dispatch f d)) =
        filter (\<lambda>(k, e). \<not> (is_response (fr_key f) \<and> fr_cid f = Some k)) (ds_pending d)"
      using f by (auto simp: dispatch_resolves(3) [OF assms e] AList.delete_eq intro: filter_cong)
    fix k e'
    assume "(k, e') \<in> set (ds_pending d)" "is_response (fr_key f) \<and> fr_cid f = Some k"
    with f dist have "e' = e" by (metis map_of_is_SomeI option.inject)
    then show "ds_shared (snd (dispatch f d)) ! pe_promise e' = Ready (Ok f)"
      using dispatch_resolves(1) [OF assms e] by simp
  qed
qed

lemma board_fail_all:
  assumes "dispatcher_ok d"
  shows "board_of (fail_all_pending e d) = settle (\<lambda>_ _. True) (Err e) (board_of d)"
proof (rule settle_board [OF assms fail_all_pending.keeps_owned [OF assms] fail_all_pending.settles [OF assms]])
  show "length (ds_shared (fail_all_pending e d)) = length (ds_shared d)"
    by (simp add: fail_all_pending_def Let_def)
qed (simp_all add: fail_all_resolves [OF assms])

lemma board_reap:
  assumes "dispatcher_ok d"
  shows "board_of (snd (reap_expired now d)) =
    settle (\<lambda>_ e. pe_deadline e \<le> now) (Err request_timed_out) (board_of d)"
proof (rule settle_board [OF assms reap_expired.keeps_owned [OF assms] reap_expired.settles [OF assms]])
  show "length (ds_shared (snd (reap_expired now d))) = length (ds_shared d)"
    by (simp add: reap_expired_eq Let_def)
  show "ds_pending (snd (reap_expired now d)) = filter (\<lambda>(cid, e). \<not> pe_deadline e \<le> now) (ds_pending d)"
    by (auto simp: reap_expired_pending not_le intro: filter_cong)
  show "\<And>cid e. (cid, e) \<in> set (ds_pending d) \<Longrightarrow> pe_deadline e \<le> now \<Longrightarrow>
      ds_shared (snd (reap_expired now d)) ! pe_promise e = Ready (Err request_timed_out)"
    using reap_expired_resolves [OF assms] by simp
qed

text \<open>What the operations return.\<close>

lemma reap_count:
  assumes "dispatcher_ok d"
  shows "fst (reap_expired now d) = card (settled_by (\<lambda>_ e. pe_deadline e \<le> now) (board_of d))"
proof -
  let ?es = "filter (expired_at now) (ds_pending d)"
  have d: "distinct (map fst (ds_pending d))" "distinct (promises (ds_pending d))"
    using assms by (simp_all add: owned_ok_def)
  have "settled_by (\<lambda>_ e. pe_deadline e \<le> now) (board_of d) = set (promises ?es)"
    using d(1) by (auto simp: settled_by_def board_of_def promises_def expired_at_def image_iff Bex_def) blast+
  moreover have "distinct (promises ?es)"
    using d(2) unfolding promises_def by (rule distinct_map_filter)
  ultimately have "card (settled_by (\<lambda>_ e. pe_deadline e \<le> now) (board_of d)) = length (promises ?es)"
    by (simp only: distinct_card)
  then show ?thesis by (simp add: reap_expired_eq Let_def promises_def)
qed

end
