(* ===== verification/Dispatcher_Properties.thy ===== *)
theory Dispatcher_Properties
  imports Dispatcher_Spec
begin

text \<open>
  The properties of the dispatcher: what the critical sections of several threads can do to the
  futures when they interleave, and what each operation does to the pending requests.
  \<open>two_pending\<close> is a dispatcher with two requests under way, on which the statements are tried.
\<close>

definition two_pending :: dispatcher where
  "two_pending = snd (register_pending 101 50 (snd (register_pending 100 10 new_dispatcher)))"

definition answer_100 :: incoming_frame where
  "answer_100 = \<lparr>fr_key = response_of key_Create, fr_version = 1, fr_body = [0, 1], fr_cid = Some 100\<rparr>"

lemma two_pending_ok: "dispatcher_ok two_pending"
  unfolding two_pending_def by (intro register_pending.keeps_owned new_dispatcher_ok)

lemma two_pending_eq:
  "two_pending = new_dispatcher
     \<lparr>ds_pending := [(101, \<lparr>pe_promise = 1, pe_deadline = 50\<rparr>), (100, \<lparr>pe_promise = 0, pe_deadline = 10\<rparr>)],
      ds_shared := [Unset, Unset]\<rparr>"
  by (simp add: two_pending_def register_pending_cases new_dispatcher_def)

lemma two_pending_entry: "entry_for answer_100 two_pending = Some (100, \<lparr>pe_promise = 0, pe_deadline = 10\<rparr>)"
  by (simp add: two_pending_eq entry_for_def answer_100_def)

section \<open>Interleaved threads\<close>

text \<open>
  C2. Whatever the threads do, in any interleaving of their critical sections and of the single
  \<open>set_value\<close> calls outside the lock: no promise is ever set twice (which would terminate the
  process), a future that has its value keeps it, and no future is lost. Each one without a value
  belongs to an entry of the map or to a thread that is about to set it.
\<close>

theorem futures_settled_once:
  assumes "disp_step\<^sup>*\<^sup>* \<lparr>sys_disp = new_dispatcher, sys_flight = []\<rparr> s" and "disp_step\<^sup>*\<^sup>* s s'"
  shows "\<not> ds_terminated (sys_disp s') \<and> settles_once (sys_disp s) (sys_disp s') \<and>
    unsettled (sys_disp s') = set (promises (ds_pending (sys_disp s'))) \<union> fst ` set (sys_flight s')"
proof -
  have "dsys_ok \<lparr>sys_disp = new_dispatcher, sys_flight = []\<rparr>"
    using new_dispatcher_ok by (simp add: dsys_ok_def)
  with assms(1) have "dsys_ok s" using disp_steps_ok by blast
  with assms(2) have "dsys_ok s' \<and> settles_once (sys_disp s) (sys_disp s')" using disp_steps_ok by blast
  then show ?thesis by (auto simp: dsys_ok_def owned_ok_def)
qed

lemma two_pending_reached:
  "disp_step\<^sup>*\<^sup>* \<lparr>sys_disp = new_dispatcher, sys_flight = []\<rparr> \<lparr>sys_disp = two_pending, sys_flight = []\<rparr>"
proof -
  let ?s = "\<lparr>sys_disp = new_dispatcher, sys_flight = []\<rparr>"
  let ?s1 = "?s\<lparr>sys_disp := snd (register_pending 100 10 (sys_disp ?s))\<rparr>"
  have "disp_step ?s ?s1" "disp_step ?s1 (?s1\<lparr>sys_disp := snd (register_pending 101 50 (sys_disp ?s1))\<rparr>)"
    by (rule disp_step.register)+
  then have "disp_step\<^sup>*\<^sup>* ?s (?s1\<lparr>sys_disp := snd (register_pending 101 50 (sys_disp ?s1))\<rparr>)"
    by (meson rtranclp.rtrancl_into_rtrancl rtranclp.rtrancl_refl)
  then show ?thesis by (simp add: two_pending_def)
qed

text \<open>The response of request 100 and the failure of all requests race; the response was first.\<close>

theorem futures_settled_once_witness:
  "\<not> ds_terminated (fail_all_pending truncated_input (snd (dispatch answer_100 two_pending))) \<and>
   settles_once two_pending (fail_all_pending truncated_input (snd (dispatch answer_100 two_pending))) \<and>
   unsettled (fail_all_pending truncated_input (snd (dispatch answer_100 two_pending))) = {}"
proof -
  have "disp_step\<^sup>*\<^sup>* \<lparr>sys_disp = two_pending, sys_flight = []\<rparr>
      \<lparr>sys_disp = fail_all_pending truncated_input (snd (dispatch answer_100 two_pending)), sys_flight = []\<rparr>"
    using dispatch_run fail_all_pending_run by (rule rtranclp_trans)
  from futures_settled_once [OF two_pending_reached this] show ?thesis by (simp add: promises_def)
qed

text \<open>
  C35. The operations as the code has them are runs of the interleaving system, so what holds in
  every interleaving holds for them.
\<close>

theorem operations_are_runs:
  "disp_step\<^sup>*\<^sup>* \<lparr>sys_disp = d, sys_flight = fl\<rparr>
     \<lparr>sys_disp = snd (register_pending cid deadline d), sys_flight = fl\<rparr> \<and>
   disp_step\<^sup>*\<^sup>* \<lparr>sys_disp = d, sys_flight = fl\<rparr> \<lparr>sys_disp = snd (dispatch frame d), sys_flight = fl\<rparr> \<and>
   disp_step\<^sup>*\<^sup>* \<lparr>sys_disp = d, sys_flight = fl\<rparr> \<lparr>sys_disp = fail_all_pending e d, sys_flight = fl\<rparr> \<and>
   disp_step\<^sup>*\<^sup>* \<lparr>sys_disp = d, sys_flight = fl\<rparr> \<lparr>sys_disp = snd (reap_expired now d), sys_flight = fl\<rparr>"
  using disp_step.register [of "\<lparr>sys_disp = d, sys_flight = fl\<rparr>" cid deadline]
    dispatch_run fail_all_pending_run reap_expired_run by auto

section \<open>The operations\<close>

text \<open>
  C19. A response goes to the request with its correlation id and to no other: that future gets the
  frame, every other one stays as it is, the entry is gone, and a second response with the same id
  is dropped.
\<close>

theorem dispatch_delivers:
  assumes "dispatcher_ok d" and "entry_for frame d = Some (cid, e)"
  shows "fst (dispatch frame d) \<and>
    ds_shared (snd (dispatch frame d)) = (ds_shared d)[pe_promise e := Ready (Ok frame)] \<and>
    ds_pending (snd (dispatch frame d)) = AList.delete cid (ds_pending d) \<and>
    dispatch frame (snd (dispatch frame d)) = (False, snd (dispatch frame d))"
proof -
  note res = dispatch_resolves [OF assms]
  have "length (ds_shared (snd (dispatch frame d))) = length (ds_shared d)"
    by (simp add: dispatch_found [OF assms(2)])
  moreover have "pe_promise e < length (ds_shared d)"
    using assms by (auto dest!: entry_for_SomeD map_of_SomeD owned_pendingD simp: unsettled_def)
  ultimately have "ds_shared (snd (dispatch frame d)) = (ds_shared d)[pe_promise e := Ready (Ok frame)]"
    using res(1,2) by (intro nth_equalityI) (auto simp: nth_list_update)
  moreover have "dispatch frame (snd (dispatch frame d)) = (False, snd (dispatch frame d))"
    using entry_for_SomeD [OF assms(2)] res(3) by (intro dispatch_late [of _ cid]) (simp_all add: AList.delete_eq image_iff)
  ultimately show ?thesis using res(3) by (simp add: dispatch_found [OF assms(2)])
qed

theorem dispatch_delivers_witness:
  "ds_shared (snd (dispatch answer_100 two_pending)) = [Ready (Ok answer_100), Unset] \<and>
   dispatch answer_100 (snd (dispatch answer_100 two_pending)) = (False, snd (dispatch answer_100 two_pending))"
  using dispatch_delivers [OF two_pending_ok two_pending_entry] by (simp add: two_pending_eq)

text \<open>
  C20. The operations of the dispatcher implement the abstract board, whatever the order of the map and of
  the loops. \<open>register_pending\<close> adds a waiting request with a new future; an id that is still in use keeps
  its entry, and the new future is broken at once. \<open>dispatch\<close> settles the request with the correlation id
  of a response, \<open>fail_all_pending\<close> all of them with the error, \<open>reap_expired\<close> those whose deadline has
  passed with \<open>RequestTimeout\<close>; every other request keeps waiting and every other future is as before. The
  results say whether a waiting request was found and how many were removed.
\<close>

theorem dispatcher_refines_board:
  assumes "dispatcher_ok d"
  shows "board_of (snd (register_pending cid deadline d)) =
      register (fst (register_pending cid deadline d)) cid deadline (board_of d) \<and>
    fst (register_pending cid deadline d) \<notin> dom (outcome (board_of d)) \<and>
    board_of (snd (dispatch f d)) =
      settle (\<lambda>cid e. is_response (fr_key f) \<and> fr_cid f = Some cid) (Ok f) (board_of d) \<and>
    (fst (dispatch f d) \<and> is_response (fr_key f) \<longleftrightarrow>
       settled_by (\<lambda>cid e. is_response (fr_key f) \<and> fr_cid f = Some cid) (board_of d) \<noteq> {}) \<and>
    board_of (fail_all_pending err d) = settle (\<lambda>_ _. True) (Err err) (board_of d) \<and>
    board_of (snd (reap_expired now d)) =
      settle (\<lambda>_ e. pe_deadline e \<le> now) (Err request_timed_out) (board_of d) \<and>
    fst (reap_expired now d) = card (settled_by (\<lambda>_ e. pe_deadline e \<le> now) (board_of d))"
proof -
  have "fst (dispatch f d) \<and> is_response (fr_key f) \<longleftrightarrow>
      settled_by (\<lambda>cid e. is_response (fr_key f) \<and> fr_cid f = Some cid) (board_of d) \<noteq> {}"
    by (auto simp: dispatch_def settled_by_def board_of_def Let_def split: option.splits)
  moreover have "length (ds_shared d) \<notin> dom (outcome (board_of d))" by (simp add: board_of_def dom_def)
  ultimately show ?thesis
    using board_register [of cid deadline d] board_dispatch [OF assms, of f] board_fail_all [OF assms, of err]
      board_reap [OF assms, of now] reap_count [OF assms, of now]
    by simp
qed

theorem dispatcher_refines_board_witness:
  "board_of (snd (reap_expired 20 two_pending)) =
     settle (\<lambda>_ e. pe_deadline e \<le> 20) (Err request_timed_out) (board_of two_pending) \<and>
   waiting (board_of (snd (reap_expired 20 two_pending))) 100 = None \<and>
   waiting (board_of (snd (reap_expired 20 two_pending))) 101 = Some \<lparr>pe_promise = 1, pe_deadline = 50\<rparr> \<and>
   outcome (board_of (snd (register_pending 100 99 two_pending))) 2 = Some Broken"
proof -
  have r: "board_of (snd (reap_expired 20 two_pending)) =
      settle (\<lambda>_ e. pe_deadline e \<le> 20) (Err request_timed_out) (board_of two_pending)"
    "board_of (snd (register_pending 100 99 two_pending)) =
      register (fst (register_pending 100 99 two_pending)) 100 99 (board_of two_pending)"
    using dispatcher_refines_board [OF two_pending_ok, of 100 99 answer_100 truncated_input 20] by blast+
  have "waiting (board_of two_pending) = [101 \<mapsto> \<lparr>pe_promise = 1, pe_deadline = 50\<rparr>, 100 \<mapsto> \<lparr>pe_promise = 0, pe_deadline = 10\<rparr>]"
    by (auto simp: board_of_def two_pending_eq)
  moreover have "fst (register_pending 100 99 two_pending) = 2" by (simp add: two_pending_eq)
  ultimately show ?thesis using r by (simp add: settle_def register_def)
qed

end
