(* ===== verification/Socket.thy ===== *)
theory Socket
  imports Frame
begin

text \<open>
  \<open>socket.hpp\<close> and \<open>socket.cpp\<close>: the \<open>Socket\<close> wrapper, host resolution, the non-blocking connect
  with a timeout, and the loops that send all bytes and read exactly one frame.

  The operating system is a parameter: the record \<open>os\<close> has one field per system call, over a
  world of an arbitrary type, and one for the steady clock (in nanoseconds). What the code relies on is stated as named hypotheses about these
  calls (\<open>send_appends\<close>, \<open>recv_takes\<close>, \<open>interrupts_bounded\<close>, \<open>fd_table\<close>), with \<open>out\<close>, \<open>inp\<close> and \<open>fds\<close> the view
  of the world they talk about: the bytes accepted for sending, the bytes the peer has still to
  deliver, and the open descriptors. An operation of type \<open>io\<close> returns None when the
  call has no result: the loops retry on \<open>EINTR\<close> without a bound, and \<open>future::get\<close> (in \<open>Client\<close>)
  throws on a broken promise.
\<close>

section \<open>The operating system\<close>

datatype errno = EINTR | EAGAIN | EWOULDBLOCK | EINPROGRESS | EOTHER int

record ResolvedAddr =
  ra_family :: int
  ra_socktype :: int
  ra_protocol :: int
  ra_sockaddr :: bytes

record 'w os =
  os_getaddrinfo :: "string \<Rightarrow> string \<Rightarrow> 'w \<Rightarrow> (int \<times> ResolvedAddr list) \<times> 'w"
  os_gai_strerror :: "int \<Rightarrow> string"
  os_socket :: "int \<Rightarrow> int \<Rightarrow> int \<Rightarrow> 'w \<Rightarrow> int \<times> 'w"
  os_fcntl_getfl :: "int \<Rightarrow> 'w \<Rightarrow> int \<times> 'w"
  os_fcntl_setfl :: "int \<Rightarrow> int \<Rightarrow> 'w \<Rightarrow> int \<times> 'w"
  os_O_NONBLOCK :: int
  os_connect :: "int \<Rightarrow> bytes \<Rightarrow> 'w \<Rightarrow> (int \<times> errno) \<times> 'w"
  os_poll_out :: "int \<Rightarrow> int \<Rightarrow> 'w \<Rightarrow> int \<times> 'w"
  os_getsockopt_error :: "int \<Rightarrow> 'w \<Rightarrow> (int \<times> int) \<times> 'w"
  os_setsockopt_rcvtimeo :: "int \<Rightarrow> int \<Rightarrow> int \<Rightarrow> 'w \<Rightarrow> int \<times> 'w"
  os_close :: "int \<Rightarrow> 'w \<Rightarrow> 'w"
  os_send :: "int \<Rightarrow> bytes \<Rightarrow> 'w \<Rightarrow> (int \<times> errno) \<times> 'w"
  os_recv :: "int \<Rightarrow> nat \<Rightarrow> 'w \<Rightarrow> (int \<times> bytes \<times> errno) \<times> 'w"
  os_strerror :: "errno \<Rightarrow> string"
  os_now :: "'w \<Rightarrow> int \<times> 'w"

type_synonym ('w, 'a) io = "'w \<Rightarrow> ('a result \<times> 'w) option"

definition io_return :: "'a \<Rightarrow> ('w, 'a) io" where
  "io_return x w = Some (Ok x, w)"

definition io_fail :: "stream_error \<Rightarrow> ('w, 'a) io" where
  "io_fail e w = Some (Err e, w)"

definition io_bind :: "('w, 'a) io \<Rightarrow> ('a \<Rightarrow> ('w, 'b) io) \<Rightarrow> ('w, 'b) io" where
  "io_bind m f w =
     (case m w of
        None \<Rightarrow> None
      | Some (Inl e, w') \<Rightarrow> Some (Err e, w')
      | Some (Inr x, w') \<Rightarrow> f x w')"

definition io_lift :: "'a result \<Rightarrow> ('w, 'a) io" where
  "io_lift r w = Some (r, w)"

section \<open>Socket\<close>

record socket =
  sock_fd :: int

definition kInvalidFd :: int where
  "kInvalidFd = -1"

definition new_socket :: socket where
  "new_socket = \<lparr>sock_fd = kInvalidFd\<rparr>"

definition socket_valid :: "socket \<Rightarrow> bool" where
  "socket_valid s \<longleftrightarrow> sock_fd s \<noteq> kInvalidFd"

definition socket_release :: "socket \<Rightarrow> int \<times> socket" where
  "socket_release s = (sock_fd s, s\<lparr>sock_fd := kInvalidFd\<rparr>)"

definition socket_close :: "'w os \<Rightarrow> socket \<Rightarrow> 'w \<Rightarrow> socket \<times> 'w" where
  "socket_close os s w =
     (if sock_fd s \<noteq> kInvalidFd then (s\<lparr>sock_fd := kInvalidFd\<rparr>, os_close os (sock_fd s) w)
      else (s, w))"

definition socket_fd :: "socket \<Rightarrow> int" where
  "socket_fd s = sock_fd s"

text \<open>The move constructor: the new socket and the source after it. The destructor closes.\<close>

definition socket_move :: "socket \<Rightarrow> socket \<times> socket" where
  "socket_move other = (let (fd, other) = socket_release other in (\<lparr>sock_fd = fd\<rparr>, other))"

definition socket_destroy :: "'w os \<Rightarrow> socket \<Rightarrow> 'w \<Rightarrow> 'w" where
  "socket_destroy os s w = snd (socket_close os s w)"

text \<open>Move assignment from another object; returns the target and the source after it.\<close>

definition socket_move_assign :: "'w os \<Rightarrow> socket \<Rightarrow> socket \<Rightarrow> 'w \<Rightarrow> (socket \<times> socket) \<times> 'w" where
  "socket_move_assign os s other w =
     (let (s, w) = socket_close os s w; (fd, other) = socket_release other
      in ((s\<lparr>sock_fd := fd\<rparr>, other), w))"

text \<open>Division and remainder of C++ truncate towards zero; timeouts are not negative.\<close>

definition set_recv_timeout :: "'w os \<Rightarrow> int \<Rightarrow> socket \<Rightarrow> 'w \<Rightarrow> bool \<times> 'w" where
  "set_recv_timeout os ms s w =
     (let sgn_q = sgn ms * (\<bar>ms\<bar> div 1000); sgn_r = sgn ms * (\<bar>ms\<bar> mod 1000);
          (rc, w') = os_setsockopt_rcvtimeo os (sock_fd s) sgn_q (sgn_r * 1000) w
      in (rc = 0, w'))"

section \<open>Resolving and connecting\<close>

fun decimal_digits :: "nat \<Rightarrow> string" where
  "decimal_digits n =
     (if n < 10 then [char_of (48 + n)] else decimal_digits (n div 10) @ [char_of (48 + n mod 10)])"

declare decimal_digits.simps [simp del]

definition default_resolve_host ::
    "'w os \<Rightarrow> string \<Rightarrow> u16 \<Rightarrow> 'w \<Rightarrow> ResolvedAddr list result \<times> 'w" where
  "default_resolve_host os host port w =
     (let port_str = decimal_digits (unat port);
          ((rc, res), w) = os_getaddrinfo os host port_str w
      in if rc \<noteq> 0 then
           (Err (StreamError ConnectFailed (''getaddrinfo: '' @ os_gai_strerror os rc)), w)
         else if res = [] then
           (Err (StreamError ConnectFailed (''no addresses resolved for '' @ host)), w)
         else (Ok res, w))"

definition INT_MAX :: int where
  "INT_MAX = 2147483647"

definition static_cast_int :: "int \<Rightarrow> int" where
  "static_cast_int n = sint (word_of_int n :: i32)"

text \<open>The loop of \<open>connect_with_timeout\<close> over the addresses.\<close>

fun connect_loop ::
    "'w os \<Rightarrow> string \<Rightarrow> u16 \<Rightarrow> int \<Rightarrow> ResolvedAddr list \<Rightarrow> 'w \<Rightarrow> socket result \<times> 'w" where
  "connect_loop os host port timeout [] w =
     (Err (StreamError ConnectFailed
        (''could not connect to '' @ host @ '':'' @ decimal_digits (unat port))), w)"
| "connect_loop os host port timeout (addr # addrs) w =
     (let (fd, w) = os_socket os (ra_family addr) (ra_socktype addr) (ra_protocol addr) w in
      if fd < 0 then connect_loop os host port timeout addrs w
      else
        let (flags, w) = os_fcntl_getfl os fd w;
            (nb, w) = (if flags < 0 then (-1, w)
                       else os_fcntl_setfl os fd (flags OR os_O_NONBLOCK os) w)
        in if flags < 0 \<or> nb < 0 then connect_loop os host port timeout addrs (os_close os fd w)
      else
        let ((rc, en), w) = os_connect os fd (ra_sockaddr addr) w in
        if rc = 0 then
          let (_, w) = os_fcntl_setfl os fd flags w in (Ok \<lparr>sock_fd = fd\<rparr>, w)
        else if en \<noteq> EINPROGRESS then connect_loop os host port timeout addrs (os_close os fd w)
      else
        let poll_ms = static_cast_int (min timeout INT_MAX);
            (pr, w) = os_poll_out os fd poll_ms w
        in if pr \<le> 0 then
             let w = os_close os fd w
             in if pr = 0 then
                  (Err (StreamError ConnectFailed (''connect timed out to '' @ host)), w)
                else connect_loop os host port timeout addrs w
      else
        let ((gr, so_err), w) = os_getsockopt_error os fd w in
        if gr < 0 \<or> so_err \<noteq> 0 then connect_loop os host port timeout addrs (os_close os fd w)
        else
          let (_, w) = os_fcntl_setfl os fd flags w in (Ok \<lparr>sock_fd = fd\<rparr>, w))"

definition connect_with_timeout ::
    "'w os \<Rightarrow> string \<Rightarrow> u16 \<Rightarrow> int \<Rightarrow> (string \<Rightarrow> u16 \<Rightarrow> 'w \<Rightarrow> ResolvedAddr list result \<times> 'w) \<Rightarrow>
     'w \<Rightarrow> socket result \<times> 'w" where
  "connect_with_timeout os host port timeout resolver w =
     (case resolver host port w of
        (Inl e, w) \<Rightarrow> (Err e, w)
      | (Inr addrs, w) \<Rightarrow> connect_loop os host port timeout addrs w)"

text \<open>The TLS scaffold: it never connects, so the socket it gives away is not valid.\<close>

record TlsSocket =
  tls_sock :: socket

definition new_TlsSocket :: TlsSocket where
  "new_TlsSocket = \<lparr>tls_sock = new_socket\<rparr>"

definition TlsSocket_connect :: "string \<Rightarrow> u16 \<Rightarrow> int \<Rightarrow> TlsSocket \<Rightarrow> unit result \<times> TlsSocket" where
  "TlsSocket_connect host port timeout tls =
     (Err (StreamError ConnectFailed ''TLS not yet implemented; use plain TCP (port 5552)''), tls)"

definition take_socket :: "TlsSocket \<Rightarrow> socket \<times> TlsSocket" where
  "take_socket tls = (let (s, other) = socket_move (tls_sock tls) in (s, tls\<lparr>tls_sock := other\<rparr>))"

section \<open>Sending and receiving\<close>

partial_function (option) write_all_loop :: "'w os \<Rightarrow> int \<Rightarrow> bytes \<Rightarrow> nat \<Rightarrow> ('w, unit) io" where
  "write_all_loop os fd data sent w =
     (if sent < length data then
        (case os_send os fd (drop sent data) w of
           ((n, en), w') \<Rightarrow>
             if n < 0 then
               if en = EINTR then write_all_loop os fd data sent w'
               else Some (Err (StreamError IoError (''send: '' @ os_strerror os en)), w')
             else if n = 0 then
               Some (Err (StreamError ConnectionClosed ''connection closed during send''), w')
             else write_all_loop os fd data (sent + nat n) w')
      else Some (Ok (), w))"

definition write_all :: "'w os \<Rightarrow> socket \<Rightarrow> bytes \<Rightarrow> ('w, unit) io" where
  "write_all os s data = write_all_loop os (sock_fd s) data 0"

datatype TimeoutMode = ReturnTimeout | TreatAsError

text \<open>\<open>dst\<close> holds the bytes received so far.\<close>

partial_function (option) read_exact_loop ::
    "'w os \<Rightarrow> int \<Rightarrow> nat \<Rightarrow> TimeoutMode \<Rightarrow> bytes \<Rightarrow> ('w, bytes) io" where
  "read_exact_loop os fd n mode dst w =
     (if length dst < n then
        (case os_recv os fd (n - length dst) w of
           ((r, bs, en), w') \<Rightarrow>
             if r > 0 then read_exact_loop os fd n mode (dst @ bs) w'
             else if r = 0 then
               Some (Err (StreamError ConnectionClosed ''peer closed connection''), w')
             else if en = EINTR then read_exact_loop os fd n mode dst w'
             else if (en = EAGAIN \<or> en = EWOULDBLOCK) \<and> mode = ReturnTimeout \<and> dst = [] then
               Some (Err (StreamError RequestTimeout ''recv timeout''), w')
             else Some (Err (StreamError IoError (''recv: '' @ os_strerror os en)), w'))
      else Some (Ok dst, w))"

definition read_exact :: "'w os \<Rightarrow> socket \<Rightarrow> nat \<Rightarrow> TimeoutMode \<Rightarrow> ('w, bytes) io" where
  "read_exact os s n mode = read_exact_loop os (sock_fd s) n mode []"

definition read_frame :: "'w os \<Rightarrow> socket \<Rightarrow> ('w, incoming_frame) io" where
  "read_frame os s =
     io_bind (read_exact os s 4 ReturnTimeout) (\<lambda>size_buf.
       let declared = (push_bit 24 (ucast (size_buf ! 0)) OR push_bit 16 (ucast (size_buf ! 1)) OR
                       push_bit 8 (ucast (size_buf ! 2)) OR ucast (size_buf ! 3) :: u32)
       in if declared < 4 then io_fail (StreamError ProtocolViolation ''frame Size < 4'')
          else io_bind (read_exact os s (unat declared) TreatAsError) (\<lambda>body.
            let full_frame = size_buf @ body;
                br = reader_of full_frame
            in io_lift (fst (read_frame_auto br))))"

section \<open>What the code relies on\<close>

text \<open>\<open>send\<close> accepts a prefix of the data, or nothing when it fails.\<close>

definition send_appends :: "'w os \<Rightarrow> int \<Rightarrow> ('w \<Rightarrow> bytes) \<Rightarrow> bool" where
  "send_appends os fd out \<longleftrightarrow>
     (\<forall>data w n en w'. os_send os fd data w = ((n, en), w') \<longrightarrow>
        n \<le> int (length data) \<and> out w' = out w @ take (nat n) data)"

text \<open>\<open>recv\<close> hands out the next bytes of the stream in order, at most as many as asked for.\<close>

definition recv_takes :: "'w os \<Rightarrow> int \<Rightarrow> ('w \<Rightarrow> bytes) \<Rightarrow> bool" where
  "recv_takes os fd inp \<longleftrightarrow>
     (\<forall>k w r bs en w'. os_recv os fd k w = ((r, bs, en), w') \<longrightarrow>
        (if 0 < r then length bs = nat r \<and> length bs \<le> k \<and> inp w = bs @ inp w'
         else inp w' = inp w))"

text \<open>Both directions of a connection: sending does not touch what is to come, nor receiving what went out.\<close>

definition send_keeps :: "'w os \<Rightarrow> int \<Rightarrow> ('w \<Rightarrow> 'v) \<Rightarrow> bool" where
  "send_keeps os fd v \<longleftrightarrow> (\<forall>data w. v (snd (os_send os fd data w)) = v w)"

definition recv_keeps :: "'w os \<Rightarrow> int \<Rightarrow> ('w \<Rightarrow> 'v) \<Rightarrow> bool" where
  "recv_keeps os fd v \<longleftrightarrow> (\<forall>k w. v (snd (os_recv os fd k w)) = v w)"

definition tcp_stream :: "'w os \<Rightarrow> int \<Rightarrow> ('w \<Rightarrow> bytes) \<Rightarrow> ('w \<Rightarrow> bytes) \<Rightarrow> bool" where
  "tcp_stream os fd out inp \<longleftrightarrow>
     send_appends os fd out \<and> recv_takes os fd inp \<and> send_keeps os fd inp \<and> recv_keeps os fd out"

text \<open>Only finitely many signals interrupt a call in a row.\<close>

definition interrupts_bounded :: "'w os \<Rightarrow> int \<Rightarrow> ('w \<Rightarrow> nat) \<Rightarrow> bool" where
  "interrupts_bounded os fd budget \<longleftrightarrow>
     (\<forall>data w n w'. os_send os fd data w = ((n, EINTR), w') \<and> n < 0 \<longrightarrow> budget w' < budget w) \<and>
     (\<forall>k w r bs w'. os_recv os fd k w = ((r, bs, EINTR), w') \<and> r < 0 \<longrightarrow> budget w' < budget w)"

text \<open>The connection delivers: while bytes are to come, \<open>recv\<close> returns some or is interrupted.\<close>

definition recv_delivers :: "'w os \<Rightarrow> int \<Rightarrow> ('w \<Rightarrow> bytes) \<Rightarrow> bool" where
  "recv_delivers os fd inp \<longleftrightarrow>
     (\<forall>k w r bs en w'. 0 < k \<and> inp w \<noteq> [] \<and> os_recv os fd k w = ((r, bs, en), w') \<longrightarrow>
        0 < r \<or> r < 0 \<and> en = EINTR)"

text \<open>The connection accepts: \<open>send\<close> takes some bytes or is interrupted.\<close>

definition send_accepts :: "'w os \<Rightarrow> int \<Rightarrow> bool" where
  "send_accepts os fd \<longleftrightarrow>
     (\<forall>data w n en w'. data \<noteq> [] \<and> os_send os fd data w = ((n, en), w') \<longrightarrow>
        0 < n \<or> n < 0 \<and> en = EINTR)"

text \<open>
  The descriptor table: \<open>socket\<close> returns a new descriptor or fails, \<open>close\<close> frees one, the other
  calls of \<open>connect_with_timeout\<close> leave the table alone.
\<close>

definition fd_table :: "'w os \<Rightarrow> ('w \<Rightarrow> int set) \<Rightarrow> bool" where
  "fd_table os fds \<longleftrightarrow>
     (\<forall>f t p w fd w'. os_socket os f t p w = (fd, w') \<longrightarrow>
        (if 0 \<le> fd then fd \<notin> fds w \<and> fds w' = insert fd (fds w) else fds w' = fds w)) \<and>
     (\<forall>fd w. fds (os_close os fd w) = fds w - {fd}) \<and>
     (\<forall>fd w. fds (snd (os_fcntl_getfl os fd w)) = fds w) \<and>
     (\<forall>fd fl w. fds (snd (os_fcntl_setfl os fd fl w)) = fds w) \<and>
     (\<forall>fd a w. fds (snd (os_connect os fd a w)) = fds w) \<and>
     (\<forall>fd t w. fds (snd (os_poll_out os fd t w)) = fds w) \<and>
     (\<forall>fd w. fds (snd (os_getsockopt_error os fd w)) = fds w)"

section \<open>Sequencing\<close>

lemma io_bind_SomeE:
  assumes "io_bind m f w = Some (r, w'')"
  obtains (err) e where "m w = Some (Err e, w'')" and "r = Err e"
    | (ok) x w' where "m w = Some (Ok x, w')" and "f x w' = Some (r, w'')"
  using assms by (auto simp: io_bind_def split: option.splits prod.splits sum.splits)

lemma io_bind_Ok [simp]: "m w = Some (Ok x, w') \<Longrightarrow> io_bind m f w = f x w'"
  by (simp add: io_bind_def)

lemma io_bind_Err [simp]: "m w = Some (Err e, w') \<Longrightarrow> io_bind m f w = Some (Err e, w')"
  by (simp add: io_bind_def)

lemma io_simps [simp]:
  "io_return x w = Some (Ok x, w)" "io_fail e w = Some (Err e, w)" "io_lift r w = Some (r, w)"
  by (simp_all add: io_return_def io_fail_def io_lift_def)

text \<open>An operation that always returns; closed under sequencing.\<close>

definition io_returns :: "('w, 'a) io \<Rightarrow> bool" where
  "io_returns m \<longleftrightarrow> (\<forall>w. \<exists>res. m w = Some res)"

lemma io_returnsI: "(\<And>w. \<exists>res. m w = Some res) \<Longrightarrow> io_returns m"
  unfolding io_returns_def by blast

lemma io_returns_basic [returns_intros]:
  "io_returns (io_return x)" "io_returns (io_fail e)" "io_returns (io_lift r)"
  by (simp_all add: io_returns_def)

lemma io_returns_bind [returns_intros]:
  assumes "io_returns m" and "\<And>x. io_returns (f x)"
  shows "io_returns (io_bind m f)"
proof (rule io_returnsI)
  fix w
  obtain r w' where "m w = Some (r, w')" using assms(1) unfolding io_returns_def by fastforce
  then show "\<exists>res. io_bind m f w = Some res"
    using assms(2) unfolding io_returns_def by (cases r) (simp_all add: io_bind_def)
qed

lemma io_returns_If [returns_intros]:
  "io_returns m \<Longrightarrow> io_returns m' \<Longrightarrow> io_returns (if b then m else m')"
  by simp

text \<open>An operation that leaves the view \<open>v\<close> of the world alone, whatever its result.\<close>

definition io_keeps :: "('w \<Rightarrow> 'v) \<Rightarrow> ('w, 'a) io \<Rightarrow> bool" where
  "io_keeps v m \<longleftrightarrow> (\<forall>w r w'. m w = Some (r, w') \<longrightarrow> v w' = v w)"

lemma io_keepsI: "(\<And>w r w'. m w = Some (r, w') \<Longrightarrow> v w' = v w) \<Longrightarrow> io_keeps v m"
  unfolding io_keeps_def by blast

lemma io_keepsD: "io_keeps v m \<Longrightarrow> m w = Some (r, w') \<Longrightarrow> v w' = v w"
  unfolding io_keeps_def by blast

lemma io_keeps_basic [keeps_intros]:
  "io_keeps v (io_return x)" "io_keeps v (io_fail e)" "io_keeps v (io_lift r)"
  by (simp_all add: io_keeps_def)

lemma io_keeps_bind [keeps_intros]:
  assumes "io_keeps v m" and "\<And>x. io_keeps v (f x)"
  shows "io_keeps v (io_bind m f)"
proof (rule io_keepsI)
  fix w r w'
  assume "io_bind m f w = Some (r, w')"
  then show "v w' = v w"
    by (cases rule: io_bind_SomeE) (auto dest!: io_keepsD [OF assms(1)] io_keepsD [OF assms(2)])
qed

lemma io_keeps_If [keeps_intros]:
  "io_keeps v m \<Longrightarrow> io_keeps v m' \<Longrightarrow> io_keeps v (if b then m else m')"
  by simp

section \<open>Sending\<close>

lemma send_appendsD:
  assumes "send_appends os fd out" and "os_send os fd data w = ((n, en), w')"
  shows "n \<le> int (length data)" "out w' = out w @ take (nat n) data"
  using assms unfolding send_appends_def by blast+

text \<open>A result of the loop: a prefix of the rest was accepted, all of it on success.\<close>

definition wrote :: "('w \<Rightarrow> bytes) \<Rightarrow> bytes \<Rightarrow> 'w \<Rightarrow> unit result \<times> 'w \<Rightarrow> bool" where
  "wrote out rest w res \<longleftrightarrow>
     (\<exists>k \<le> length rest. out (snd res) = out w @ take k rest \<and>
        (case fst res of
           Inr _ \<Rightarrow> k = length rest
         | Inl e \<Rightarrow> k < length rest \<and> kind e \<in> {IoError, ConnectionClosed}))"

lemma wrote_later:
  assumes "wrote out (drop m rest) w' res" and "out w' = out w @ take m rest" and "m \<le> length rest"
  shows "wrote out rest w res"
proof -
  from assms(1) obtain k where k: "k \<le> length rest - m"
    "out (snd res) = out w' @ take k (drop m rest)"
    "case fst res of Inr _ \<Rightarrow> k = length rest - m
       | Inl e \<Rightarrow> k < length rest - m \<and> kind e \<in> {IoError, ConnectionClosed}"
    unfolding wrote_def length_drop by blast
  have "take m rest @ take k (drop m rest) = take (m + k) rest"
    by (simp add: take_add)
  with k assms(2,3) show ?thesis
    unfolding wrote_def by (intro exI [of _ "m + k"]) (auto split: sum.splits)
qed

lemma write_all_loop_wrote:
  assumes "write_all_loop os fd data sent w = Some res"
  shows "send_appends os fd out \<longrightarrow> wrote out (drop sent data) w res"
proof (rule write_all_loop.raw_induct [where P = "\<lambda>os fd data sent w res.
      send_appends os fd out \<longrightarrow> wrote out (drop sent data) w res"], goal_cases)
  case (1 loop os fd data sent w res)
  note IH = 1(1) and body = 1(2)
  show ?case
  proof (rule impI, cases "sent < length data")
    case False
    with body show "wrote out (drop sent data) w res" by (auto simp: wrote_def)
  next
    assume os: "send_appends os fd out"
    case True
    obtain n en w' where call: "os_send os fd (drop sent data) w = ((n, en), w')"
      by (metis prod.exhaust)
    note sent = send_appendsD [OF os call]
    consider "n < 0 \<and> en = EINTR" | "n < 0 \<and> en \<noteq> EINTR" | "n = 0" | "0 < n" by linarith
    then show "wrote out (drop sent data) w res"
    proof cases
      case 1
      with body True call have "loop os fd data sent w' = Some res" by simp
      from IH [OF this] os 1 sent show ?thesis by (simp add: wrote_def)
    next
      case 2
      with body True call sent show ?thesis by (auto simp: wrote_def)
    next
      case 3
      with body True call sent show ?thesis by (auto simp: wrote_def)
    next
      case 4
      with body True call have "loop os fd data (sent + nat n) w' = Some res" by simp
      from IH [OF this] os have "wrote out (drop (nat n) (drop sent data)) w' res"
        by (simp add: add.commute)
      then show ?thesis by (rule wrote_later) (use sent 4 in auto)
    qed
  qed
qed (rule assms)

lemma write_all_loop_returns:
  assumes "interrupts_bounded os fd budget"
  shows "\<exists>res. write_all_loop os fd data sent w = Some res"
proof (induction "(length data - sent, budget w)" arbitrary: sent w
    rule: wf_induct_rule [OF wf_lex_prod [OF wf_less_than wf_less_than]])
  case 1
  note IH = 1
  obtain n en w' where call: "os_send os fd (drop sent data) w = ((n, en), w')"
    by (metis prod.exhaust)
  show ?case
  proof (cases "sent < length data")
    case False
    then show ?thesis by (subst write_all_loop.simps) simp
  next
    case True
    consider "n < 0 \<and> en = EINTR" | "n < 0 \<and> en \<noteq> EINTR" | "n = 0" | "0 < n" by linarith
    then show ?thesis
    proof cases
      case 1
      with call assms have "budget w' < budget w" unfolding interrupts_bounded_def by blast
      then have "\<exists>res. write_all_loop os fd data sent w' = Some res" by (intro IH) simp
      with 1 True call show ?thesis by (subst write_all_loop.simps) simp
    next
      case 4
      with True have "\<exists>res. write_all_loop os fd data (sent + nat n) w' = Some res"
        by (intro IH) auto
      with 4 True call show ?thesis by (subst write_all_loop.simps) simp
    qed (use True call in \<open>subst write_all_loop.simps, simp\<close>)+
  qed
qed

lemma write_all_wrote:
  "write_all os s data w = Some res \<Longrightarrow> send_appends os (sock_fd s) out \<Longrightarrow> wrote out data w res"
  unfolding write_all_def using write_all_loop_wrote by fastforce

text \<open>A view of the world that \<open>send\<close> leaves alone is left alone by the loop.\<close>

lemma write_all_loop_keeps:
  assumes "write_all_loop os fd data sent w = Some res"
  shows "send_keeps os fd v \<longrightarrow> v (snd res) = v w"
proof (rule write_all_loop.raw_induct [where P = "\<lambda>os fd data sent w res.
      send_keeps os fd v \<longrightarrow> v (snd res) = v w"], goal_cases)
  case (1 loop os fd data sent w res)
  note IH = 1(1) and body = 1(2)
  show ?case
  proof
    assume keeps: "send_keeps os fd v"
    obtain n en w' where call: "os_send os fd (drop sent data) w = ((n, en), w')"
      by (metis prod.exhaust)
    have "v w' = v w" using keeps call unfolding send_keeps_def by (metis snd_conv)
    moreover have "v (snd res) = v w'" if "loop os fd data sent' w' = Some res" for sent'
      using IH [OF that] keeps by blast
    ultimately show "v (snd res) = v w" using body call by (auto split: if_splits)
  qed
qed (rule assms)

lemma write_all_keeps:
  assumes "write_all os s data w = Some (r, w')" and "send_keeps os (sock_fd s) v"
  shows "v w' = v w"
  using write_all_loop_keeps [OF assms(1) [unfolded write_all_def], of v] assms(2) by simp

lemma write_all_loop_succeeds:
  assumes "interrupts_bounded os fd budget" and "send_accepts os fd"
  shows "\<exists>w'. write_all_loop os fd data sent w = Some (Ok (), w')"
proof (induction "(length data - sent, budget w)" arbitrary: sent w
    rule: wf_induct_rule [OF wf_lex_prod [OF wf_less_than wf_less_than]])
  case 1
  note IH = 1
  obtain n en w' where call: "os_send os fd (drop sent data) w = ((n, en), w')"
    by (metis prod.exhaust)
  show ?case
  proof (cases "sent < length data")
    case False
    then show ?thesis by (subst write_all_loop.simps) simp
  next
    case True
    with assms(2) call have "0 < n \<or> n < 0 \<and> en = EINTR"
      unfolding send_accepts_def by (metis drop_eq_Nil not_le)
    then show ?thesis
    proof
      assume "0 < n"
      with True have "\<exists>w''. write_all_loop os fd data (sent + nat n) w' = Some (Ok (), w'')"
        by (intro IH) auto
      with \<open>0 < n\<close> True call show ?thesis by (subst write_all_loop.simps) simp
    next
      assume n: "n < 0 \<and> en = EINTR"
      with call assms have "budget w' < budget w" unfolding interrupts_bounded_def by blast
      then have "\<exists>w''. write_all_loop os fd data sent w' = Some (Ok (), w'')" by (intro IH) simp
      with n True call show ?thesis by (subst write_all_loop.simps) simp
    qed
  qed
qed

section \<open>Receiving\<close>

lemma recv_takesD:
  assumes "recv_takes os fd inp" and "os_recv os fd k w = ((r, bs, en), w')"
  shows "0 < r \<Longrightarrow> length bs = nat r \<and> length bs \<le> k \<and> inp w = bs @ inp w'"
    and "\<not> 0 < r \<Longrightarrow> inp w' = inp w"
  using assms unfolding recv_takes_def by (metis (full_types))+

text \<open>
  A result of the loop that started with \<open>dst\<close>: the bytes read are the next ones of the stream;
  a timeout is reported only when nothing was read.
\<close>

definition got :: "('w \<Rightarrow> bytes) \<Rightarrow> nat \<Rightarrow> TimeoutMode \<Rightarrow> bytes \<Rightarrow> 'w \<Rightarrow> bytes result \<times> 'w \<Rightarrow> bool" where
  "got inp n mode dst w res \<longleftrightarrow>
     (\<exists>bs. inp w = bs @ inp (snd res) \<and>
        (case fst res of
           Inr out \<Rightarrow> out = dst @ bs \<and> length out = n
         | Inl e \<Rightarrow> length (dst @ bs) < n \<and> kind e \<in> {IoError, ConnectionClosed, RequestTimeout} \<and>
             (kind e = RequestTimeout \<longrightarrow> dst @ bs = [] \<and> mode = ReturnTimeout)))"

lemma got_later:
  assumes "got inp n mode (dst @ bs) w' res" and "inp w = bs @ inp w'"
  shows "got inp n mode dst w res"
proof -
  from assms(1) obtain bs' where "inp w' = bs' @ inp (snd res)"
    "case fst res of
       Inr out \<Rightarrow> out = (dst @ bs) @ bs' \<and> length out = n
     | Inl e \<Rightarrow> length ((dst @ bs) @ bs') < n \<and> kind e \<in> {IoError, ConnectionClosed, RequestTimeout} \<and>
         (kind e = RequestTimeout \<longrightarrow> (dst @ bs) @ bs' = [] \<and> mode = ReturnTimeout)"
    unfolding got_def by blast
  with assms(2) show ?thesis
    unfolding got_def by (intro exI [of _ "bs @ bs'"]) (auto split: sum.splits)
qed

lemma read_exact_loop_got:
  assumes "read_exact_loop os fd n mode dst w = Some res"
  shows "recv_takes os fd inp \<and> length dst \<le> n \<longrightarrow> got inp n mode dst w res"
proof (rule read_exact_loop.raw_induct [where P = "\<lambda>os fd n mode dst w res.
      recv_takes os fd inp \<and> length dst \<le> n \<longrightarrow> got inp n mode dst w res"], goal_cases)
  case (1 loop os fd n mode dst w res)
  note IH = 1(1) and body = 1(2)
  show ?case
  proof (rule impI, cases "length dst < n")
    assume "recv_takes os fd inp \<and> length dst \<le> n"
    moreover case False
    ultimately show "got inp n mode dst w res" using body by (auto simp: got_def)
  next
    assume pre: "recv_takes os fd inp \<and> length dst \<le> n"
    then have os: "recv_takes os fd inp" by simp
    case True
    obtain r bs en w' where call: "os_recv os fd (n - length dst) w = ((r, bs, en), w')"
      by (metis prod.exhaust)
    note recv = recv_takesD [OF os call]
    consider "0 < r" | "r < 0 \<and> en = EINTR" | "r \<le> 0 \<and> \<not> (r < 0 \<and> en = EINTR)" by linarith
    then show "got inp n mode dst w res"
    proof cases
      case 1
      with body True call have "loop os fd n mode (dst @ bs) w' = Some res" by simp
      moreover have "length (dst @ bs) \<le> n" using recv(1) [OF 1] True by auto
      ultimately have "got inp n mode (dst @ bs) w' res" using IH os by blast
      then show ?thesis by (rule got_later) (use recv(1) [OF 1] in simp)
    next
      case 2
      with body True call have "loop os fd n mode dst w' = Some res" by simp
      from IH [OF this] pre recv(2) 2 show ?thesis by (simp add: got_def)
    next
      case 3
      with body True call recv(2) show ?thesis by (auto simp: got_def split: if_splits)
    qed
  qed
qed (rule assms)

lemma read_exact_got:
  "read_exact os s n mode w = Some res \<Longrightarrow> recv_takes os (sock_fd s) inp \<Longrightarrow> got inp n mode [] w res"
  unfolding read_exact_def using read_exact_loop_got by fastforce

lemma read_exact_loop_returns:
  assumes "interrupts_bounded os fd budget" and "recv_takes os fd inp"
  shows "\<exists>res. read_exact_loop os fd n mode dst w = Some res"
proof (induction "(n - length dst, budget w)" arbitrary: dst w
    rule: wf_induct_rule [OF wf_lex_prod [OF wf_less_than wf_less_than]])
  case 1
  note IH = 1
  obtain r bs en w' where call: "os_recv os fd (n - length dst) w = ((r, bs, en), w')"
    by (metis prod.exhaust)
  show ?case
  proof (cases "length dst < n")
    case False
    then show ?thesis by (subst read_exact_loop.simps) simp
  next
    case True
    consider "0 < r" | "r < 0 \<and> en = EINTR" | "r \<le> 0 \<and> \<not> (r < 0 \<and> en = EINTR)" by linarith
    then show ?thesis
    proof cases
      case 1
      with recv_takesD(1) [OF assms(2) call] have "0 < length bs" by auto
      with True have "n - length (dst @ bs) < n - length dst"
        unfolding length_append by linarith
      then have "\<exists>res. read_exact_loop os fd n mode (dst @ bs) w' = Some res"
        by (intro IH) simp
      with 1 True call show ?thesis by (subst read_exact_loop.simps) simp
    next
      case 2
      with call assms(1) have "budget w' < budget w" unfolding interrupts_bounded_def by blast
      then have "\<exists>res. read_exact_loop os fd n mode dst w' = Some res" by (intro IH) simp
      with 2 True call show ?thesis by (subst read_exact_loop.simps) simp
    next
      case 3
      with True call show ?thesis by (subst read_exact_loop.simps) auto
    qed
  qed
qed

lemma read_exact_loop_delivers:
  assumes "interrupts_bounded os fd budget" and "recv_takes os fd inp" and "recv_delivers os fd inp"
    and "inp w = bs @ s" and "length dst + length bs = n"
  shows "\<exists>w'. read_exact_loop os fd n mode dst w = Some (Ok (dst @ bs), w') \<and> inp w' = s"
  using assms(4,5)
proof (induction "(length bs, budget w)" arbitrary: dst bs w
    rule: wf_induct_rule [OF wf_lex_prod [OF wf_less_than wf_less_than]])
  case 1
  note IH = 1(1) and prems = 1(2,3)
  show ?case
  proof (cases "bs = []")
    case True
    with prems show ?thesis by (subst read_exact_loop.simps) simp
  next
    case False
    with prems have n: "length dst < n" "inp w \<noteq> []" by auto
    obtain r bs' en w' where call: "os_recv os fd (n - length dst) w = ((r, bs', en), w')"
      by (metis prod.exhaust)
    with n assms(3) have "0 < r \<or> r < 0 \<and> en = EINTR"
      unfolding recv_delivers_def by (metis zero_less_diff)
    then show ?thesis
    proof
      assume r: "0 < r"
      with recv_takesD(1) [OF assms(2) call] have recv: "0 < length bs'" "length bs' \<le> length bs"
        "bs @ s = bs' @ inp w'" using prems by auto
      then obtain bs'' where bs: "bs = bs' @ bs''" "inp w' = bs'' @ s"
        by (auto simp: append_eq_append_conv2)
      with recv(1) prems(2) have "\<exists>w''. read_exact_loop os fd n mode (dst @ bs') w' =
          Some (Ok ((dst @ bs') @ bs''), w'') \<and> inp w'' = s"
        by (intro IH) auto
      with r n(1) call bs show ?thesis by (subst read_exact_loop.simps) simp
    next
      assume r: "r < 0 \<and> en = EINTR"
      with call assms(1) have "budget w' < budget w" unfolding interrupts_bounded_def by blast
      moreover have "inp w' = bs @ s" using recv_takesD(2) [OF assms(2) call] r prems(1) by simp
      ultimately have "\<exists>w''. read_exact_loop os fd n mode dst w' = Some (Ok (dst @ bs), w'') \<and> inp w'' = s"
        using prems(2) by (intro IH) simp_all
      with r n(1) call show ?thesis by (subst read_exact_loop.simps) simp
    qed
  qed
qed

lemma read_exact_loop_keeps:
  assumes "read_exact_loop os fd n mode dst w = Some res"
  shows "recv_keeps os fd v \<longrightarrow> v (snd res) = v w"
proof (rule read_exact_loop.raw_induct [where P = "\<lambda>os fd n mode dst w res.
      recv_keeps os fd v \<longrightarrow> v (snd res) = v w"], goal_cases)
  case (1 loop os fd n mode dst w res)
  note IH = 1(1) and body = 1(2)
  show ?case
  proof
    assume keeps: "recv_keeps os fd v"
    obtain r bs en w' where call: "os_recv os fd (n - length dst) w = ((r, bs, en), w')"
      by (metis prod.exhaust)
    have "v w' = v w" using keeps call unfolding recv_keeps_def by (metis snd_conv)
    moreover have "v (snd res) = v w'" if "loop os fd n mode dst' w' = Some res" for dst'
      using IH [OF that] keeps by blast
    ultimately show "v (snd res) = v w" using body call by (auto split: if_splits)
  qed
qed (rule assms)

lemma read_exact_keeps:
  assumes "read_exact os s n mode w = Some (r, w')" and "recv_keeps os (sock_fd s) v"
  shows "v w' = v w"
  using read_exact_loop_keeps [OF assms(1) [unfolded read_exact_def], of v] assms(2) by simp

section \<open>Reading frames\<close>

lemma size_buf_declared:
  "length size_buf = 4 \<Longrightarrow>
   push_bit 24 (ucast (size_buf ! 0)) OR push_bit 16 (ucast (size_buf ! 1)) OR
   push_bit 8 (ucast (size_buf ! 2)) OR ucast (size_buf ! 3) = (be_join size_buf :: u32)"
  using take_4 [of size_buf] be_join_4 [of "size_buf ! 0" "size_buf ! 1" "size_buf ! 2" "size_buf ! 3"]
  by simp

text \<open>The two reads and the parse of one frame.\<close>

lemma read_frame_cases:
  assumes "read_frame os s w = Some (res, w'')" and "recv_takes os (sock_fd s) inp"
  obtains (size_err) e where "res = Err e" and "got inp 4 ReturnTimeout [] w (Err e, w'')"
  | (too_small) size_buf where "res = Err frame_too_small" and "inp w = size_buf @ inp w''"
      and "length size_buf = 4" and "(be_join size_buf :: u32) < 4"
  | (body_err) size_buf w' e where "res = Err e" and "inp w = size_buf @ inp w'"
      and "length size_buf = 4"
      and "got inp (unat (be_join size_buf :: u32)) TreatAsError [] w' (Err e, w'')"
  | (parsed) size_buf body where "res = fst (read_frame_auto (reader_of (size_buf @ body)))"
      and "inp w = (size_buf @ body) @ inp w''" and "length size_buf = 4"
      and "length body = unat (be_join size_buf :: u32)"
proof -
  let ?rest = "\<lambda>size_buf. if (be_join size_buf :: u32) < 4 then io_fail frame_too_small
      else io_bind (read_exact os s (unat (be_join size_buf :: u32)) TreatAsError)
        (\<lambda>body. io_lift (fst (read_frame_auto (reader_of (size_buf @ body)))))"
  from assms(1) show thesis unfolding read_frame_def
  proof (cases rule: io_bind_SomeE)
    case (err e)
    with size_err read_exact_got [OF err(1) assms(2)] show thesis by simp
  next
    case (ok size_buf w')
    from read_exact_got [OF ok(1) assms(2)] have size: "inp w = size_buf @ inp w'" "length size_buf = 4"
      by (auto simp: got_def)
    from ok(2) have rest: "?rest size_buf w' = Some (res, w'')"
      by (simp only: size_buf_declared [OF size(2)] frame_too_small_def Let_def)
    show thesis
    proof (cases "(be_join size_buf :: u32) < 4")
      case True
      with rest size too_small show thesis by simp
    next
      case False
      with rest have "io_bind (read_exact os s (unat (be_join size_buf :: u32)) TreatAsError)
          (\<lambda>body. io_lift (fst (read_frame_auto (reader_of (size_buf @ body))))) w' = Some (res, w'')"
        by simp
      then show thesis
      proof (cases rule: io_bind_SomeE)
        case (err e)
        with size body_err read_exact_got [OF err(1) assms(2)] show thesis by blast
      next
        case (ok body w1)
        with read_exact_got [OF ok(1) assms(2)] size parsed show thesis by (auto simp: got_def)
      qed
    qed
  qed
qed

lemma read_frame_socket_sound:
  assumes "read_frame os s w = Some (Ok f, w')" and "recv_takes os (sock_fd s) inp"
  shows "valid_frame f \<and> inp w = enc_frame f @ inp w'"
  using assms
proof (cases rule: read_frame_cases)
  case (parsed size_buf body)
  let ?d = "be_join size_buf :: u32"
  from parsed(1) obtain r' where r': "read_frame_auto (reader_at [] (size_buf @ body)) = (Ok f, r')"
    by (metis prod.collapse reader_of_at)
  have "length (size_buf @ body) < 2 ^ 63"
    using parsed(3,4) unsigned_less [of ?d, where ?'a = nat] by simp
  then have "fits (size_buf @ body)" by (simp add: fits_def)
  from read_frame_sound [OF r' this] obtain t where f: "valid_frame f" "size_buf @ body = enc_frame f @ t"
    by blast
  have "size_buf = be_split 4 (word_of_nat (frame_size f) :: u32)"
    using f(2) parsed(3) by (simp add: enc_frame_def append_eq_append_conv)
  then have "unat ?d = frame_size f"
    using f(1) by (simp add: be_join_split unat_of_nat valid_frame_def)
  with f(2) parsed(3,4) have "t = []"
    using length_enc_frame [of f] by (metis add_cancel_left_right length_0_conv length_append)
  with f parsed(2) show ?thesis by simp
qed simp_all

lemma read_frame_timeout:
  assumes "read_frame os s w = Some (Err e, w')" and "recv_takes os (sock_fd s) inp"
    and "kind e = RequestTimeout"
  shows "inp w' = inp w"
  using assms(1,2)
proof (cases rule: read_frame_cases)
  case (size_err e')
  with assms(3) show ?thesis by (auto simp: got_def)
next
  case (too_small size_buf)
  with assms(3) show ?thesis by (simp add: frame_too_small_def)
next
  case (body_err size_buf w1 e')
  with assms(3) show ?thesis by (auto simp: got_def)
next
  case (parsed size_buf body)
  then obtain r' where "read_frame_auto (reader_of (size_buf @ body)) = (Err e, r')"
    by (metis prod.collapse)
  from read_frame_errors [OF this] assms(3) show ?thesis by (auto simp: frame_too_small_def)
qed

lemma read_frame_delivers:
  assumes os: "interrupts_bounded os (sock_fd s) budget" "recv_takes os (sock_fd s) inp"
      "recv_delivers os (sock_fd s) inp"
    and f: "valid_frame f" "inp w = enc_frame f @ t"
  shows "\<exists>w'. read_frame os s w = Some (Ok f, w') \<and> inp w' = t"
proof -
  let ?d = "word_of_nat (frame_size f) :: u32"
  let ?body = "be_split 2 (fr_key f) @ be_split 2 (fr_version f) @ enc_cid (fr_cid f) @ fr_body f"
  have d: "unat ?d = frame_size f"
    using f(1) by (simp add: valid_frame_def unat_of_nat)
  have len: "length ?body = frame_size f"
    by (simp add: frame_size_def)
  have "\<exists>w1. read_exact os s 4 ReturnTimeout w = Some (Ok (be_split 4 ?d), w1) \<and> inp w1 = ?body @ t"
    unfolding read_exact_def
    using read_exact_loop_delivers [OF os, of w "be_split 4 ?d" "?body @ t" "[]" 4] f(2)
    by (simp add: enc_frame_def)
  then obtain w1 where w1: "read_exact os s 4 ReturnTimeout w = Some (Ok (be_split 4 ?d), w1)"
    "inp w1 = ?body @ t" by blast
  have "\<exists>w2. read_exact os s (unat ?d) TreatAsError w1 = Some (Ok ?body, w2) \<and> inp w2 = t"
    unfolding read_exact_def
    using read_exact_loop_delivers [OF os, of w1 ?body t "[]" "unat ?d"] w1(2) d len by simp
  then obtain w2 where w2: "read_exact os s (unat ?d) TreatAsError w1 = Some (Ok ?body, w2)"
    "inp w2 = t" by blast
  have "\<not> ?d < 4" using d by (simp add: word_less_nat_alt frame_size_def)
  moreover have "read_frame_auto (reader_of (enc_frame f)) = (Ok f, reader_at (enc_frame f) [])"
    using read_frame_enc [OF f(1), of "[]" "[]"] by (simp add: reader_of_at)
  ultimately have "read_frame os s w = Some (Ok f, w2)"
    using w1 w2 size_buf_declared [of "be_split 4 ?d"]
    by (simp add: read_frame_def be_join_split Let_def enc_frame_def)
  with w2 show ?thesis by blast
qed

lemma read_exact_returns [returns_intros]:
  "interrupts_bounded os (sock_fd s) budget \<Longrightarrow> recv_takes os (sock_fd s) inp \<Longrightarrow>
   io_returns (read_exact os s n mode)"
  unfolding read_exact_def by (intro io_returnsI read_exact_loop_returns)

lemma write_all_returns [returns_intros]:
  "interrupts_bounded os (sock_fd s) budget \<Longrightarrow> io_returns (write_all os s data)"
  unfolding write_all_def by (intro io_returnsI write_all_loop_returns)

lemma read_frame_returns [returns_intros]:
  assumes "interrupts_bounded os (sock_fd s) budget" and "recv_takes os (sock_fd s) inp"
  shows "io_returns (read_frame os s)"
  unfolding read_frame_def Let_def by (intro returns_intros read_exact_returns [OF assms])

lemma read_frame_keeps:
  assumes "read_frame os s w = Some (r, w')" and "recv_keeps os (sock_fd s) v"
  shows "v w' = v w"
  using assms(1) unfolding read_frame_def Let_def
  by (elim io_bind_SomeE)
    (auto split: if_splits elim!: io_bind_SomeE dest!: read_exact_keeps [OF _ assms(2)])

lemma transfer_keeps [keeps_intros]:
  "send_keeps os (sock_fd s) v \<Longrightarrow> io_keeps v (write_all os s data)"
  "recv_keeps os (sock_fd s) v \<Longrightarrow> io_keeps v (read_frame os s)"
  by (rule io_keepsI, rule write_all_keeps, assumption+)
    (rule io_keepsI, rule read_frame_keeps, assumption+)

text \<open>The facts about one frame sent and one frame received on a connection.\<close>

lemma tcp_write:
  assumes "write_all os s data w = Some (r, w')" and "tcp_stream os (sock_fd s) out inp"
  shows "inp w' = inp w" "r = Ok () \<Longrightarrow> out w' = out w @ data" "\<exists>k. out w' = out w @ take k data"
proof -
  have tcp: "send_appends os (sock_fd s) out" "send_keeps os (sock_fd s) inp"
    using assms(2) by (simp_all add: tcp_stream_def)
  show "inp w' = inp w"
    by (rule write_all_keeps [OF assms(1) tcp(2)])
  from write_all_wrote [OF assms(1) tcp(1)]
  show "r = Ok () \<Longrightarrow> out w' = out w @ data" "\<exists>k. out w' = out w @ take k data"
    by (auto simp: wrote_def)
qed

lemma tcp_read_frame:
  assumes "read_frame os s w = Some (r, w')" and "tcp_stream os (sock_fd s) out inp"
  shows "out w' = out w" "r = Ok f \<Longrightarrow> valid_frame f \<and> inp w = enc_frame f @ inp w'"
proof -
  have tcp: "recv_takes os (sock_fd s) inp" "recv_keeps os (sock_fd s) out"
    using assms(2) by (simp_all add: tcp_stream_def)
  show "out w' = out w"
    by (rule read_frame_keeps [OF assms(1) tcp(2)])
  show "valid_frame f \<and> inp w = enc_frame f @ inp w'" if "r = Ok f"
    by (rule read_frame_socket_sound [OF assms(1) [unfolded that] tcp(1)])
qed

section \<open>Descriptors\<close>

definition connect_outcome :: "('w \<Rightarrow> int set) \<Rightarrow> 'w \<Rightarrow> socket result \<times> 'w \<Rightarrow> bool" where
  "connect_outcome fds w res \<longleftrightarrow>
     (case fst res of
        Inr s \<Rightarrow> 0 \<le> sock_fd s \<and> sock_fd s \<notin> fds w \<and> fds (snd res) = insert (sock_fd s) (fds w)
      | Inl e \<Rightarrow> kind e = ConnectFailed \<and> fds (snd res) = fds w)"

lemma fd_tableD:
  assumes "fd_table os fds"
  shows "os_socket os f t p w = (fd, w') \<Longrightarrow> 0 \<le> fd \<Longrightarrow> fd \<notin> fds w \<and> fds w' = insert fd (fds w)"
    "os_socket os f t p w = (fd, w') \<Longrightarrow> fd < 0 \<Longrightarrow> fds w' = fds w"
    "fds (os_close os fd w) = fds w - {fd}"
    "os_fcntl_getfl os fd w = (n, w') \<Longrightarrow> fds w' = fds w"
    "os_fcntl_setfl os fd fl w = (n, w') \<Longrightarrow> fds w' = fds w"
    "os_connect os fd a w = (ne, w') \<Longrightarrow> fds w' = fds w"
    "os_poll_out os fd ms w = (n, w') \<Longrightarrow> fds w' = fds w"
    "os_getsockopt_error os fd w = (gr, w') \<Longrightarrow> fds w' = fds w"
  using assms unfolding fd_table_def by (metis not_le snd_conv)+

lemma connect_loop_connected:
  assumes "fd_table os fds"
  shows "connect_outcome fds w (connect_loop os host port timeout addrs w)"
proof (induction addrs arbitrary: w)
  case Nil
  show ?case by (simp add: connect_outcome_def)
next
  case (Cons addr addrs)
  note fds = fd_tableD [OF assms]
  have retry: "connect_outcome fds w (connect_loop os host port timeout addrs w1)" if "fds w1 = fds w" for w1
    using Cons.IH [of w1] that by (simp add: connect_outcome_def split: sum.splits)
  obtain fd w1 where 1: "os_socket os (ra_family addr) (ra_socktype addr) (ra_protocol addr) w = (fd, w1)"
    by fastforce
  show ?case
  proof (cases "fd < 0")
    case True
    with retry fds(2) [OF 1] show ?thesis by (simp add: 1)
  next
    case False
    with fds(1) [OF 1] have fd: "0 \<le> fd" "fd \<notin> fds w" "fds w1 = insert fd (fds w)" by auto
    have closed: "connect_outcome fds w (connect_loop os host port timeout addrs (os_close os fd w2))"
      "fds (os_close os fd w2) = fds w" if "fds w2 = fds w1" for w2
      using that fd by (auto simp: fds(3) intro!: retry)
    have opened: "connect_outcome fds w (Ok \<lparr>sock_fd = fd\<rparr>, w2)" if "fds w2 = fds w1" for w2
      using that fd by (simp add: connect_outcome_def)
    obtain flags w2 where 2: "os_fcntl_getfl os fd w1 = (flags, w2)" by fastforce
    obtain nb w3 where 3: "(if flags < 0 then (-1, w2)
        else os_fcntl_setfl os fd (flags OR os_O_NONBLOCK os) w2) = (nb, w3)" by fastforce
    obtain rc en w4 where 4: "os_connect os fd (ra_sockaddr addr) w3 = ((rc, en), w4)"
      by (metis prod.exhaust)
    obtain pr w5 where 5: "os_poll_out os fd (static_cast_int (min timeout INT_MAX)) w4 = (pr, w5)" by fastforce
    obtain gr so_err w6 where 6: "os_getsockopt_error os fd w5 = ((gr, so_err), w6)"
      by (metis prod.exhaust)
    obtain n7 w7 where 7: "os_fcntl_setfl os fd flags w4 = (n7, w7)" by fastforce
    obtain n8 w8 where 8: "os_fcntl_setfl os fd flags w6 = (n8, w8)" by fastforce
    have w: "fds w2 = fds w1" "fds w3 = fds w1" "fds w4 = fds w1" "fds w5 = fds w1" "fds w6 = fds w1"
      "fds w7 = fds w1" "fds w8 = fds w1"
      using fds(4) [OF 2] 3 fds(5) [of fd "flags OR os_O_NONBLOCK os" w2 nb w3] fds(6) [OF 4]
        fds(7) [OF 5] fds(8) [OF 6] fds(5) [OF 7] fds(5) [OF 8]
      by (auto split: if_splits)
    have "connect_outcome fds w (Err (StreamError ConnectFailed (''connect timed out to '' @ host)),
        os_close os fd w5)"
      using closed(2) [OF w(4)] by (simp add: connect_outcome_def)
    with False closed(1) opened w show ?thesis
      by (simp add: 1 2 3 4 5 6 7 8 Let_def)
  qed
qed

text \<open>Every descriptor is closed once: closing, moving and destroying pass it on or give it back.\<close>

lemma socket_close_fds:
  assumes "fd_table os fds"
  shows "fds (snd (socket_close os s w)) = (if socket_valid s then fds w - {sock_fd s} else fds w) \<and>
    \<not> socket_valid (fst (socket_close os s w))"
  using fd_tableD(3) [OF assms] by (simp add: socket_close_def socket_valid_def)

lemma socket_ownership:
  "socket_close os (fst (socket_close os s w)) w' = (fst (socket_close os s w), w')"
  "sock_fd (fst (socket_move s)) = sock_fd s \<and> \<not> socket_valid (snd (socket_move s))"
  "socket_destroy os (snd (socket_move s)) w = w"
  by (simp_all add: socket_close_def socket_move_def socket_release_def socket_valid_def socket_destroy_def)

lemma socket_move_assign_fds:
  assumes "fd_table os fds" and "socket_move_assign os s other w = ((s', other'), w')"
  shows "sock_fd s' = sock_fd other \<and> \<not> socket_valid other' \<and>
    fds w' = (if socket_valid s then fds w - {sock_fd s} else fds w)"
  using assms(2) fd_tableD(3) [OF assms(1)]
  by (auto simp: socket_move_assign_def socket_release_def socket_close_def socket_valid_def Let_def split: if_splits)

end
