(* ===== verification/Config.thy ===== *)
theory Config
  imports Errors
begin

text \<open>
  \<open>config.hpp\<close>, \<open>logger.hpp\<close> and \<open>close_reason.hpp\<close>: the connection configuration with its
  defaults and its validation, the log sink and the description of an unexpected close. The
  sink is a callback of the application, so it is a function on the world, as are the system
  calls. Durations are counted in milliseconds.
\<close>

datatype LogLevel = Debug | Info | Warn | Error

type_synonym 'w LogSink = "LogLevel \<Rightarrow> string \<Rightarrow> 'w \<Rightarrow> 'w"

definition null_logger :: "'w LogSink" where
  "null_logger level msg w = w"

record 'w ConnectionConfig =
  cfg_host :: string
  cfg_port :: u16
  cfg_virtual_host :: string
  cfg_username :: string
  cfg_password :: string
  cfg_connection_name :: string
  cfg_tls :: bool
  cfg_requested_heartbeat_seconds :: u32
  cfg_requested_frame_max_bytes :: u32
  cfg_connect_timeout :: int
  cfg_request_timeout :: int
  cfg_log :: "'w LogSink"

definition default_config :: "'w ConnectionConfig" where
  "default_config =
     \<lparr>cfg_host = ''localhost'', cfg_port = 5552, cfg_virtual_host = ''/'', cfg_username = ''guest'',
      cfg_password = ''guest'', cfg_connection_name = '''', cfg_tls = False,
      cfg_requested_heartbeat_seconds = 60, cfg_requested_frame_max_bytes = 1048576,
      cfg_connect_timeout = 30000, cfg_request_timeout = 10000, cfg_log = null_logger\<rparr>"

definition validate :: "'w ConnectionConfig \<Rightarrow> unit result" where
  "validate cfg =
     (if cfg_host cfg = [] then Err (StreamError ConfigurationError ''host must not be empty'')
      else if cfg_port cfg = 0 then Err (StreamError ConfigurationError ''port must be non-zero'')
      else if cfg_virtual_host cfg = [] then
        Err (StreamError ConfigurationError ''virtual_host must not be empty'')
      else Ok ())"

datatype CloseReason = PeerClosedSocket | HeartbeatTimeout | ProtocolViolationReason | IoErrorReason

record UnexpectedClose =
  uc_reason :: CloseReason
  uc_message :: string
  uc_during_handshake :: bool

lemma validate_Ok:
  "validate cfg = Ok () \<longleftrightarrow> cfg_host cfg \<noteq> [] \<and> cfg_port cfg \<noteq> 0 \<and> cfg_virtual_host cfg \<noteq> []"
  by (simp add: validate_def)

lemma validate_Err: "validate cfg = Err e \<Longrightarrow> kind e = ConfigurationError"
  by (auto simp: validate_def split: if_splits)

lemma validate_default: "validate default_config = Ok ()"
  by (simp add: validate_def default_config_def)

end
