(* ===== verification/Handshake.thy ===== *)
theory Handshake
  imports Commands Socket Config
begin

text \<open>
  \<open>handshake.hpp\<close> and \<open>handshake.cpp\<close>: the five steps of the authentication sequence on a
  connected socket (PeerProperties, SaslHandshake, SaslAuthenticate with its challenge loop, Tune,
  Open). Each numbered step of \<open>run_handshake\<close> is one definition; \<open>run_handshake\<close> chains them.
  The lemmas say what a step has written and consumed when it succeeds, and that the whole
  sequence always returns: every round of the challenge loop consumes bytes the peer delivered.
\<close>

section \<open>Sending and receiving commands\<close>

text \<open>The templates take the members of the command struct as arguments.\<close>

definition send_request ::
    "'w os \<Rightarrow> socket \<Rightarrow> (buffer_writer \<Rightarrow> 'c \<Rightarrow> buffer_writer) \<Rightarrow> u16 \<Rightarrow> u16 \<Rightarrow> 'c \<Rightarrow> u32 \<Rightarrow> u32 \<Rightarrow>
     ('w, unit) io" where
  "send_request os s encode_body key version cmd cid frame_max =
     (let body = encode_body empty_writer cmd;
          frame = encode_request_frame key version cid (bw_data body)
      in case check_outbound_frame_size (length frame - 4) frame_max of
           Inl e \<Rightarrow> io_fail e
         | Inr _ \<Rightarrow> write_all os s frame)"

definition send_oneway ::
    "'w os \<Rightarrow> socket \<Rightarrow> (buffer_writer \<Rightarrow> 'c \<Rightarrow> buffer_writer) \<Rightarrow> u16 \<Rightarrow> u16 \<Rightarrow> 'c \<Rightarrow> u32 \<Rightarrow> ('w, unit) io"
  where
  "send_oneway os s encode_body key version cmd frame_max =
     (let body = encode_body empty_writer cmd;
          frame = encode_oneway_frame key version (bw_data body)
      in case check_outbound_frame_size (length frame - 4) frame_max of
           Inl e \<Rightarrow> io_fail e
         | Inr _ \<Rightarrow> write_all os s frame)"

definition unexpected_key :: stream_error where
  "unexpected_key = StreamError ProtocolViolation ''unexpected frame key during handshake''"

definition cid_mismatch :: stream_error where
  "cid_mismatch = StreamError ProtocolViolation ''correlation id mismatch''"

definition recv_response :: "'w os \<Rightarrow> socket \<Rightarrow> u16 \<Rightarrow> 'r read_op \<Rightarrow> u32 \<Rightarrow> ('w, 'r) io" where
  "recv_response os s key decode_body expected_cid =
     io_bind (read_frame os s) (\<lambda>fr.
       if fr_key fr \<noteq> key then io_fail unexpected_key
       else if expected_cid \<noteq> 0 \<and> (fr_cid fr = None \<or> the (fr_cid fr) \<noteq> expected_cid) then
         io_fail cid_mismatch
       else io_lift (fst (decode_body (reader_of (fr_body fr)))))"

definition recv_oneway :: "'w os \<Rightarrow> socket \<Rightarrow> u16 \<Rightarrow> 'r read_op \<Rightarrow> ('w, 'r) io" where
  "recv_oneway os s key decode_body =
     io_bind (read_frame os s) (\<lambda>fr.
       if fr_key fr \<noteq> key then io_fail unexpected_key
       else io_lift (fst (decode_body (reader_of (fr_body fr)))))"

definition map_response_code :: "u16 \<Rightarrow> string \<Rightarrow> stream_error" where
  "map_response_code code context =
     (if code = rc_AuthenticationFailure \<or> code = rc_SaslAuthenticationFailureLoopback then
        StreamError AuthenticationFailed (''authentication failed: '' @ context)
      else if code = rc_SaslMechanismNotSupported then
        StreamError SaslMechanismNotSupported (''no supported SASL mechanism: '' @ context)
      else if code = rc_VirtualHostAccessFailure \<or> code = rc_AccessRefused then
        StreamError VirtualHostAccessDenied (''virtual host access denied: '' @ context)
      else StreamErrorCode ServerError (''server error '' @ context) code)"

section \<open>The steps\<close>

record HandshakeResult =
  hr_negotiated_frame_max :: u32
  hr_negotiated_heartbeat :: u32
  hr_server_properties :: "key_value list"
  hr_connection_properties :: "key_value list"

definition hs_log :: "'w ConnectionConfig \<Rightarrow> string \<Rightarrow> ('w, unit) io" where
  "hs_log cfg msg w = Some (Ok (), cfg_log cfg Debug (''[handshake] '' @ msg) w)"

text \<open>\<open>if (!x) { log(...); return err(x.error()); }\<close>\<close>

definition log_failure :: "'w ConnectionConfig \<Rightarrow> string \<Rightarrow> ('w, 'a) io \<Rightarrow> ('w, 'a) io" where
  "log_failure cfg prefix m w =
     (case m w of
        None \<Rightarrow> None
      | Some (Inl e, w') \<Rightarrow>
          Some (Err e, cfg_log cfg Debug (''[handshake] '' @ prefix @ message e) w')
      | Some (Inr x, w') \<Rightarrow> Some (Ok x, w'))"

definition client_properties :: "'w ConnectionConfig \<Rightarrow> key_value list" where
  "client_properties cfg =
     [(''product'', ''rabbitmq-stream-cpp-client''), (''version'', ''0.1.0''),
      (''platform'', ''C++17/POSIX'')] @
     (if cfg_connection_name cfg \<noteq> [] then [(''connection_name'', cfg_connection_name cfg)] else [])"

definition hs_peer_properties ::
    "'w os \<Rightarrow> socket \<Rightarrow> 'w ConnectionConfig \<Rightarrow> u32 \<Rightarrow> u32 \<Rightarrow> ('w, key_value list) io" where
  "hs_peer_properties os s cfg cid frame_max =
     io_bind (hs_log cfg ''step 1: PeerProperties'') (\<lambda>_.
     io_bind (send_request os s PeerPropertiesRequest_encode_body PeerPropertiesRequest_kKey kVersion
       \<lparr>ppq_properties = client_properties cfg\<rparr> cid frame_max) (\<lambda>_.
     io_bind (log_failure cfg ''step 1 failed: ''
       (recv_response os s PeerPropertiesResponse_kKey PeerPropertiesResponse_decode_body cid)) (\<lambda>pp.
     if ppr_response_code pp \<noteq> rc_Ok then
       io_fail (map_response_code (ppr_response_code pp) ''PeerProperties'')
     else io_bind (hs_log cfg ''step 1 ok'') (\<lambda>_. io_return (ppr_properties pp)))))"

definition offered :: "string list \<Rightarrow> string" where
  "offered mechanisms = concat (map (\<lambda>m. m @ '' '') mechanisms)"

definition hs_sasl_handshake ::
    "'w os \<Rightarrow> socket \<Rightarrow> 'w ConnectionConfig \<Rightarrow> u32 \<Rightarrow> u32 \<Rightarrow> ('w, unit) io" where
  "hs_sasl_handshake os s cfg cid frame_max =
     io_bind (hs_log cfg ''step 2: SaslHandshake'') (\<lambda>_.
     io_bind (send_request os s SaslHandshakeRequest_encode_body SaslHandshakeRequest_kKey kVersion
       SaslHandshakeRequest cid frame_max) (\<lambda>_.
     io_bind (log_failure cfg ''step 2 failed: ''
       (recv_response os s SaslHandshakeResponse_kKey SaslHandshakeResponse_decode_body cid)) (\<lambda>sh.
     if shr_response_code sh \<noteq> rc_Ok then
       io_fail (map_response_code (shr_response_code sh) ''SaslHandshake'')
     else if \<not> list_ex (\<lambda>m. m = ''PLAIN'') (shr_mechanisms sh) then
       io_fail (StreamError SaslMechanismNotSupported
         (''server does not offer PLAIN; offered: '' @ offered (shr_mechanisms sh)))
     else hs_log cfg ''step 2 ok'')))"

definition plain_payload :: "'w ConnectionConfig \<Rightarrow> bytes" where
  "plain_payload cfg =
     [0] @ bytes_of_string (cfg_username cfg) @ [0] @ bytes_of_string (cfg_password cfg)"

definition plain_request :: "'w ConnectionConfig \<Rightarrow> SaslAuthenticateRequest" where
  "plain_request cfg = \<lparr>saq_mechanism = ''PLAIN'', saq_sasl_opaque_data = plain_payload cfg\<rparr>"

text \<open>One round of the loop: the response code that ends or repeats it.\<close>

definition sasl_round ::
    "'w os \<Rightarrow> socket \<Rightarrow> 'w ConnectionConfig \<Rightarrow> u32 \<Rightarrow> u32 \<Rightarrow> ('w, SaslAuthenticateResponse) io" where
  "sasl_round os s cfg cid frame_max =
     io_bind (send_request os s SaslAuthenticateRequest_encode_body SaslAuthenticateRequest_kKey kVersion
       (plain_request cfg) cid frame_max) (\<lambda>_.
     log_failure cfg ''step 3 failed: ''
       (recv_response os s SaslAuthenticateResponse_kKey SaslAuthenticateResponse_decode_body cid))"

text \<open>The loop returns the correlation id for the next request.\<close>

partial_function (option) sasl_loop ::
    "'w os \<Rightarrow> socket \<Rightarrow> 'w ConnectionConfig \<Rightarrow> u32 \<Rightarrow> u32 \<Rightarrow> ('w, u32) io" where
  "sasl_loop os s cfg frame_max cid w =
     (case sasl_round os s cfg cid frame_max w of
        None \<Rightarrow> None
      | Some (sa, w') \<Rightarrow>
          (case sa of
             Inl e \<Rightarrow> Some (Err e, w')
           | Inr resp \<Rightarrow>
               if sar_response_code resp = rc_Ok then Some (Ok (cid + 1), w')
               else if sar_response_code resp = rc_SaslChallenge then
                 sasl_loop os s cfg frame_max (cid + 1) w'
               else Some (Err (map_response_code (sar_response_code resp) ''SaslAuthenticate''), w')))"

definition hs_sasl_authenticate ::
    "'w os \<Rightarrow> socket \<Rightarrow> 'w ConnectionConfig \<Rightarrow> u32 \<Rightarrow> u32 \<Rightarrow> ('w, u32) io" where
  "hs_sasl_authenticate os s cfg cid frame_max =
     io_bind (hs_log cfg ''step 3: SaslAuthenticate'') (\<lambda>_.
     io_bind (sasl_loop os s cfg frame_max cid) (\<lambda>cid.
     io_bind (hs_log cfg ''step 3 ok'') (\<lambda>_. io_return cid)))"

definition negotiate_frame_max :: "u32 \<Rightarrow> u32 \<Rightarrow> u32" where
  "negotiate_frame_max server requested =
     (if requested \<noteq> 0 then (if server = 0 then requested else min server requested) else server)"

definition negotiate_heartbeat :: "u32 \<Rightarrow> u32 \<Rightarrow> u32" where
  "negotiate_heartbeat server requested = (if requested \<noteq> 0 then min server requested else server)"

definition hs_tune :: "'w os \<Rightarrow> socket \<Rightarrow> 'w ConnectionConfig \<Rightarrow> ('w, u32 \<times> u32) io" where
  "hs_tune os s cfg =
     io_bind (hs_log cfg ''step 4: Tune'') (\<lambda>_.
     io_bind (log_failure cfg ''step 4 failed: ''
       (recv_oneway os s Tune_kKey Tune_decode_body)) (\<lambda>tune.
     let neg_fm = negotiate_frame_max (tune_frame_max tune) (cfg_requested_frame_max_bytes cfg);
         neg_hb = negotiate_heartbeat (tune_heartbeat tune) (cfg_requested_heartbeat_seconds cfg)
     in
     io_bind (hs_log cfg (''step 4 ok: frame_max='' @ decimal_digits (unat neg_fm) @
       '' heartbeat='' @ decimal_digits (unat neg_hb))) (\<lambda>_.
     io_bind (send_oneway os s Tune_encode_body Tune_kKey kVersion
       \<lparr>tune_frame_max = neg_fm, tune_heartbeat = neg_hb\<rparr> 0) (\<lambda>_.
     io_return (neg_fm, neg_hb)))))"

definition hs_open ::
    "'w os \<Rightarrow> socket \<Rightarrow> 'w ConnectionConfig \<Rightarrow> u32 \<Rightarrow> u32 \<Rightarrow> ('w, key_value list) io" where
  "hs_open os s cfg cid frame_max =
     io_bind (hs_log cfg (''step 5: Open vhost='' @ cfg_virtual_host cfg)) (\<lambda>_.
     io_bind (send_request os s OpenRequest_encode_body OpenRequest_kKey kVersion
       \<lparr>opq_virtual_host = cfg_virtual_host cfg\<rparr> cid frame_max) (\<lambda>_.
     io_bind (log_failure cfg ''step 5 failed: ''
       (recv_response os s OpenResponse_kKey OpenResponse_decode_body cid)) (\<lambda>op.
     if opr_response_code op \<noteq> rc_Ok then
       io_fail (map_response_code (opr_response_code op) (''Open/'' @ cfg_virtual_host cfg))
     else io_bind (hs_log cfg ''step 5 ok'') (\<lambda>_. io_return (opr_connection_properties op)))))"

definition run_handshake ::
    "'w os \<Rightarrow> socket \<Rightarrow> 'w ConnectionConfig \<Rightarrow> ('w, HandshakeResult) io" where
  "run_handshake os s cfg =
     io_bind (hs_peer_properties os s cfg 1 0) (\<lambda>server_properties.
     io_bind (hs_sasl_handshake os s cfg 2 0) (\<lambda>_.
     io_bind (hs_sasl_authenticate os s cfg 3 0) (\<lambda>cid.
     io_bind (hs_tune os s cfg) (\<lambda>(neg_fm, neg_hb).
     io_bind (hs_open os s cfg cid neg_fm) (\<lambda>connection_properties.
     io_return \<lparr>hr_negotiated_frame_max = neg_fm, hr_negotiated_heartbeat = neg_hb,
                hr_server_properties = server_properties,
                hr_connection_properties = connection_properties\<rparr>)))))"

section \<open>What goes over the connection\<close>

text \<open>Between \<open>w\<close> and \<open>w'\<close> exactly \<open>sent\<close> was accepted for sending and exactly \<open>rcvd\<close> was read.\<close>

definition exchanged ::
    "('w \<Rightarrow> bytes) \<Rightarrow> ('w \<Rightarrow> bytes) \<Rightarrow> 'w \<Rightarrow> 'w \<Rightarrow> bytes \<Rightarrow> bytes \<Rightarrow> bool" where
  "exchanged out inp w w' sent rcvd \<longleftrightarrow> out w' = out w @ sent \<and> inp w = rcvd @ inp w'"

definition log_keeps :: "'w ConnectionConfig \<Rightarrow> ('w \<Rightarrow> 'v) \<Rightarrow> bool" where
  "log_keeps cfg v \<longleftrightarrow> (\<forall>level msg w. v (cfg_log cfg level msg w) = v w)"

text \<open>A connected socket and a log sink that does not touch the connection.\<close>

definition session :: "'w os \<Rightarrow> socket \<Rightarrow> 'w ConnectionConfig \<Rightarrow> ('w \<Rightarrow> bytes) \<Rightarrow> ('w \<Rightarrow> bytes) \<Rightarrow> bool" where
  "session os s cfg out inp \<longleftrightarrow>
     tcp_stream os (sock_fd s) out inp \<and> log_keeps cfg out \<and> log_keeps cfg inp"

text \<open>A connection on which nothing fails.\<close>

definition healthy :: "'w os \<Rightarrow> socket \<Rightarrow> ('w \<Rightarrow> bytes) \<Rightarrow> ('w \<Rightarrow> nat) \<Rightarrow> bool" where
  "healthy os s inp budget \<longleftrightarrow>
     interrupts_bounded os (sock_fd s) budget \<and> recv_delivers os (sock_fd s) inp \<and>
     send_accepts os (sock_fd s)"

text \<open>What the body of a frame decodes to, if the frame has the key (and answers request \<open>cid\<close>).\<close>

definition push_of :: "incoming_frame \<Rightarrow> u16 \<Rightarrow> 'r read_op \<Rightarrow> 'r option" where
  "push_of f key dec =
     (if valid_frame f \<and> fr_key f = key then
        (case fst (dec (reader_of (fr_body f))) of Inl _ \<Rightarrow> None | Inr x \<Rightarrow> Some x)
      else None)"

definition answer_of :: "incoming_frame \<Rightarrow> u16 \<Rightarrow> u32 \<Rightarrow> 'r read_op \<Rightarrow> 'r option" where
  "answer_of f key cid dec =
     (if cid \<noteq> 0 \<and> fr_cid f \<noteq> Some cid then None else push_of f key dec)"

lemma push_of_Some:
  "push_of f key dec = Some x \<longleftrightarrow>
     valid_frame f \<and> fr_key f = key \<and> fst (dec (reader_of (fr_body f))) = Ok x"
  by (auto simp: push_of_def split: sum.splits)

lemma answer_of_Some:
  "answer_of f key cid dec = Some x \<longleftrightarrow>
     valid_frame f \<and> fr_key f = key \<and> (cid \<noteq> 0 \<longrightarrow> fr_cid f = Some cid) \<and>
     fst (dec (reader_of (fr_body f))) = Ok x"
  by (auto simp: answer_of_def push_of_Some)

lemma exchanged_refl [simp]: "exchanged out inp w w [] []"
  by (simp add: exchanged_def)

lemma exchanged_trans:
  "exchanged out inp w w' a b \<Longrightarrow> exchanged out inp w' w'' c d \<Longrightarrow>
   exchanged out inp w w'' (a @ c) (b @ d)"
  by (simp add: exchanged_def)

subsection \<open>What success of one operation means\<close>

lemma hs_log_ok:
  assumes "hs_log cfg msg w = Some (r, w')" and "session os s cfg out inp"
  shows "r = Ok ()" "exchanged out inp w w' [] []"
  using assms by (auto simp: hs_log_def session_def log_keeps_def exchanged_def)

lemma log_failure_OkD: "log_failure cfg prefix m w = Some (Ok x, w') \<Longrightarrow> m w = Some (Ok x, w')"
  by (auto simp: log_failure_def split: option.splits prod.splits sum.splits)

lemma session_write:
  assumes "write_all os s data w = Some (Ok u, w')" and "session os s cfg out inp"
  shows "exchanged out inp w w' data []"
proof -
  have tcp: "tcp_stream os (sock_fd s) out inp" using assms(2) by (simp add: session_def)
  from tcp_write [OF assms(1) tcp] show ?thesis by (simp add: exchanged_def)
qed

lemma session_read:
  assumes "read_frame os s w = Some (Ok f, w')" and "session os s cfg out inp"
  shows "valid_frame f" "exchanged out inp w w' [] (enc_frame f)"
proof -
  have tcp: "tcp_stream os (sock_fd s) out inp" using assms(2) by (simp add: session_def)
  from tcp_read_frame [OF assms(1) tcp] show "valid_frame f" "exchanged out inp w w' [] (enc_frame f)"
    by (simp_all add: exchanged_def)
qed

lemma send_request_ok:
  assumes "send_request os s encode_body key version cmd cid frame_max w = Some (Ok u, w')"
    and "session os s cfg out inp"
  shows "exchanged out inp w w' (encode_request_frame key version cid (bw_data (encode_body empty_writer cmd))) []"
    "frame_max = 0 \<or> 8 + length (bw_data (encode_body empty_writer cmd)) \<le> unat frame_max"
proof -
  from assms(1) have wr: "write_all os s (encode_request_frame key version cid
      (bw_data (encode_body empty_writer cmd))) w = Some (Ok u, w')"
    and "check_outbound_frame_size (8 + length (bw_data (encode_body empty_writer cmd))) frame_max = Ok ()"
    by (auto simp: send_request_def Let_def length_encode_request_frame split: sum.splits)
  then show "frame_max = 0 \<or> 8 + length (bw_data (encode_body empty_writer cmd)) \<le> unat frame_max"
    by (simp add: check_outbound_frame_size_iff)
  show "exchanged out inp w w' (encode_request_frame key version cid (bw_data (encode_body empty_writer cmd))) []"
    by (rule session_write [OF wr assms(2)])
qed

lemma send_oneway_ok:
  assumes "send_oneway os s encode_body key version cmd frame_max w = Some (Ok u, w')"
    and "session os s cfg out inp"
  shows "exchanged out inp w w' (encode_oneway_frame key version (bw_data (encode_body empty_writer cmd))) []"
proof -
  from assms(1) have wr: "write_all os s (encode_oneway_frame key version
      (bw_data (encode_body empty_writer cmd))) w = Some (Ok u, w')"
    by (auto simp: send_oneway_def Let_def split: sum.splits)
  then show ?thesis by (rule session_write [OF _ assms(2)])
qed

lemma recv_response_ok:
  assumes "recv_response os s key dec cid w = Some (Ok x, w')" and "session os s cfg out inp"
  shows "\<exists>f. answer_of f key cid dec = Some x \<and> exchanged out inp w w' [] (enc_frame f)"
proof -
  from assms(1) obtain f where f: "read_frame os s w = Some (Ok f, w')" "fr_key f = key"
    "cid \<noteq> 0 \<longrightarrow> fr_cid f = Some cid" "fst (dec (reader_of (fr_body f))) = Ok x"
    unfolding recv_response_def by (elim io_bind_SomeE) (auto split: if_splits)
  with session_read [OF f(1) assms(2)] show ?thesis
    unfolding answer_of_Some by blast
qed

lemma recv_oneway_ok:
  assumes "recv_oneway os s key dec w = Some (Ok x, w')" and "session os s cfg out inp"
  shows "\<exists>f. push_of f key dec = Some x \<and> exchanged out inp w w' [] (enc_frame f)"
proof -
  from assms(1) obtain f where f: "read_frame os s w = Some (Ok f, w')" "fr_key f = key"
    "fst (dec (reader_of (fr_body f))) = Ok x"
    unfolding recv_oneway_def by (elim io_bind_SomeE) (auto split: if_splits)
  with session_read [OF f(1) assms(2)] show ?thesis
    unfolding push_of_Some by blast
qed

subsection \<open>When one operation succeeds\<close>

lemma hs_log_succeeds:
  assumes "session os s cfg out inp"
  shows "\<exists>w'. hs_log cfg msg w = Some (Ok (), w') \<and> exchanged out inp w w' [] []"
  using assms by (auto simp: hs_log_def session_def log_keeps_def exchanged_def)

lemma write_succeeds:
  assumes "session os s cfg out inp" and "healthy os s inp budget"
  shows "\<exists>w'. write_all os s data w = Some (Ok (), w') \<and> exchanged out inp w w' data []"
proof -
  from assms(2) obtain w' where w': "write_all os s data w = Some (Ok (), w')"
    using write_all_loop_succeeds [of os "sock_fd s" budget data 0 w]
    by (auto simp: healthy_def write_all_def)
  with session_write [OF w' assms(1)] show ?thesis by blast
qed

lemma send_request_succeeds:
  assumes "session os s cfg out inp" and "healthy os s inp budget"
    and "frame_max = 0 \<or> 8 + length (bw_data (encode_body empty_writer cmd)) \<le> unat frame_max"
  shows "\<exists>w'. send_request os s encode_body key version cmd cid frame_max w = Some (Ok (), w') \<and>
    exchanged out inp w w' (encode_request_frame key version cid (bw_data (encode_body empty_writer cmd))) []"
proof -
  have "check_outbound_frame_size (8 + length (bw_data (encode_body empty_writer cmd))) frame_max = Ok ()"
    using assms(3) by (simp add: check_outbound_frame_size_iff)
  with write_succeeds [OF assms(1,2)] show ?thesis
    by (simp add: send_request_def Let_def length_encode_request_frame)
qed

lemma read_frame_succeeds:
  assumes "session os s cfg out inp" and "healthy os s inp budget"
    and "valid_frame f" and "inp w = enc_frame f @ t"
  shows "\<exists>w'. read_frame os s w = Some (Ok f, w') \<and> exchanged out inp w w' [] (enc_frame f) \<and> inp w' = t"
proof -
  obtain w' where w': "read_frame os s w = Some (Ok f, w')" "inp w' = t"
    using read_frame_delivers [of os s budget inp f w t] assms
    by (auto simp: session_def healthy_def tcp_stream_def)
  with session_read(2) [OF w'(1) assms(1)] show ?thesis by blast
qed

lemma recv_response_succeeds:
  assumes "session os s cfg out inp" and "healthy os s inp budget"
    and "answer_of f key cid dec = Some x" and "inp w = enc_frame f @ t"
  shows "\<exists>w'. recv_response os s key dec cid w = Some (Ok x, w') \<and>
    exchanged out inp w w' [] (enc_frame f) \<and> inp w' = t"
  using read_frame_succeeds [OF assms(1,2) _ assms(4)] assms(3)
  by (auto simp: recv_response_def answer_of_Some)

lemma recv_oneway_succeeds:
  assumes "session os s cfg out inp" and "healthy os s inp budget"
    and "push_of f key dec = Some x" and "inp w = enc_frame f @ t"
  shows "\<exists>w'. recv_oneway os s key dec w = Some (Ok x, w') \<and>
    exchanged out inp w w' [] (enc_frame f) \<and> inp w' = t"
  using read_frame_succeeds [OF assms(1,2) _ assms(4)] assms(3)
  by (auto simp: recv_oneway_def push_of_Some)

section \<open>The specification of the sequence\<close>

text \<open>The frames of a server, in the order in which it sends them.\<close>

record server_script =
  sv_peer_properties :: incoming_frame
  sv_sasl_handshake :: incoming_frame
  sv_challenges :: "incoming_frame list"
  sv_authenticated :: incoming_frame
  sv_tune :: incoming_frame
  sv_open :: incoming_frame

definition script_bytes :: "server_script \<Rightarrow> bytes" where
  "script_bytes sv =
     enc_frame (sv_peer_properties sv) @ enc_frame (sv_sasl_handshake sv) @
     concat (map enc_frame (sv_challenges sv @ [sv_authenticated sv])) @
     enc_frame (sv_tune sv) @ enc_frame (sv_open sv)"

definition sasl_code :: "incoming_frame \<Rightarrow> u32 \<Rightarrow> u16 option" where
  "sasl_code f cid =
     map_option sar_response_code
       (answer_of f SaslAuthenticateResponse_kKey cid SaslAuthenticateResponse_decode_body)"

fun challenged :: "u32 \<Rightarrow> incoming_frame list \<Rightarrow> bool" where
  "challenged cid [] = True"
| "challenged cid (f # fs) = (sasl_code f cid = Some rc_SaslChallenge \<and> challenged (cid + 1) fs)"

text \<open>What a client has to make of these frames: the result, or None when it has to give up.\<close>

definition script_peer :: "server_script \<Rightarrow> key_value list option" where
  "script_peer sv =
     (case answer_of (sv_peer_properties sv) PeerPropertiesResponse_kKey 1
             PeerPropertiesResponse_decode_body of
        None \<Rightarrow> None
      | Some pp \<Rightarrow> if ppr_response_code pp = rc_Ok then Some (ppr_properties pp) else None)"

definition script_plain :: "server_script \<Rightarrow> bool" where
  "script_plain sv =
     (case answer_of (sv_sasl_handshake sv) SaslHandshakeResponse_kKey 2
             SaslHandshakeResponse_decode_body of
        None \<Rightarrow> False
      | Some sh \<Rightarrow> shr_response_code sh = rc_Ok \<and> ''PLAIN'' \<in> set (shr_mechanisms sh))"

definition script_cid :: "server_script \<Rightarrow> u32" where
  "script_cid sv = 3 + word_of_nat (length (sv_challenges sv))"

definition script_authenticated :: "server_script \<Rightarrow> bool" where
  "script_authenticated sv \<longleftrightarrow>
     challenged 3 (sv_challenges sv) \<and> sasl_code (sv_authenticated sv) (script_cid sv) = Some rc_Ok"

definition script_tune :: "'w ConnectionConfig \<Rightarrow> server_script \<Rightarrow> (u32 \<times> u32) option" where
  "script_tune cfg sv =
     (case push_of (sv_tune sv) Tune_kKey Tune_decode_body of
        None \<Rightarrow> None
      | Some tune \<Rightarrow>
          Some (negotiate_frame_max (tune_frame_max tune) (cfg_requested_frame_max_bytes cfg),
                negotiate_heartbeat (tune_heartbeat tune) (cfg_requested_heartbeat_seconds cfg)))"

definition script_open :: "server_script \<Rightarrow> key_value list option" where
  "script_open sv =
     (case answer_of (sv_open sv) OpenResponse_kKey (script_cid sv + 1) OpenResponse_decode_body of
        None \<Rightarrow> None
      | Some op \<Rightarrow>
          if opr_response_code op = rc_Ok then Some (opr_connection_properties op) else None)"

definition open_fits :: "'w ConnectionConfig \<Rightarrow> u32 \<Rightarrow> bool" where
  "open_fits cfg fm \<longleftrightarrow>
     fm = 0 \<or> 8 + length (enc_OpenRequest \<lparr>opq_virtual_host = cfg_virtual_host cfg\<rparr>) \<le> unat fm"

definition script_result :: "'w ConnectionConfig \<Rightarrow> server_script \<Rightarrow> HandshakeResult option" where
  "script_result cfg sv =
     (case (script_peer sv, script_tune cfg sv, script_open sv) of
        (Some server_properties, Some (fm, hb), Some connection_properties) \<Rightarrow>
          if script_plain sv \<and> script_authenticated sv \<and> open_fits cfg fm then
            Some \<lparr>hr_negotiated_frame_max = fm, hr_negotiated_heartbeat = hb,
                  hr_server_properties = server_properties,
                  hr_connection_properties = connection_properties\<rparr>
          else None
      | _ \<Rightarrow> None)"

text \<open>What the client sends: each request once, the authentication once per challenge and once more.\<close>

definition peer_properties_frame :: "'w ConnectionConfig \<Rightarrow> bytes" where
  "peer_properties_frame cfg =
     encode_request_frame PeerPropertiesRequest_kKey kVersion 1
       (enc_PeerPropertiesRequest \<lparr>ppq_properties = client_properties cfg\<rparr>)"

definition sasl_handshake_frame :: bytes where
  "sasl_handshake_frame = encode_request_frame SaslHandshakeRequest_kKey kVersion 2 []"

definition authenticate_frame :: "'w ConnectionConfig \<Rightarrow> u32 \<Rightarrow> bytes" where
  "authenticate_frame cfg cid =
     encode_request_frame SaslAuthenticateRequest_kKey kVersion cid
       (enc_SaslAuthenticateRequest (plain_request cfg))"

fun authenticate_frames :: "'w ConnectionConfig \<Rightarrow> u32 \<Rightarrow> nat \<Rightarrow> bytes" where
  "authenticate_frames cfg cid 0 = []"
| "authenticate_frames cfg cid (Suc n) = authenticate_frame cfg cid @ authenticate_frames cfg (cid + 1) n"

definition tune_frame :: "u32 \<Rightarrow> u32 \<Rightarrow> bytes" where
  "tune_frame fm hb =
     encode_oneway_frame Tune_kKey kVersion (enc_Tune \<lparr>tune_frame_max = fm, tune_heartbeat = hb\<rparr>)"

definition open_frame :: "'w ConnectionConfig \<Rightarrow> u32 \<Rightarrow> bytes" where
  "open_frame cfg cid =
     encode_request_frame OpenRequest_kKey kVersion cid
       (enc_OpenRequest \<lparr>opq_virtual_host = cfg_virtual_host cfg\<rparr>)"

definition handshake_bytes :: "'w ConnectionConfig \<Rightarrow> nat \<Rightarrow> HandshakeResult \<Rightarrow> bytes" where
  "handshake_bytes cfg challenges hr =
     peer_properties_frame cfg @ sasl_handshake_frame @
     authenticate_frames cfg 3 (Suc challenges) @
     tune_frame (hr_negotiated_frame_max hr) (hr_negotiated_heartbeat hr) @
     open_frame cfg (4 + word_of_nat challenges)"

section \<open>Soundness of the steps\<close>

text \<open>A request and its response, after the log line of the step.\<close>

lemma request_response_ok:
  assumes "hs_log cfg msg w = Some (Ok u, w1)"
    and "send_request os s encode_body key version cmd cid frame_max w1 = Some (Ok v, w2)"
    and "log_failure cfg prefix (recv_response os s rkey dec cid) w2 = Some (Ok x, w3)"
    and "session os s cfg out inp"
  shows "\<exists>f. answer_of f rkey cid dec = Some x \<and>
    exchanged out inp w w3 (encode_request_frame key version cid (bw_data (encode_body empty_writer cmd)))
      (enc_frame f)"
proof -
  from recv_response_ok [OF log_failure_OkD [OF assms(3)] assms(4)] obtain f where
    f: "answer_of f rkey cid dec = Some x" "exchanged out inp w2 w3 [] (enc_frame f)" by blast
  have "exchanged out inp w w2 ([] @ encode_request_frame key version cid
      (bw_data (encode_body empty_writer cmd))) ([] @ [])"
    using hs_log_ok(2) [OF assms(1,4)] send_request_ok(1) [OF assms(2,4)] by (rule exchanged_trans)
  from exchanged_trans [OF this f(2)] f(1) show ?thesis by auto
qed

lemma exchanged_log_after:
  assumes "exchanged out inp w w1 a b" and "hs_log cfg msg w1 = Some (Ok u, w2)"
    and "session os s cfg out inp"
  shows "exchanged out inp w w2 a b"
  using exchanged_trans [OF assms(1) hs_log_ok(2) [OF assms(2,3)]] by simp

lemma hs_peer_properties_ok:
  assumes "hs_peer_properties os s cfg 1 0 w = Some (Ok props, w')" and "session os s cfg out inp"
  shows "\<exists>f pp. answer_of f PeerPropertiesResponse_kKey 1 PeerPropertiesResponse_decode_body = Some pp \<and>
    ppr_response_code pp = rc_Ok \<and> props = ppr_properties pp \<and>
    exchanged out inp w w' (peer_properties_frame cfg) (enc_frame f)"
proof -
  from assms(1) obtain w1 w2 w3 pp where
    steps: "hs_log cfg ''step 1: PeerProperties'' w = Some (Ok (), w1)"
      "send_request os s PeerPropertiesRequest_encode_body PeerPropertiesRequest_kKey kVersion
         \<lparr>ppq_properties = client_properties cfg\<rparr> 1 0 w1 = Some (Ok (), w2)"
      "log_failure cfg ''step 1 failed: '' (recv_response os s PeerPropertiesResponse_kKey
         PeerPropertiesResponse_decode_body 1) w2 = Some (Ok pp, w3)"
    and code: "ppr_response_code pp = rc_Ok" "props = ppr_properties pp"
    and last: "hs_log cfg ''step 1 ok'' w3 = Some (Ok (), w')"
    unfolding hs_peer_properties_def by (auto elim!: io_bind_SomeE split: if_splits)
  from request_response_ok [OF steps assms(2)] exchanged_log_after [OF _ last assms(2)] code show ?thesis
    unfolding peer_properties_frame_def ppq.body_eq by blast
qed

lemma hs_sasl_handshake_ok:
  assumes "hs_sasl_handshake os s cfg 2 0 w = Some (Ok u, w')" and "session os s cfg out inp"
  shows "\<exists>f sh. answer_of f SaslHandshakeResponse_kKey 2 SaslHandshakeResponse_decode_body = Some sh \<and>
    shr_response_code sh = rc_Ok \<and> ''PLAIN'' \<in> set (shr_mechanisms sh) \<and>
    exchanged out inp w w' sasl_handshake_frame (enc_frame f)"
proof -
  from assms(1) obtain w1 w2 w3 sh where
    steps: "hs_log cfg ''step 2: SaslHandshake'' w = Some (Ok (), w1)"
      "send_request os s SaslHandshakeRequest_encode_body SaslHandshakeRequest_kKey kVersion
         SaslHandshakeRequest 2 0 w1 = Some (Ok (), w2)"
      "log_failure cfg ''step 2 failed: '' (recv_response os s SaslHandshakeResponse_kKey
         SaslHandshakeResponse_decode_body 2) w2 = Some (Ok sh, w3)"
    and code: "shr_response_code sh = rc_Ok" "''PLAIN'' \<in> set (shr_mechanisms sh)"
    and last: "hs_log cfg ''step 2 ok'' w3 = Some (Ok (), w')"
    unfolding hs_sasl_handshake_def by (auto elim!: io_bind_SomeE split: if_splits simp: list_ex_iff)
  from request_response_ok [OF steps assms(2)] exchanged_log_after [OF _ last assms(2)] code show ?thesis
    unfolding sasl_handshake_frame_def shq.body_eq enc_SaslHandshakeRequest_def by blast
qed

lemma sasl_round_ok:
  assumes "sasl_round os s cfg cid fm w = Some (Ok resp, w')" and "session os s cfg out inp"
  shows "\<exists>f. sasl_code f cid = Some (sar_response_code resp) \<and>
    exchanged out inp w w' (authenticate_frame cfg cid) (enc_frame f)"
proof -
  from assms(1) obtain w1 where
    send: "send_request os s SaslAuthenticateRequest_encode_body SaslAuthenticateRequest_kKey kVersion
      (plain_request cfg) cid fm w = Some (Ok (), w1)"
    and recv: "log_failure cfg ''step 3 failed: '' (recv_response os s SaslAuthenticateResponse_kKey
      SaslAuthenticateResponse_decode_body cid) w1 = Some (Ok resp, w')"
    unfolding sasl_round_def by (auto elim!: io_bind_SomeE)
  from recv_response_ok [OF log_failure_OkD [OF recv] assms(2)] obtain f where
    f: "answer_of f SaslAuthenticateResponse_kKey cid SaslAuthenticateResponse_decode_body = Some resp"
    "exchanged out inp w1 w' [] (enc_frame f)" by blast
  have "exchanged out inp w w' (authenticate_frame cfg cid @ []) ([] @ enc_frame f)"
    using exchanged_trans [OF send_request_ok(1) [OF send assms(2)] f(2)]
    unfolding authenticate_frame_def saq.body_eq .
  with f(1) show ?thesis by (auto simp: sasl_code_def)
qed

lemma sasl_loop_ok:
  assumes "sasl_loop os s cfg fm cid w = Some res"
  shows "\<forall>cid'. session os s cfg out inp \<and> fst res = Ok cid' \<longrightarrow>
    (\<exists>fs f. challenged cid fs \<and> sasl_code f (cid + word_of_nat (length fs)) = Some rc_Ok \<and>
      cid' = cid + word_of_nat (length fs) + 1 \<and>
      exchanged out inp w (snd res) (authenticate_frames cfg cid (Suc (length fs)))
        (concat (map enc_frame (fs @ [f]))))"
proof (rule sasl_loop.raw_induct [where P = "\<lambda>os s cfg fm cid w res.
    \<forall>cid'. session os s cfg out inp \<and> fst res = Ok cid' \<longrightarrow>
    (\<exists>fs f. challenged cid fs \<and> sasl_code f (cid + word_of_nat (length fs)) = Some rc_Ok \<and>
      cid' = cid + word_of_nat (length fs) + 1 \<and>
      exchanged out inp w (snd res) (authenticate_frames cfg cid (Suc (length fs)))
        (concat (map enc_frame (fs @ [f]))))"], goal_cases)
  case (1 loop os s cfg fm cid w res)
  note IH = 1(1) and body = 1(2)
  show ?case
  proof (intro allI impI, elim conjE)
    fix cid'
    assume ses: "session os s cfg out inp" and ok: "fst res = Ok cid'"
    from body ok obtain resp w1 where round: "sasl_round os s cfg cid fm w = Some (Ok resp, w1)"
      and rest: "(if sar_response_code resp = rc_Ok then Some (Ok (cid + 1), w1)
        else if sar_response_code resp = rc_SaslChallenge then loop os s cfg fm (cid + 1) w1
        else Some (Err (map_response_code (sar_response_code resp) ''SaslAuthenticate''), w1)) = Some res"
      by (auto split: option.splits prod.splits sum.splits)
    from sasl_round_ok [OF round ses] obtain f where f: "sasl_code f cid = Some (sar_response_code resp)"
      "exchanged out inp w w1 (authenticate_frame cfg cid) (enc_frame f)" by blast
    show "\<exists>fs f. challenged cid fs \<and> sasl_code f (cid + word_of_nat (length fs)) = Some rc_Ok \<and>
      cid' = cid + word_of_nat (length fs) + 1 \<and>
      exchanged out inp w (snd res) (authenticate_frames cfg cid (Suc (length fs)))
        (concat (map enc_frame (fs @ [f])))"
    proof (cases "sar_response_code resp = rc_Ok")
      case True
      with f rest ok show ?thesis by (intro exI [of _ "[]"] exI [of _ f]) auto
    next
      case False
      with rest ok have chal: "sar_response_code resp = rc_SaslChallenge"
        and loop: "loop os s cfg fm (cid + 1) w1 = Some res" by (auto split: if_splits)
      from IH [OF loop] ses ok obtain fs f' where fs: "challenged (cid + 1) fs"
        "sasl_code f' (cid + 1 + word_of_nat (length fs)) = Some rc_Ok"
        "cid' = cid + 1 + word_of_nat (length fs) + 1"
        "exchanged out inp w1 (snd res) (authenticate_frames cfg (cid + 1) (Suc (length fs)))
           (concat (map enc_frame (fs @ [f'])))" by blast
      from exchanged_trans [OF f(2) fs(4)] f(1) chal fs(1-3) show ?thesis
        by (intro exI [of _ "f # fs"] exI [of _ f']) (simp add: ac_simps)
    qed
  qed
qed (rule assms)

lemma hs_sasl_authenticate_ok:
  assumes "hs_sasl_authenticate os s cfg 3 0 w = Some (Ok cid', w')" and "session os s cfg out inp"
  shows "\<exists>fs f. challenged 3 fs \<and> sasl_code f (3 + word_of_nat (length fs)) = Some rc_Ok \<and>
      cid' = 4 + word_of_nat (length fs) \<and>
      exchanged out inp w w' (authenticate_frames cfg 3 (Suc (length fs)))
        (concat (map enc_frame (fs @ [f])))"
proof -
  from assms(1) obtain w1 w2 where first: "hs_log cfg ''step 3: SaslAuthenticate'' w = Some (Ok (), w1)"
    and loop: "sasl_loop os s cfg 0 3 w1 = Some (Ok cid', w2)"
    and last: "hs_log cfg ''step 3 ok'' w2 = Some (Ok (), w')"
    unfolding hs_sasl_authenticate_def by (auto elim!: io_bind_SomeE)
  from sasl_loop_ok [OF loop, of out inp] assms(2) obtain fs f where fs: "challenged 3 fs"
    "sasl_code f (3 + word_of_nat (length fs)) = Some rc_Ok" "cid' = 3 + word_of_nat (length fs) + 1"
    "exchanged out inp w1 w2 (authenticate_frames cfg 3 (Suc (length fs)))
       (concat (map enc_frame (fs @ [f])))" by auto
  from exchanged_trans [OF hs_log_ok(2) [OF first assms(2)] exchanged_log_after [OF fs(4) last assms(2)]]
    fs(1-3) show ?thesis
    by (intro exI [of _ fs] exI [of _ f]) simp
qed

lemma hs_tune_ok:
  assumes "hs_tune os s cfg w = Some (Ok (fm, hb), w')" and "session os s cfg out inp"
  shows "\<exists>f tune. push_of f Tune_kKey Tune_decode_body = Some tune \<and>
    fm = negotiate_frame_max (tune_frame_max tune) (cfg_requested_frame_max_bytes cfg) \<and>
    hb = negotiate_heartbeat (tune_heartbeat tune) (cfg_requested_heartbeat_seconds cfg) \<and>
    exchanged out inp w w' (tune_frame fm hb) (enc_frame f)"
proof -
  from assms(1) obtain w1 w2 w3 tune msg where
    first: "hs_log cfg ''step 4: Tune'' w = Some (Ok (), w1)"
    and recv: "log_failure cfg ''step 4 failed: '' (recv_oneway os s Tune_kKey Tune_decode_body) w1 =
      Some (Ok tune, w2)"
    and neg: "fm = negotiate_frame_max (tune_frame_max tune) (cfg_requested_frame_max_bytes cfg)"
      "hb = negotiate_heartbeat (tune_heartbeat tune) (cfg_requested_heartbeat_seconds cfg)"
    and mid: "hs_log cfg msg w2 = Some (Ok (), w3)"
    and send: "send_oneway os s Tune_encode_body Tune_kKey kVersion
      \<lparr>tune_frame_max = fm, tune_heartbeat = hb\<rparr> 0 w3 = Some (Ok (), w')"
    unfolding hs_tune_def Let_def by (auto elim!: io_bind_SomeE)
  from recv_oneway_ok [OF log_failure_OkD [OF recv] assms(2)] obtain f where
    f: "push_of f Tune_kKey Tune_decode_body = Some tune" "exchanged out inp w1 w2 [] (enc_frame f)"
    by blast
  have "exchanged out inp w w' ([] @ [] @ tune_frame fm hb) ([] @ enc_frame f @ [])"
    unfolding tune_frame_def tune.body_eq [symmetric]
    by (intro exchanged_trans [OF hs_log_ok(2) [OF first assms(2)]]
        exchanged_trans [OF exchanged_log_after [OF f(2) mid assms(2)] send_oneway_ok [OF send assms(2)]])
  with f(1) neg show ?thesis by auto
qed

lemma hs_open_ok:
  assumes "hs_open os s cfg cid fm w = Some (Ok props, w')" and "session os s cfg out inp"
  shows "\<exists>f op. answer_of f OpenResponse_kKey cid OpenResponse_decode_body = Some op \<and>
    opr_response_code op = rc_Ok \<and> props = opr_connection_properties op \<and> open_fits cfg fm \<and>
    exchanged out inp w w' (open_frame cfg cid) (enc_frame f)"
proof -
  from assms(1) obtain w1 w2 w3 op msg where
    steps: "hs_log cfg msg w = Some (Ok (), w1)"
      "send_request os s OpenRequest_encode_body OpenRequest_kKey kVersion
         \<lparr>opq_virtual_host = cfg_virtual_host cfg\<rparr> cid fm w1 = Some (Ok (), w2)"
      "log_failure cfg ''step 5 failed: '' (recv_response os s OpenResponse_kKey
         OpenResponse_decode_body cid) w2 = Some (Ok op, w3)"
    and code: "opr_response_code op = rc_Ok" "props = opr_connection_properties op"
    and last: "hs_log cfg ''step 5 ok'' w3 = Some (Ok (), w')"
    unfolding hs_open_def by (auto elim!: io_bind_SomeE split: if_splits)
  have "open_fits cfg fm"
    using send_request_ok(2) [OF steps(2) assms(2)] by (simp add: open_fits_def opq.body_eq)
  with request_response_ok [OF steps assms(2)] exchanged_log_after [OF _ last assms(2)] code show ?thesis
    unfolding open_frame_def opq.body_eq by blast
qed

lemma run_handshake_sound:
  assumes "run_handshake os s cfg w = Some (Ok hr, w')" and "session os s cfg out inp"
  shows "\<exists>sv. script_result cfg sv = Some hr \<and>
    exchanged out inp w w' (handshake_bytes cfg (length (sv_challenges sv)) hr) (script_bytes sv)"
proof -
  from assms(1) obtain w1 w2 w3 w4 props cid fm hb cprops where
    1: "hs_peer_properties os s cfg 1 0 w = Some (Ok props, w1)"
    and 2: "hs_sasl_handshake os s cfg 2 0 w1 = Some (Ok (), w2)"
    and 3: "hs_sasl_authenticate os s cfg 3 0 w2 = Some (Ok cid, w3)"
    and 4: "hs_tune os s cfg w3 = Some (Ok (fm, hb), w4)"
    and 5: "hs_open os s cfg cid fm w4 = Some (Ok cprops, w')"
    and hr: "hr = \<lparr>hr_negotiated_frame_max = fm, hr_negotiated_heartbeat = hb,
                hr_server_properties = props, hr_connection_properties = cprops\<rparr>"
    unfolding run_handshake_def by (auto elim!: io_bind_SomeE)
  from hs_peer_properties_ok [OF 1 assms(2)] obtain f1 pp where
    s1: "answer_of f1 PeerPropertiesResponse_kKey 1 PeerPropertiesResponse_decode_body = Some pp"
      "ppr_response_code pp = rc_Ok" "props = ppr_properties pp"
    and e1: "exchanged out inp w w1 (peer_properties_frame cfg) (enc_frame f1)" by blast
  from hs_sasl_handshake_ok [OF 2 assms(2)] obtain f2 sh where
    s2: "answer_of f2 SaslHandshakeResponse_kKey 2 SaslHandshakeResponse_decode_body = Some sh"
      "shr_response_code sh = rc_Ok" "''PLAIN'' \<in> set (shr_mechanisms sh)"
    and e2: "exchanged out inp w1 w2 sasl_handshake_frame (enc_frame f2)" by blast
  from hs_sasl_authenticate_ok [OF 3 assms(2)] obtain fs f3 where
    s3: "challenged 3 fs" "sasl_code f3 (3 + word_of_nat (length fs)) = Some rc_Ok"
      "cid = 4 + word_of_nat (length fs)"
    and e3: "exchanged out inp w2 w3 (authenticate_frames cfg 3 (Suc (length fs)))
        (concat (map enc_frame (fs @ [f3])))" by blast
  from hs_tune_ok [OF 4 assms(2)] obtain f4 tune where
    s4: "push_of f4 Tune_kKey Tune_decode_body = Some tune"
      "fm = negotiate_frame_max (tune_frame_max tune) (cfg_requested_frame_max_bytes cfg)"
      "hb = negotiate_heartbeat (tune_heartbeat tune) (cfg_requested_heartbeat_seconds cfg)"
    and e4: "exchanged out inp w3 w4 (tune_frame fm hb) (enc_frame f4)" by blast
  from hs_open_ok [OF 5 assms(2)] obtain f5 op where
    s5: "answer_of f5 OpenResponse_kKey cid OpenResponse_decode_body = Some op"
      "opr_response_code op = rc_Ok" "cprops = opr_connection_properties op" "open_fits cfg fm"
    and e5: "exchanged out inp w4 w' (open_frame cfg cid) (enc_frame f5)" by blast
  let ?sv = "\<lparr>sv_peer_properties = f1, sv_sasl_handshake = f2, sv_challenges = fs,
    sv_authenticated = f3, sv_tune = f4, sv_open = f5\<rparr>"
  have "script_result cfg ?sv = Some hr"
    using s1 s2 s3 s4 s5 hr
    by (simp add: script_result_def script_peer_def script_plain_def script_authenticated_def
        script_cid_def script_tune_def script_open_def ac_simps)
  moreover have "exchanged out inp w w' (handshake_bytes cfg (length (sv_challenges ?sv)) hr)
      (script_bytes ?sv)"
    using exchanged_trans [OF e1 exchanged_trans [OF e2 exchanged_trans [OF e3 exchanged_trans [OF e4 e5]]]]
    by (simp add: handshake_bytes_def script_bytes_def hr s3(3))
  ultimately show ?thesis by blast
qed

section \<open>Completeness of the steps\<close>

text \<open>
  On a healthy connection every step succeeds on the frames of the specification. \<open>runs\<close> says
  that an operation succeeds with a value and what it exchanges; it composes.
\<close>

definition runs ::
    "('w \<Rightarrow> bytes) \<Rightarrow> ('w \<Rightarrow> bytes) \<Rightarrow> ('w, 'a) io \<Rightarrow> 'a result \<Rightarrow> bytes \<Rightarrow> bytes \<Rightarrow> bool" where
  "runs out inp m r sent rcvd \<longleftrightarrow>
     (\<forall>w t. inp w = rcvd @ t \<longrightarrow>
        (\<exists>w'. m w = Some (r, w') \<and> exchanged out inp w w' sent rcvd))"

lemma runsI:
  assumes "\<And>w t. inp w = rcvd @ t \<Longrightarrow> \<exists>w'. m w = Some (r, w') \<and> exchanged out inp w w' sent rcvd"
  shows "runs out inp m r sent rcvd"
  using assms unfolding runs_def by blast

lemma runsE:
  assumes "runs out inp m r sent rcvd" and "inp w = rcvd @ t"
  obtains w' where "m w = Some (r, w')" and "exchanged out inp w w' sent rcvd"
  using assms unfolding runs_def by blast

lemma runs_bind:
  assumes "runs out inp m (Ok x) a b" and "runs out inp (f x) r c d"
  shows "runs out inp (io_bind m f) r (a @ c) (b @ d)"
proof (rule runsI)
  fix w t
  assume "inp w = (b @ d) @ t"
  then obtain w1 where 1: "m w = Some (Ok x, w1)" "exchanged out inp w w1 a b"
    using assms(1) by (auto elim: runsE)
  with \<open>inp w = (b @ d) @ t\<close> have "inp w1 = d @ t" by (simp add: exchanged_def)
  then obtain w2 where 2: "f x w1 = Some (r, w2)" "exchanged out inp w1 w2 c d"
    using assms(2) by (auto elim: runsE)
  from exchanged_trans [OF 1(2) 2(2)] 1(1) 2(1)
  show "\<exists>w'. io_bind m f w = Some (r, w') \<and> exchanged out inp w w' (a @ c) (b @ d)" by simp
qed

lemma runs_bind_quiet:
  assumes "runs out inp m (Ok x) [] []" and "runs out inp (f x) r c d"
  shows "runs out inp (io_bind m f) r c d"
  using runs_bind [where x = x and f = f, OF assms] by simp

lemma runs_final:
  assumes "runs out inp m (Ok x) a b" and "runs out inp (f x) r [] []"
  shows "runs out inp (io_bind m f) r a b"
  using runs_bind [where x = x and f = f, OF assms] by simp

lemma runs_Err:
  assumes "runs out inp m (Err e) a b"
  shows "runs out inp (io_bind m f) (Err e) a b"
  using assms unfolding runs_def by fastforce

lemma runs_return: "runs out inp (io_return x) (Ok x) [] []"
  by (rule runsI) simp

lemma runs_fail: "runs out inp (io_fail e) (Err e) [] []"
  by (rule runsI) simp

lemma runs_log: "session os s cfg out inp \<Longrightarrow> runs out inp (hs_log cfg msg) (Ok ()) [] []"
  by (rule runsI) (rule hs_log_succeeds)

lemma runs_send_request:
  assumes "session os s cfg out inp" and "healthy os s inp budget"
    and "frame_max = 0 \<or> 8 + length (bw_data (encode_body empty_writer cmd)) \<le> unat frame_max"
  shows "runs out inp (send_request os s encode_body key version cmd cid frame_max) (Ok ())
    (encode_request_frame key version cid (bw_data (encode_body empty_writer cmd))) []"
  by (rule runsI)
    (rule send_request_succeeds [where encode_body = encode_body and cmd = cmd, OF assms])

lemma runs_send_oneway:
  assumes "session os s cfg out inp" and "healthy os s inp budget"
  shows "runs out inp (send_oneway os s encode_body key version cmd 0) (Ok ())
    (encode_oneway_frame key version (bw_data (encode_body empty_writer cmd))) []"
  by (rule runsI)
    (simp add: send_oneway_def check_outbound_frame_size_def Let_def write_succeeds [OF assms])

lemma runs_recv_response:
  assumes "session os s cfg out inp" and "healthy os s inp budget"
    and "answer_of f key cid dec = Some x"
  shows "runs out inp (log_failure cfg prefix (recv_response os s key dec cid)) (Ok x) [] (enc_frame f)"
proof (rule runsI)
  fix w t
  assume "inp w = enc_frame f @ t"
  from recv_response_succeeds [OF assms this] obtain w' where
    "recv_response os s key dec cid w = Some (Ok x, w')" "exchanged out inp w w' [] (enc_frame f)"
    by blast
  then show "\<exists>w'. log_failure cfg prefix (recv_response os s key dec cid) w = Some (Ok x, w') \<and>
      exchanged out inp w w' [] (enc_frame f)"
    by (simp add: log_failure_def)
qed

lemma runs_recv_oneway:
  assumes "session os s cfg out inp" and "healthy os s inp budget" and "push_of f key dec = Some x"
  shows "runs out inp (log_failure cfg prefix (recv_oneway os s key dec)) (Ok x) [] (enc_frame f)"
proof (rule runsI)
  fix w t
  assume "inp w = enc_frame f @ t"
  from recv_oneway_succeeds [OF assms this] obtain w' where
    "recv_oneway os s key dec w = Some (Ok x, w')" "exchanged out inp w w' [] (enc_frame f)"
    by blast
  then show "\<exists>w'. log_failure cfg prefix (recv_oneway os s key dec) w = Some (Ok x, w') \<and>
      exchanged out inp w w' [] (enc_frame f)"
    by (simp add: log_failure_def)
qed

lemma runs_request_response:
  assumes "session os s cfg out inp" and "healthy os s inp budget"
    and "frame_max = 0 \<or> 8 + length (bw_data (encode_body empty_writer cmd)) \<le> unat frame_max"
    and "answer_of f rkey cid dec = Some x" and "runs out inp (k x) r [] []"
  shows "runs out inp
    (io_bind (hs_log cfg msg) (\<lambda>_.
       io_bind (send_request os s encode_body key version cmd cid frame_max) (\<lambda>_.
       io_bind (log_failure cfg prefix (recv_response os s rkey dec cid)) k))) r
    (encode_request_frame key version cid (bw_data (encode_body empty_writer cmd))) (enc_frame f)"
proof -
  have "runs out inp (io_bind (hs_log cfg msg) (\<lambda>_.
      io_bind (send_request os s encode_body key version cmd cid frame_max) (\<lambda>_.
      io_bind (log_failure cfg prefix (recv_response os s rkey dec cid)) k))) r
    (encode_request_frame key version cid (bw_data (encode_body empty_writer cmd)) @ []) ([] @ enc_frame f)"
    by (intro runs_bind_quiet [OF runs_log [OF assms(1)]]
        runs_bind [OF runs_send_request [where encode_body = encode_body and cmd = cmd, OF assms(1-3)]]
        runs_final [where f = k, OF runs_recv_response [OF assms(1,2,4)] assms(5)])
  then show ?thesis by simp
qed

lemma hs_peer_properties_runs:
  assumes "session os s cfg out inp" and "healthy os s inp budget"
    and "answer_of f PeerPropertiesResponse_kKey 1 PeerPropertiesResponse_decode_body = Some pp"
    and "ppr_response_code pp = rc_Ok"
  shows "runs out inp (hs_peer_properties os s cfg 1 0) (Ok (ppr_properties pp))
    (peer_properties_frame cfg) (enc_frame f)"
  unfolding hs_peer_properties_def peer_properties_frame_def ppq.body_eq [symmetric]
  by (rule runs_request_response [OF assms(1,2) _ assms(3)])
    (auto simp: assms(4) intro: runs_bind_quiet [OF runs_log [OF assms(1)] runs_return])

lemma hs_sasl_handshake_runs:
  assumes "session os s cfg out inp" and "healthy os s inp budget"
    and "answer_of f SaslHandshakeResponse_kKey 2 SaslHandshakeResponse_decode_body = Some sh"
    and "shr_response_code sh = rc_Ok" and "''PLAIN'' \<in> set (shr_mechanisms sh)"
  shows "runs out inp (hs_sasl_handshake os s cfg 2 0) (Ok ()) sasl_handshake_frame (enc_frame f)"
proof -
  have frame: "sasl_handshake_frame = encode_request_frame SaslHandshakeRequest_kKey kVersion 2
      (bw_data (SaslHandshakeRequest_encode_body empty_writer SaslHandshakeRequest))"
    by (simp add: sasl_handshake_frame_def shq.body_eq enc_SaslHandshakeRequest_def)
  show ?thesis
    unfolding hs_sasl_handshake_def frame
    by (rule runs_request_response [OF assms(1,2) _ assms(3)])
      (use assms(4,5) in \<open>auto simp: list_ex_iff intro: runs_log [OF assms(1)]\<close>)
qed

lemma sasl_round_runs:
  assumes "session os s cfg out inp" and "healthy os s inp budget" and "sasl_code f cid = Some code"
  shows "\<exists>resp. sar_response_code resp = code \<and>
    runs out inp (sasl_round os s cfg cid 0) (Ok resp) (authenticate_frame cfg cid) (enc_frame f)"
proof -
  from assms(3) obtain resp where
    resp: "answer_of f SaslAuthenticateResponse_kKey cid SaslAuthenticateResponse_decode_body = Some resp"
    "sar_response_code resp = code" by (auto simp: sasl_code_def)
  have "runs out inp (sasl_round os s cfg cid 0) (Ok resp) (authenticate_frame cfg cid @ []) ([] @ enc_frame f)"
    unfolding sasl_round_def authenticate_frame_def saq.body_eq [symmetric]
    by (intro runs_bind [OF runs_send_request [OF assms(1,2)]] runs_recv_response [OF assms(1,2) resp(1)]) simp
  with resp(2) show ?thesis by auto
qed

lemma rc_Ok_not_challenge [simp]: "rc_Ok \<noteq> rc_SaslChallenge" "rc_SaslChallenge \<noteq> rc_Ok"
  by (simp_all add: wire_consts)

text \<open>The result of the loop when the last code is \<open>code\<close>.\<close>

definition sasl_outcome :: "u16 \<Rightarrow> u32 \<Rightarrow> u32 result" where
  "sasl_outcome code cid =
     (if code = rc_Ok then Ok (cid + 1) else Err (map_response_code code ''SaslAuthenticate''))"

text \<open>The last round of the loop, and a round that is challenged.\<close>

lemma sasl_loop_last:
  assumes "session os s cfg out inp" and "healthy os s inp budget"
    and "sasl_code f cid = Some code" and "code \<noteq> rc_SaslChallenge"
  shows "runs out inp (sasl_loop os s cfg 0 cid) (sasl_outcome code cid) (authenticate_frame cfg cid) (enc_frame f)"
proof -
  from sasl_round_runs [OF assms(1-3)] obtain resp where resp: "sar_response_code resp = code"
    "runs out inp (sasl_round os s cfg cid 0) (Ok resp) (authenticate_frame cfg cid) (enc_frame f)" by blast
  show ?thesis
  proof (rule runsI)
    fix w t
    assume "inp w = enc_frame f @ t"
    then obtain w1 where "sasl_round os s cfg cid 0 w = Some (Ok resp, w1)"
      "exchanged out inp w w1 (authenticate_frame cfg cid) (enc_frame f)"
      using resp(2) by (auto elim: runsE)
    with resp(1) assms(4) show "\<exists>w'. sasl_loop os s cfg 0 cid w = Some (sasl_outcome code cid, w') \<and>
        exchanged out inp w w' (authenticate_frame cfg cid) (enc_frame f)"
      by (subst sasl_loop.simps) (simp add: sasl_outcome_def)
  qed
qed

lemma sasl_loop_challenge:
  assumes "session os s cfg out inp" and "healthy os s inp budget"
    and "sasl_code g cid = Some rc_SaslChallenge" and rest: "runs out inp (sasl_loop os s cfg 0 (cid + 1)) r sent rcvd"
  shows "runs out inp (sasl_loop os s cfg 0 cid) r (authenticate_frame cfg cid @ sent) (enc_frame g @ rcvd)"
proof -
  from sasl_round_runs [OF assms(1-3)] obtain resp where resp: "sar_response_code resp = rc_SaslChallenge"
    "runs out inp (sasl_round os s cfg cid 0) (Ok resp) (authenticate_frame cfg cid) (enc_frame g)" by blast
  show ?thesis
  proof (rule runsI)
    fix w t
    assume inp: "inp w = (enc_frame g @ rcvd) @ t"
    then obtain w1 where 1: "sasl_round os s cfg cid 0 w = Some (Ok resp, w1)"
      "exchanged out inp w w1 (authenticate_frame cfg cid) (enc_frame g)"
      using resp(2) by (auto elim: runsE)
    with inp have "inp w1 = rcvd @ t" by (simp add: exchanged_def)
    then obtain w2 where 2: "sasl_loop os s cfg 0 (cid + 1) w1 = Some (r, w2)" "exchanged out inp w1 w2 sent rcvd"
      using rest by (auto elim: runsE)
    have "sasl_loop os s cfg 0 cid w = Some (r, w2)"
      using 1 2(1) resp(1) by (subst sasl_loop.simps) simp
    with exchanged_trans [OF 1(2) 2(2)] show "\<exists>w'. sasl_loop os s cfg 0 cid w = Some (r, w') \<and>
        exchanged out inp w w' (authenticate_frame cfg cid @ sent) (enc_frame g @ rcvd)" by blast
  qed
qed

lemma sasl_loop_runs:
  assumes "session os s cfg out inp" and "healthy os s inp budget"
    and "challenged cid fs" and "sasl_code f (cid + word_of_nat (length fs)) = Some code"
    and "code \<noteq> rc_SaslChallenge"
  shows "runs out inp (sasl_loop os s cfg 0 cid) (sasl_outcome code (cid + word_of_nat (length fs)))
    (authenticate_frames cfg cid (Suc (length fs))) (concat (map enc_frame (fs @ [f])))"
  using assms(3,4)
proof (induction fs arbitrary: cid)
  case Nil
  then show ?case using sasl_loop_last [OF assms(1,2) _ assms(5), of f cid] by simp
next
  case (Cons g fs)
  have "runs out inp (sasl_loop os s cfg 0 (cid + 1))
      (sasl_outcome code (cid + 1 + word_of_nat (length fs)))
      (authenticate_frames cfg (cid + 1) (Suc (length fs))) (concat (map enc_frame (fs @ [f])))"
    using Cons.prems by (intro Cons.IH) (simp_all add: ac_simps)
  from sasl_loop_challenge [OF assms(1,2) _ this, of g] Cons.prems(1) show ?case
    by (simp add: ac_simps)
qed

lemma hs_sasl_authenticate_runs:
  assumes "session os s cfg out inp" and "healthy os s inp budget"
    and "challenged 3 fs" and "sasl_code f (3 + word_of_nat (length fs)) = Some code"
    and "code \<noteq> rc_SaslChallenge"
  shows "runs out inp (hs_sasl_authenticate os s cfg 3 0) (sasl_outcome code (3 + word_of_nat (length fs)))
    (authenticate_frames cfg 3 (Suc (length fs))) (concat (map enc_frame (fs @ [f])))"
proof (cases "code = rc_Ok")
  case True
  have "runs out inp (sasl_loop os s cfg 0 3) (Ok (3 + word_of_nat (length fs) + 1))
      (authenticate_frames cfg 3 (Suc (length fs))) (concat (map enc_frame (fs @ [f])))"
    using sasl_loop_runs [OF assms] True by (simp add: sasl_outcome_def)
  moreover have "runs out inp (io_bind (hs_log cfg ''step 3 ok'') (\<lambda>_. io_return c)) (Ok c) [] []" for c
    by (rule runs_bind_quiet [OF runs_log [OF assms(1)] runs_return])
  ultimately show ?thesis
    unfolding hs_sasl_authenticate_def sasl_outcome_def True if_True [THEN eq_reflection]
    by (intro runs_bind_quiet [OF runs_log [OF assms(1)]]) (rule runs_final, simp_all)
next
  case False
  let ?e = "map_response_code code ''SaslAuthenticate''"
  have "runs out inp (sasl_loop os s cfg 0 3) (Err ?e)
      (authenticate_frames cfg 3 (Suc (length fs))) (concat (map enc_frame (fs @ [f])))"
    using sasl_loop_runs [OF assms] False by (simp add: sasl_outcome_def)
  then have "runs out inp (io_bind (sasl_loop os s cfg 0 3) k) (Err ?e)
      (authenticate_frames cfg 3 (Suc (length fs))) (concat (map enc_frame (fs @ [f])))" for k :: "u32 \<Rightarrow> ('a, u32) io"
    by (rule runs_Err)
  then show ?thesis
    unfolding hs_sasl_authenticate_def using False
    by (simp add: sasl_outcome_def runs_bind_quiet [OF runs_log [OF assms(1)]])
qed

lemma hs_tune_runs:
  assumes "session os s cfg out inp" and "healthy os s inp budget"
    and "push_of f Tune_kKey Tune_decode_body = Some tune"
    and "fm = negotiate_frame_max (tune_frame_max tune) (cfg_requested_frame_max_bytes cfg)"
    and "hb = negotiate_heartbeat (tune_heartbeat tune) (cfg_requested_heartbeat_seconds cfg)"
  shows "runs out inp (hs_tune os s cfg) (Ok (fm, hb)) (tune_frame fm hb) (enc_frame f)"
proof -
  have "runs out inp (hs_tune os s cfg) (Ok (fm, hb)) ([] @ tune_frame fm hb) (enc_frame f @ [])"
    unfolding hs_tune_def Let_def assms(4,5) tune_frame_def tune.body_eq [symmetric]
    by (intro runs_bind_quiet [OF runs_log [OF assms(1)]] runs_bind [OF runs_recv_oneway [OF assms(1-3)]])
      (rule runs_final [OF runs_send_oneway [OF assms(1,2)]], rule runs_return)
  then show ?thesis by simp
qed

lemma hs_open_runs:
  assumes "session os s cfg out inp" and "healthy os s inp budget" and "open_fits cfg fm"
    and "answer_of f OpenResponse_kKey cid OpenResponse_decode_body = Some op"
    and "opr_response_code op = rc_Ok"
  shows "runs out inp (hs_open os s cfg cid fm) (Ok (opr_connection_properties op))
    (open_frame cfg cid) (enc_frame f)"
  unfolding hs_open_def open_frame_def opq.body_eq [symmetric]
  by (rule runs_request_response [OF assms(1,2) _ assms(4)])
    (use assms(3,5) in \<open>auto simp: open_fits_def opq.body_eq
      intro: runs_bind_quiet [OF runs_log [OF assms(1)] runs_return]\<close>)

text \<open>The parts of a script that has a result.\<close>

lemma script_resultE:
  assumes "script_result cfg sv = Some hr"
  obtains pp sh tune op where
    "answer_of (sv_peer_properties sv) PeerPropertiesResponse_kKey 1 PeerPropertiesResponse_decode_body = Some pp"
    "ppr_response_code pp = rc_Ok"
    "answer_of (sv_sasl_handshake sv) SaslHandshakeResponse_kKey 2 SaslHandshakeResponse_decode_body = Some sh"
    "shr_response_code sh = rc_Ok" "''PLAIN'' \<in> set (shr_mechanisms sh)"
    "challenged 3 (sv_challenges sv)"
    "sasl_code (sv_authenticated sv) (3 + word_of_nat (length (sv_challenges sv))) = Some rc_Ok"
    "push_of (sv_tune sv) Tune_kKey Tune_decode_body = Some tune"
    "hr_negotiated_frame_max hr = negotiate_frame_max (tune_frame_max tune) (cfg_requested_frame_max_bytes cfg)"
    "hr_negotiated_heartbeat hr = negotiate_heartbeat (tune_heartbeat tune) (cfg_requested_heartbeat_seconds cfg)"
    "open_fits cfg (hr_negotiated_frame_max hr)"
    "answer_of (sv_open sv) OpenResponse_kKey (4 + word_of_nat (length (sv_challenges sv))) OpenResponse_decode_body = Some op"
    "opr_response_code op = rc_Ok"
    "hr_server_properties hr = ppr_properties pp" "hr_connection_properties hr = opr_connection_properties op"
proof -
  from assms obtain props fm hb cprops where parts: "script_peer sv = Some props"
    "script_tune cfg sv = Some (fm, hb)" "script_open sv = Some cprops" "script_plain sv"
    "script_authenticated sv" "open_fits cfg fm"
    "hr = \<lparr>hr_negotiated_frame_max = fm, hr_negotiated_heartbeat = hb,
      hr_server_properties = props, hr_connection_properties = cprops\<rparr>"
    unfolding script_result_def by (auto split: option.splits if_splits)
  from parts(1) obtain pp where pp: "answer_of (sv_peer_properties sv) PeerPropertiesResponse_kKey 1
      PeerPropertiesResponse_decode_body = Some pp" "ppr_response_code pp = rc_Ok" "props = ppr_properties pp"
    unfolding script_peer_def by (auto split: option.splits if_splits)
  from parts(4) obtain sh where sh: "answer_of (sv_sasl_handshake sv) SaslHandshakeResponse_kKey 2
      SaslHandshakeResponse_decode_body = Some sh" "shr_response_code sh = rc_Ok"
      "''PLAIN'' \<in> set (shr_mechanisms sh)"
    unfolding script_plain_def by (auto split: option.splits)
  from parts(2) obtain tune where tune: "push_of (sv_tune sv) Tune_kKey Tune_decode_body = Some tune"
    "fm = negotiate_frame_max (tune_frame_max tune) (cfg_requested_frame_max_bytes cfg)"
    "hb = negotiate_heartbeat (tune_heartbeat tune) (cfg_requested_heartbeat_seconds cfg)"
    unfolding script_tune_def by (auto split: option.splits)
  from parts(3) obtain op where op: "answer_of (sv_open sv) OpenResponse_kKey
      (4 + word_of_nat (length (sv_challenges sv))) OpenResponse_decode_body = Some op"
      "opr_response_code op = rc_Ok" "cprops = opr_connection_properties op"
    unfolding script_open_def script_cid_def by (auto split: option.splits if_splits simp: ac_simps)
  show thesis
    using that [OF pp(1,2) sh] tune op pp(3) parts(5-7)
    by (simp add: script_authenticated_def script_cid_def)
qed

lemma run_handshake_complete:
  assumes "session os s cfg out inp" and "healthy os s inp budget"
    and "script_result cfg sv = Some hr"
  shows "runs out inp (run_handshake os s cfg) (Ok hr)
    (handshake_bytes cfg (length (sv_challenges sv)) hr) (script_bytes sv)"
proof -
  let ?n = "word_of_nat (length (sv_challenges sv)) :: u32"
  from assms(3) obtain pp sh tune op where
    1: "answer_of (sv_peer_properties sv) PeerPropertiesResponse_kKey 1 PeerPropertiesResponse_decode_body = Some pp"
      "ppr_response_code pp = rc_Ok"
    and 2: "answer_of (sv_sasl_handshake sv) SaslHandshakeResponse_kKey 2 SaslHandshakeResponse_decode_body = Some sh"
      "shr_response_code sh = rc_Ok" "''PLAIN'' \<in> set (shr_mechanisms sh)"
    and 3: "challenged 3 (sv_challenges sv)" "sasl_code (sv_authenticated sv) (3 + ?n) = Some rc_Ok"
    and 4: "push_of (sv_tune sv) Tune_kKey Tune_decode_body = Some tune"
      "hr_negotiated_frame_max hr = negotiate_frame_max (tune_frame_max tune) (cfg_requested_frame_max_bytes cfg)"
      "hr_negotiated_heartbeat hr = negotiate_heartbeat (tune_heartbeat tune) (cfg_requested_heartbeat_seconds cfg)"
    and 5: "open_fits cfg (hr_negotiated_frame_max hr)"
      "answer_of (sv_open sv) OpenResponse_kKey (4 + ?n) OpenResponse_decode_body = Some op"
      "opr_response_code op = rc_Ok"
    and hr: "hr_server_properties hr = ppr_properties pp"
      "hr_connection_properties hr = opr_connection_properties op"
    by (rule script_resultE)
  have auth: "runs out inp (hs_sasl_authenticate os s cfg 3 0) (Ok (4 + ?n))
      (authenticate_frames cfg 3 (Suc (length (sv_challenges sv))))
      (concat (map enc_frame (sv_challenges sv @ [sv_authenticated sv])))"
    using hs_sasl_authenticate_runs [OF assms(1,2) 3] by (simp add: sasl_outcome_def ac_simps)
  have result: "\<lparr>hr_negotiated_frame_max = hr_negotiated_frame_max hr,
      hr_negotiated_heartbeat = hr_negotiated_heartbeat hr, hr_server_properties = ppr_properties pp,
      hr_connection_properties = opr_connection_properties op\<rparr> = hr"
    by (simp flip: hr)
  show ?thesis
    unfolding run_handshake_def handshake_bytes_def script_bytes_def
    by (intro runs_bind [OF hs_peer_properties_runs [OF assms(1,2) 1]]
        runs_bind [OF hs_sasl_handshake_runs [OF assms(1,2) 2]] runs_bind [OF auth]
        runs_bind [OF hs_tune_runs [OF assms(1,2) 4]])
      (unfold prod.case, rule runs_final [OF hs_open_runs [OF assms(1,2) 5]], unfold result, rule runs_return)
qed

text \<open>
  A server that refuses the credentials: the client reports the mapped code and has sent nothing
  beyond the authentication.
\<close>

lemma run_handshake_refused:
  assumes "session os s cfg out inp" and "healthy os s inp budget"
    and "script_peer sv = Some props" and "script_plain sv" and "challenged 3 (sv_challenges sv)"
    and "sasl_code (sv_authenticated sv) (script_cid sv) = Some code"
    and "code \<noteq> rc_Ok" "code \<noteq> rc_SaslChallenge"
  shows "runs out inp (run_handshake os s cfg) (Err (map_response_code code ''SaslAuthenticate''))
    (peer_properties_frame cfg @ sasl_handshake_frame @
       authenticate_frames cfg 3 (Suc (length (sv_challenges sv))))
    (enc_frame (sv_peer_properties sv) @ enc_frame (sv_sasl_handshake sv) @
       concat (map enc_frame (sv_challenges sv @ [sv_authenticated sv])))"
proof -
  from assms(3) obtain pp where pp: "answer_of (sv_peer_properties sv) PeerPropertiesResponse_kKey 1
      PeerPropertiesResponse_decode_body = Some pp" "ppr_response_code pp = rc_Ok"
    unfolding script_peer_def by (auto split: option.splits if_splits)
  from assms(4) obtain sh where sh: "answer_of (sv_sasl_handshake sv) SaslHandshakeResponse_kKey 2
      SaslHandshakeResponse_decode_body = Some sh" "shr_response_code sh = rc_Ok"
      "''PLAIN'' \<in> set (shr_mechanisms sh)"
    unfolding script_plain_def by (auto split: option.splits)
  have "runs out inp (hs_sasl_authenticate os s cfg 3 0) (Err (map_response_code code ''SaslAuthenticate''))
      (authenticate_frames cfg 3 (Suc (length (sv_challenges sv))))
      (concat (map enc_frame (sv_challenges sv @ [sv_authenticated sv])))"
    using hs_sasl_authenticate_runs [OF assms(1,2,5) assms(6) [unfolded script_cid_def] assms(8)] assms(7)
    by (simp add: sasl_outcome_def)
  then show ?thesis
    unfolding run_handshake_def
    by (intro runs_bind [OF hs_peer_properties_runs [OF assms(1,2) pp]]
        runs_bind [OF hs_sasl_handshake_runs [OF assms(1,2) sh]] runs_Err)
qed

section \<open>Termination\<close>

text \<open>Every round of the challenge loop consumes a frame, so the bytes of the peer bound it.\<close>

lemma log_failure_returns [returns_intros]: "io_returns m \<Longrightarrow> io_returns (log_failure cfg prefix m)"
proof (rule io_returnsI)
  fix w
  assume "io_returns m"
  then obtain r w' where "m w = Some (r, w')" unfolding io_returns_def by fastforce
  then show "\<exists>res. log_failure cfg prefix m w = Some res"
    by (cases r) (simp_all add: log_failure_def)
qed

lemma hs_log_returns [returns_intros]: "io_returns (hs_log cfg msg)"
  by (simp add: io_returns_def hs_log_def)

lemma send_returns [returns_intros]:
  assumes "interrupts_bounded os (sock_fd s) budget"
  shows "io_returns (send_request os s encode_body key version cmd cid frame_max)"
    "io_returns (send_oneway os s encode_body key version cmd frame_max)"
  unfolding send_request_def send_oneway_def Let_def
  by (auto split: sum.split intro: returns_intros write_all_returns [OF assms])

lemma recv_returns [returns_intros]:
  assumes "interrupts_bounded os (sock_fd s) budget" and "recv_takes os (sock_fd s) inp"
  shows "io_returns (recv_response os s key dec cid)" "io_returns (recv_oneway os s key dec)"
  unfolding recv_response_def recv_oneway_def
  by (intro returns_intros read_frame_returns [OF assms])+

lemma sasl_loop_returns:
  assumes bounded: "interrupts_bounded os (sock_fd s) budget" and ses: "session os s cfg out inp"
  shows "io_returns (sasl_loop os s cfg fm cid)"
proof (rule io_returnsI)
  fix w
  have takes: "recv_takes os (sock_fd s) inp"
    using ses by (simp add: session_def tcp_stream_def)
  show "\<exists>res. sasl_loop os s cfg fm cid w = Some res"
  proof (induction "length (inp w)" arbitrary: w cid rule: less_induct)
    case less
    have "io_returns (sasl_round os s cfg cid fm)"
      unfolding sasl_round_def by (intro returns_intros send_returns [OF bounded] recv_returns [OF bounded takes])
    then obtain r w1 where round: "sasl_round os s cfg cid fm w = Some (r, w1)"
      unfolding io_returns_def by force
    show ?case
    proof (cases r)
      case (Inl e)
      with round show ?thesis by (subst sasl_loop.simps) simp
    next
      case (Inr resp)
      from sasl_round_ok [OF round [unfolded Inr] ses] obtain f where
        "exchanged out inp w w1 (authenticate_frame cfg cid) (enc_frame f)" by blast
      then have "length (inp w1) < length (inp w)"
        by (simp add: exchanged_def length_enc_frame)
      from less [OF this, of "cid + 1"] round Inr show ?thesis
        by (subst sasl_loop.simps) auto
    qed
  qed
qed

text \<open>
  The loop itself has no bound. While the server challenges every round, whatever it has sent so far (the
  predicate \<open>Q\<close> holds at the beginning of every round), it does not return.
\<close>

lemma sasl_loop_endless:
  assumes round: "\<And>cid w. Q cid w \<Longrightarrow> \<exists>resp w'. sasl_round os s cfg cid fm w = Some (Ok resp, w') \<and>
      sar_response_code resp = rc_SaslChallenge \<and> Q (cid + 1) w'"
    and "Q cid w"
  shows "sasl_loop os s cfg fm cid w = None"
proof (cases "sasl_loop os s cfg fm cid w")
  case (Some res)
  then have "os = os \<and> s = s \<and> cfg = cfg \<and> fm = fm \<longrightarrow> \<not> Q cid w"
  proof (rule sasl_loop.raw_induct [where P = "\<lambda>os' s' cfg' fm' cid w res.
      os' = os \<and> s' = s \<and> cfg' = cfg \<and> fm' = fm \<longrightarrow> \<not> Q cid w", rotated], goal_cases)
    case (1 loop os' s' cfg' fm' cid w res)
    show ?case
    proof (intro impI notI)
      assume same: "os' = os \<and> s' = s \<and> cfg' = cfg \<and> fm' = fm" and "Q cid w"
      from round [OF this(2)] obtain resp w' where r: "sasl_round os s cfg cid fm w = Some (Ok resp, w')"
        "sar_response_code resp = rc_SaslChallenge" "Q (cid + 1) w'" by blast
      with 1(2) same have "loop os s cfg fm (cid + 1) w' = Some res" by simp
      from 1(1) [OF this] r(3) show False by simp
    qed
  qed
  with assms(2) show ?thesis by simp
qed

lemma run_handshake_returns:
  assumes "interrupts_bounded os (sock_fd s) budget" and "session os s cfg out inp"
  shows "io_returns (run_handshake os s cfg)"
proof -
  have takes: "recv_takes os (sock_fd s) inp"
    using assms(2) by (simp add: session_def tcp_stream_def)
  note intros = returns_intros send_returns [OF assms(1)] recv_returns [OF assms(1) takes]
    sasl_loop_returns [OF assms]
  have "io_returns (hs_peer_properties os s cfg cid fm)" "io_returns (hs_sasl_handshake os s cfg cid fm)"
    "io_returns (hs_sasl_authenticate os s cfg cid fm)" "io_returns (hs_tune os s cfg)"
    "io_returns (hs_open os s cfg cid fm)" for cid fm
    unfolding hs_peer_properties_def hs_sasl_handshake_def hs_sasl_authenticate_def hs_tune_def
      hs_open_def Let_def
    by (intro intros)+
  then show ?thesis
    unfolding run_handshake_def case_prod_unfold by (intro returns_intros)
qed

section \<open>What the handshake leaves alone\<close>

lemma hs_log_keeps [keeps_intros]: "log_keeps cfg v \<Longrightarrow> io_keeps v (hs_log cfg msg)"
  by (rule io_keepsI) (auto simp: hs_log_def log_keeps_def)

lemma log_failure_keeps [keeps_intros]:
  assumes "log_keeps cfg v" and "io_keeps v m"
  shows "io_keeps v (log_failure cfg prefix m)"
proof (rule io_keepsI)
  fix w r w'
  assume run: "log_failure cfg prefix m w = Some (r, w')"
  then obtain r1 w1 where m: "m w = Some (r1, w1)" by (auto simp: log_failure_def split: option.splits)
  from io_keepsD [OF assms(2) m] run m assms(1) show "v w' = v w"
    by (auto simp: log_failure_def log_keeps_def split: sum.splits)
qed

lemma send_commands_keep [keeps_intros]:
  assumes "send_keeps os (sock_fd s) v"
  shows "io_keeps v (send_request os s encode_body key version cmd cid frame_max)"
    "io_keeps v (send_oneway os s encode_body key version cmd frame_max)"
  unfolding send_request_def send_oneway_def Let_def
  by (auto split: sum.split intro: keeps_intros assms)

lemma recv_commands_keep [keeps_intros]:
  assumes "recv_keeps os (sock_fd s) v"
  shows "io_keeps v (recv_response os s key dec cid)" "io_keeps v (recv_oneway os s key dec)"
  unfolding recv_response_def recv_oneway_def by (intro keeps_intros assms)+

lemma sasl_loop_keeps:
  assumes "sasl_loop os s cfg fm cid w = Some res"
  shows "send_keeps os (sock_fd s) v \<and> recv_keeps os (sock_fd s) v \<and> log_keeps cfg v \<longrightarrow> v (snd res) = v w"
proof (rule sasl_loop.raw_induct [where P = "\<lambda>os s cfg fm cid w res.
    send_keeps os (sock_fd s) v \<and> recv_keeps os (sock_fd s) v \<and> log_keeps cfg v \<longrightarrow> v (snd res) = v w"], goal_cases)
  case (1 loop os s cfg fm cid w res)
  note IH = 1(1) and body = 1(2)
  show ?case
  proof
    assume keeps: "send_keeps os (sock_fd s) v \<and> recv_keeps os (sock_fd s) v \<and> log_keeps cfg v"
    from body obtain sa w1 where round: "sasl_round os s cfg cid fm w = Some (sa, w1)"
      by (auto split: option.splits)
    have "io_keeps v (sasl_round os s cfg cid fm)"
      using keeps unfolding sasl_round_def by (intro keeps_intros) simp_all
    from io_keepsD [OF this round] have "v w1 = v w" .
    moreover have "v (snd res) = v w1" if "loop os s cfg fm cid' w1 = Some res" for cid'
      using IH [OF that] keeps by blast
    ultimately show "v (snd res) = v w"
      using body round by (auto split: sum.splits if_splits)
  qed
qed (rule assms)

lemma run_handshake_keeps:
  assumes "send_keeps os (sock_fd s) v" and "recv_keeps os (sock_fd s) v" and "log_keeps cfg v"
  shows "io_keeps v (run_handshake os s cfg)"
proof -
  have loop: "io_keeps v (sasl_loop os s cfg fm cid)" for fm cid
    by (rule io_keepsI) (use sasl_loop_keeps [of os s cfg fm cid _ _ v] assms in fastforce)
  have "io_keeps v (hs_peer_properties os s cfg cid fm)" "io_keeps v (hs_sasl_handshake os s cfg cid fm)"
    "io_keeps v (hs_sasl_authenticate os s cfg cid fm)" "io_keeps v (hs_tune os s cfg)"
    "io_keeps v (hs_open os s cfg cid fm)" for cid fm
    unfolding hs_peer_properties_def hs_sasl_handshake_def hs_sasl_authenticate_def hs_tune_def
      hs_open_def Let_def
    by (intro keeps_intros loop assms)+
  then show ?thesis
    unfolding run_handshake_def case_prod_unfold by (intro keeps_intros)
qed

section \<open>Negotiation\<close>

lemma negotiate_frame_max_bounds:
  "server \<noteq> 0 \<Longrightarrow> negotiate_frame_max server requested \<le> server \<and> negotiate_frame_max server requested \<noteq> 0"
  "requested \<noteq> 0 \<Longrightarrow> negotiate_frame_max server requested \<le> requested \<and> negotiate_frame_max server requested \<noteq> 0"
  by (auto simp: negotiate_frame_max_def min_def)

lemma negotiate_heartbeat_bounds:
  "negotiate_heartbeat server requested \<le> server"
  "requested \<noteq> 0 \<Longrightarrow> negotiate_heartbeat server requested \<le> requested"
  by (auto simp: negotiate_heartbeat_def min_def)

end
