(* ===== verification/Client.thy ===== *)
theory Client
  imports Handshake Dispatcher
begin

text \<open>
  \<open>client.hpp\<close> and \<open>client.cpp\<close>: the connection state machine of \<open>StreamClient\<close>, its I/O and
  heartbeat threads and the lifecycle commands. An operation runs on the pair of the client
  object and the world. Where it blocks on another thread (\<open>future::wait_for\<close>, \<open>thread::join\<close>,
  a blocked \<open>recv\<close>), the other threads run; what they do is the parameter \<open>env\<close>.

  \<open>client_step\<close> is the interleaving view: one rule per critical section or atomic access of any
  thread. Every operation, as it is written, is a run of these steps (provided the other threads
  take such steps too), so the invariants shown for the steps hold at every moment of every run.
\<close>

section \<open>State\<close>

datatype ConnectionState = Disconnected | Connecting | Open | Closing | Closed

record 'w client =
  cl_cfg :: "'w ConnectionConfig"
  cl_state :: ConnectionState
  cl_sock :: socket
  cl_writer :: bool
  cl_reader :: bool
  cl_dispatcher :: dispatcher
  cl_io_thread :: bool
  cl_stop_io :: bool
  cl_last_inbound_at :: int
  cl_last_outbound_at :: int
  cl_heartbeat_thread :: bool
  cl_next_app_cid :: u32
  cl_negotiated_frame_max :: u32
  cl_negotiated_heartbeat :: u32
  cl_server_props :: "key_value list"
  cl_conn_props :: "key_value list"
  cl_on_unexpected_close :: "nat option"
  cl_unexpected_fired :: bool
  cl_closing :: bool
  cl_callbacks :: "(nat \<times> UnexpectedClose) list"

text \<open>
  \<open>cl_writer\<close> and \<open>cl_reader\<close>: whether the pointers are set; both refer to \<open>cl_sock\<close>.
  \<open>cl_io_thread\<close> and \<open>cl_heartbeat_thread\<close>: whether the thread is running. A callback is a number;
  \<open>cl_callbacks\<close> lists the calls that detached threads were started for.
\<close>

type_synonym 'w st = "'w client \<times> 'w"

record 'w env =
  env_wait_for :: "nat \<Rightarrow> int \<Rightarrow> 'w st \<Rightarrow> bool \<times> 'w st"
  env_join :: "'w st \<Rightarrow> 'w st option"
  env_others :: "'w st \<Rightarrow> 'w st"
  env_sleep :: "'w st \<Rightarrow> 'w st"

text \<open>
  What the other threads do while the running one waits for a future, joins the I/O and heartbeat
  threads (None: they never end), is between two of its critical sections, or sleeps.
\<close>

definition StreamClient :: "'w ConnectionConfig \<Rightarrow> 'w client" where
  "StreamClient cfg =
     \<lparr>cl_cfg = cfg, cl_state = Disconnected, cl_sock = new_socket, cl_writer = False,
      cl_reader = False, cl_dispatcher = new_dispatcher, cl_io_thread = False, cl_stop_io = False,
      cl_last_inbound_at = 0, cl_last_outbound_at = 0, cl_heartbeat_thread = False,
      cl_next_app_cid = 100, cl_negotiated_frame_max = 0, cl_negotiated_heartbeat = 0,
      cl_server_props = [], cl_conn_props = [], cl_on_unexpected_close = None,
      cl_unexpected_fired = False, cl_closing = False, cl_callbacks = []\<rparr>"

definition ms :: "int \<Rightarrow> int" where
  "ms n = n * 1000000"

definition seconds :: "int \<Rightarrow> int" where
  "seconds n = n * 1000000000"

section \<open>Critical sections\<close>

text \<open>The accesses to the shared members, one definition for each critical section.\<close>

definition set_state :: "ConnectionState \<Rightarrow> 'w client \<Rightarrow> 'w client" where
  "set_state s c = c\<lparr>cl_state := s\<rparr>"

definition begin_closing :: "'w client \<Rightarrow> 'w client" where
  "begin_closing c = c\<lparr>cl_state := Closing, cl_closing := True\<rparr>"

definition next_app_cid :: "'w client \<Rightarrow> u32 \<times> 'w client" where
  "next_app_cid c = (cl_next_app_cid c, c\<lparr>cl_next_app_cid := cl_next_app_cid c + 1\<rparr>)"

definition client_register :: "u32 \<Rightarrow> int \<Rightarrow> 'w client \<Rightarrow> nat \<times> 'w client" where
  "client_register cid deadline c =
     (let (p, d) = register_pending cid deadline (cl_dispatcher c) in (p, c\<lparr>cl_dispatcher := d\<rparr>))"

definition client_fail_all :: "stream_error \<Rightarrow> 'w client \<Rightarrow> 'w client" where
  "client_fail_all e c = c\<lparr>cl_dispatcher := fail_all_pending e (cl_dispatcher c)\<rparr>"

definition client_reap :: "int \<Rightarrow> 'w client \<Rightarrow> 'w client" where
  "client_reap now c = c\<lparr>cl_dispatcher := snd (reap_expired now (cl_dispatcher c))\<rparr>"

definition client_dispatch :: "incoming_frame \<Rightarrow> 'w client \<Rightarrow> 'w client" where
  "client_dispatch frame c = c\<lparr>cl_dispatcher := snd (dispatch frame (cl_dispatcher c))\<rparr>"

definition notify_unexpected_close :: "UnexpectedClose \<Rightarrow> 'w client \<Rightarrow> 'w client" where
  "notify_unexpected_close evt c =
     (if cl_unexpected_fired c then c
      else
        (let c = c\<lparr>cl_unexpected_fired := True\<rparr> in
         case cl_on_unexpected_close c of
           None \<Rightarrow> c
         | Some cb \<Rightarrow> c\<lparr>cl_callbacks := cl_callbacks c @ [(cb, evt)]\<rparr>))"

definition io_exit :: "'w client \<Rightarrow> 'w client" where
  "io_exit c =
     (let c = (if cl_state c \<noteq> Closed \<and> cl_state c \<noteq> Closing then c\<lparr>cl_state := Closed\<rparr> else c)
      in c\<lparr>cl_io_thread := False\<rparr>)"

text \<open>What \<open>connect\<close> stores between the end of the handshake and the start of the threads.\<close>

definition store_handshake :: "HandshakeResult \<Rightarrow> 'w client \<Rightarrow> 'w client" where
  "store_handshake hr c =
     c\<lparr>cl_negotiated_frame_max := hr_negotiated_frame_max hr,
       cl_negotiated_heartbeat := hr_negotiated_heartbeat hr,
       cl_server_props := hr_server_properties hr, cl_conn_props := hr_connection_properties hr\<rparr>"

definition become_open :: "int \<Rightarrow> int \<Rightarrow> 'w client \<Rightarrow> 'w client" where
  "become_open t1 t2 c =
     c\<lparr>cl_state := Open, cl_closing := False, cl_last_inbound_at := t1, cl_last_outbound_at := t2,
       cl_stop_io := False, cl_unexpected_fired := False, cl_io_thread := True,
       cl_heartbeat_thread := (0 < cl_negotiated_heartbeat c)\<rparr>"

section \<open>connect\<close>

definition apply_recv_timeout :: "'w os \<Rightarrow> u32 \<Rightarrow> socket \<Rightarrow> 'w \<Rightarrow> 'w" where
  "apply_recv_timeout os hb s w =
     (if 0 < hb then snd (set_recv_timeout os (uint hb * 500) s w) else w)"

definition already_connecting :: stream_error where
  "already_connecting = StreamError ConnectionNotOpen ''already connecting or open''"

text \<open>The part of \<open>connect\<close> that runs once the TCP connection is there.\<close>

definition connect_session :: "'w os \<Rightarrow> socket \<Rightarrow> ('w st, unit) io" where
  "connect_session os sock = (\<lambda>(c, w).
     let cfg = cl_cfg c;
         ((s, _), w) = socket_move_assign os (cl_sock c) sock w;
         c = c\<lparr>cl_sock := s\<rparr>;
         w = apply_recv_timeout os (cfg_requested_heartbeat_seconds cfg) s w;
         c = c\<lparr>cl_writer := True, cl_reader := True\<rparr>
     in
     case run_handshake os s cfg w of
       None \<Rightarrow> None
     | Some (hs_r, w) \<Rightarrow>
     (case hs_r of
       Inl e \<Rightarrow>
         let (s, w) = socket_close os s w
         in Some (Err e, (set_state Closed (c\<lparr>cl_sock := s\<rparr>), w))
     | Inr hr \<Rightarrow>
         let c = store_handshake hr c;
             w = apply_recv_timeout os (cl_negotiated_heartbeat c) s w;
             (t1, w) = os_now os w;
             (t2, w) = os_now os w;
             c = become_open t1 t2 c;
             w = cfg_log cfg Info
                   (''connection open: frame_max='' @
                    decimal_digits (unat (cl_negotiated_frame_max c)) @ '' heartbeat='' @
                    decimal_digits (unat (cl_negotiated_heartbeat c)) @ '' vhost='' @
                    cfg_virtual_host cfg) w
         in Some (Ok (), (c, w))))"

definition connecting_to :: "'w ConnectionConfig \<Rightarrow> 'w \<Rightarrow> 'w" where
  "connecting_to cfg w =
     cfg_log cfg Info (''connecting to '' @ cfg_host cfg @ '':'' @ decimal_digits (unat (cfg_port cfg))) w"

definition connect :: "'w os \<Rightarrow> ('w st, unit) io" where
  "connect os = (\<lambda>(c, w).
     let cfg = cl_cfg c in
     case validate cfg of
       Inl e \<Rightarrow> Some (Err e, (c, w))
     | Inr _ \<Rightarrow>
     if cl_state c \<noteq> Disconnected then Some (Err already_connecting, (c, w))
     else
     let c = set_state Connecting c; w = connecting_to cfg w in
     case connect_with_timeout os (cfg_host cfg) (cfg_port cfg) (cfg_connect_timeout cfg)
            (default_resolve_host os) w of
       (sock_r, w) \<Rightarrow>
     (case sock_r of
       Inl e \<Rightarrow> Some (Err e, (set_state Closed c, w))
     | Inr sock \<Rightarrow> connect_session os sock (c, w)))"

section \<open>Threads\<close>

definition heartbeat_frame :: bytes where
  "heartbeat_frame =
     (let bw = Heartbeat_encode_body empty_writer Heartbeat
      in encode_oneway_frame Heartbeat_kKey kVersion (bw_data bw))"

text \<open>One round of the heartbeat thread after its sleep; the result of \<open>write_all\<close> is ignored.\<close>

definition heartbeat_tick :: "'w os \<Rightarrow> 'w st \<Rightarrow> 'w st option" where
  "heartbeat_tick os = (\<lambda>(c, w).
     if cl_stop_io c then Some (c\<lparr>cl_heartbeat_thread := False\<rparr>, w)
     else
       let interval = seconds (uint (cl_negotiated_heartbeat c));
           (now, w) = os_now os w;
           lo = cl_last_outbound_at c
       in if now - lo \<ge> interval then
            if cl_writer c then
              (case write_all os (cl_sock c) heartbeat_frame w of
                 None \<Rightarrow> None
               | Some (_, w) \<Rightarrow> Some (c\<lparr>cl_last_outbound_at := now\<rparr>, w))
            else Some (c, w)
          else Some (c, w))"

text \<open>The loop of the heartbeat thread; the other threads run while it sleeps.\<close>

partial_function (option) heartbeat_loop :: "'w os \<Rightarrow> 'w env \<Rightarrow> 'w st \<Rightarrow> 'w st option" where
  "heartbeat_loop os env st =
     (if cl_stop_io (fst st) then Some ((fst st)\<lparr>cl_heartbeat_thread := False\<rparr>, snd st)
      else
        (let st1 = env_sleep env st in
         case heartbeat_tick os st1 of
           None \<Rightarrow> None
         | Some st2 \<Rightarrow> if cl_stop_io (fst st1) then Some st2 else heartbeat_loop os env st2))"

definition dead_interval :: "'w client \<Rightarrow> int" where
  "dead_interval c =
     (if 0 < cl_negotiated_heartbeat c then seconds (uint (cl_negotiated_heartbeat c) * 2)
      else seconds (24 * 365 * 3600))"

definition heartbeat_timeout :: stream_error where
  "heartbeat_timeout = StreamError ConnectionClosed ''heartbeat timeout''"

definition heartbeat_lost :: UnexpectedClose where
  "heartbeat_lost =
     \<lparr>uc_reason = HeartbeatTimeout, uc_message = ''no data received for 2'' @
        [char_of (195 :: nat), char_of (151 :: nat)] @ ''heartbeat'', uc_during_handshake = False\<rparr>"

definition read_failed :: "stream_error \<Rightarrow> UnexpectedClose" where
  "read_failed e =
     \<lparr>uc_reason = (if kind e = ConnectionClosed then PeerClosedSocket else IoErrorReason),
      uc_message = message e, uc_during_handshake = False\<rparr>"

text \<open>
  The body of the loop after \<open>read_frame\<close>; True when the loop goes on. When it breaks, the other threads
  may run between \<open>fail_all_pending\<close>, the reading of \<open>closing_\<close> and the notification.
\<close>

definition io_handle :: "'w os \<Rightarrow> 'w env \<Rightarrow> incoming_frame result \<Rightarrow> 'w st \<Rightarrow> bool \<times> 'w st" where
  "io_handle os env frame_r = (\<lambda>(c, w).
     case frame_r of
       Inl e \<Rightarrow>
         if kind e = RequestTimeout then
           let (now, w) = os_now os w; li = cl_last_inbound_at c in
           if 0 < cl_negotiated_heartbeat c \<and> now - li > dead_interval c then
             let (c, w) = env_others env (client_fail_all heartbeat_timeout c, w)
             in (False, (notify_unexpected_close heartbeat_lost c, w))
           else (True, (client_reap now c, w))
         else
           let (c, w) = env_others env (client_fail_all e c, w);
               closing_now = cl_closing c;
               (c, w) = env_others env (c, w)
           in (False, (if \<not> closing_now then notify_unexpected_close (read_failed e) c else c, w))
     | Inr frame \<Rightarrow>
         let (t, w) = os_now os w; c = c\<lparr>cl_last_inbound_at := t\<rparr>;
             (now, w) = os_now os w
         in (True, (client_dispatch frame (client_reap now c), w)))"

partial_function (option) io_loop :: "'w os \<Rightarrow> 'w env \<Rightarrow> 'w st \<Rightarrow> 'w st option" where
  "io_loop os env st =
     (if cl_stop_io (fst st) then Some (io_exit (fst st), snd st)
      else
        (case read_frame os (cl_sock (fst st)) (snd st) of
           None \<Rightarrow> None
         | Some (frame_r, w) \<Rightarrow>
             (case io_handle os env frame_r (env_others env (fst st, w)) of
                (go_on, st') \<Rightarrow>
                  if go_on then io_loop os env st'
                  else let st'' = env_others env st' in Some (io_exit (fst st''), snd st''))))"

section \<open>Requests\<close>

text \<open>\<open>future::get\<close> on a future that is ready; it throws when the promise is broken.\<close>

definition future_get :: "nat \<Rightarrow> ('w st, incoming_frame) io" where
  "future_get p st =
     (case ds_shared (cl_dispatcher (fst st)) ! p of
        Ready r \<Rightarrow> Some (r, st)
      | Unset \<Rightarrow> None
      | Broken \<Rightarrow> None)"

text \<open>The part of \<open>send_and_wait\<close> before it blocks: the future to wait for.\<close>

definition begin_request :: "'w os \<Rightarrow> u16 \<Rightarrow> u16 \<Rightarrow> bytes \<Rightarrow> ('w st, nat) io" where
  "begin_request os key version body = (\<lambda>(c, w).
     let (cid, c) = next_app_cid c;
         (now, w) = os_now os w;
         deadline = now + ms (cfg_request_timeout (cl_cfg c));
         (fut, c) = client_register cid deadline c;
         frame = encode_request_frame key version cid body
     in
     case check_outbound_frame_size (length frame - 4) (cl_negotiated_frame_max c) of
       Inl e \<Rightarrow> Some (Err e, (c, w))
     | Inr _ \<Rightarrow>
         let (t, w) = os_now os w; c = c\<lparr>cl_last_outbound_at := t\<rparr> in
         (case write_all os (cl_sock c) frame w of
            None \<Rightarrow> None
          | Some (wr, w) \<Rightarrow>
              Some (case wr of Inl e \<Rightarrow> Err e | Inr _ \<Rightarrow> Ok fut, (c, w))))"

definition await_response :: "'w env \<Rightarrow> nat \<Rightarrow> ('w st, incoming_frame) io" where
  "await_response env fut st =
     (let (ready, st) = env_wait_for env fut (cfg_request_timeout (cl_cfg (fst st))) st in
      if \<not> ready then Some (Err request_timed_out, st) else future_get fut st)"

definition send_and_wait ::
    "'w os \<Rightarrow> 'w env \<Rightarrow> u16 \<Rightarrow> u16 \<Rightarrow> bytes \<Rightarrow> ('w st, incoming_frame) io" where
  "send_and_wait os env key version body =
     io_bind (begin_request os key version body) (\<lambda>fut. await_response env fut)"

definition not_open :: stream_error where
  "not_open = StreamError ConnectionNotOpen ''connection is not open''"

definition require_open :: "('w st, unit) io" where
  "require_open st = Some (if cl_state (fst st) \<noteq> Open then Err not_open else Ok (), st)"

definition reference_too_long :: stream_error where
  "reference_too_long = StreamError ReferenceTooLong ''reference exceeds 256 characters''"

definition check_reference :: "string \<Rightarrow> unit result" where
  "check_reference ref = (if length ref > 256 then Err reference_too_long else Ok ())"

section \<open>close\<close>

definition close_not_open :: stream_error where
  "close_not_open = StreamError ConnectionNotOpen ''not open''"

definition connection_closed :: stream_error where
  "connection_closed = StreamError ConnectionClosed ''connection closed''"

definition client_close :: "'w os \<Rightarrow> 'w env \<Rightarrow> ('w st, unit) io" where
  "client_close os env = (\<lambda>(c, w).
     if cl_state c \<noteq> Open then Some (Err close_not_open, (c, w))
     else
       let c = begin_closing c;
           cr = \<lparr>clq_closing_code = 0x01, clq_closing_reason = ''client requested close''\<rparr>;
           body = bw_data (CloseRequest_encode_body empty_writer cr);
           (cid, c) = next_app_cid c;
           (now, w) = os_now os w;
           (fut, c) = client_register cid (now + ms (cfg_request_timeout (cl_cfg c))) c;
           frame = encode_request_frame CloseRequest_kKey kVersion cid body
       in
       case (if cl_writer c then write_all os (cl_sock c) frame w else Some (Ok (), w)) of
         None \<Rightarrow> None
       | Some (_, w) \<Rightarrow>
           let (_, (c, w)) = env_wait_for env fut (cfg_request_timeout (cl_cfg c)) (c, w);
               c = c\<lparr>cl_stop_io := True\<rparr>;
               (s, w) = socket_close os (cl_sock c) w;
               c = c\<lparr>cl_sock := s\<rparr>
           in
           (case (if cl_io_thread c \<or> cl_heartbeat_thread c then env_join env (c, w) else Some (c, w)) of
              None \<Rightarrow> None
            | Some (c, w) \<Rightarrow>
                let (c, w) = env_others env (client_fail_all connection_closed c, w);
                    c = set_state Closed c;
                    w = cfg_log (cl_cfg c) Info ''connection closed'' w
                in Some (Ok (), (c, w))))"

text \<open>The destructor.\<close>

definition destroy :: "'w os \<Rightarrow> 'w env \<Rightarrow> 'w st \<Rightarrow> 'w st option" where
  "destroy os env = (\<lambda>(c, w).
     let c = (if cl_state c = Open then c\<lparr>cl_closing := True\<rparr> else c);
         c = c\<lparr>cl_stop_io := True\<rparr>
     in
     case (if cl_io_thread c \<or> cl_heartbeat_thread c then env_join env (c, w) else Some (c, w)) of
       None \<Rightarrow> None
     | Some (c, w) \<Rightarrow> let (s, w) = socket_close os (cl_sock c) w in Some (c\<lparr>cl_sock := s\<rparr>, w))"

section \<open>Lifecycle commands\<close>

definition create_stream ::
    "'w os \<Rightarrow> 'w env \<Rightarrow> string \<Rightarrow> key_value list \<Rightarrow> bool \<Rightarrow> ('w st, unit) io" where
  "create_stream os env stream args idempotent =
     io_bind require_open (\<lambda>_.
     let req = \<lparr>crq_stream = stream, crq_arguments = args\<rparr>;
         bw = CreateRequest_encode_body empty_writer req
     in
     io_bind (send_and_wait os env CreateRequest_kKey kVersion (bw_data bw)) (\<lambda>fr.
     io_bind (io_lift (fst (CreateResponse_decode_body (reader_of (fr_body fr))))) (\<lambda>resp.
     if crr_response_code resp = rc_Ok then io_return ()
     else if crr_response_code resp = rc_StreamAlreadyExists then
       if idempotent then io_return ()
       else io_fail (StreamError StreamAlreadyExists (''stream already exists: '' @ stream))
     else io_fail (StreamErrorCode ServerError ''create_stream failed'' (crr_response_code resp)))))"

definition delete_stream :: "'w os \<Rightarrow> 'w env \<Rightarrow> string \<Rightarrow> bool \<Rightarrow> ('w st, unit) io" where
  "delete_stream os env stream idempotent =
     io_bind require_open (\<lambda>_.
     let req = \<lparr>dlq_stream = stream\<rparr>;
         bw = DeleteRequest_encode_body empty_writer req
     in
     io_bind (send_and_wait os env DeleteRequest_kKey kVersion (bw_data bw)) (\<lambda>fr.
     io_bind (io_lift (fst (DeleteResponse_decode_body (reader_of (fr_body fr))))) (\<lambda>resp.
     if dlr_response_code resp = rc_Ok then io_return ()
     else if dlr_response_code resp = rc_StreamDoesNotExist then
       if idempotent then io_return ()
       else io_fail (StreamError StreamDoesNotExist (''stream does not exist: '' @ stream))
     else io_fail (StreamErrorCode ServerError ''delete_stream failed'' (dlr_response_code resp)))))"

definition store_offset :: "'w os \<Rightarrow> string \<Rightarrow> string \<Rightarrow> u64 \<Rightarrow> ('w st, unit) io" where
  "store_offset os reference stream offset =
     io_bind require_open (\<lambda>_.
     io_bind (io_lift (check_reference reference)) (\<lambda>_ (c, w).
     let cmd = \<lparr>so_reference = reference, so_stream = stream, so_offset = offset\<rparr>;
         bw = StoreOffset_encode_body empty_writer cmd;
         frame = encode_oneway_frame StoreOffset_kKey kVersion (bw_data bw);
         (t, w) = os_now os w;
         c = c\<lparr>cl_last_outbound_at := t\<rparr>
     in case write_all os (cl_sock c) frame w of
          None \<Rightarrow> None
        | Some (r, w) \<Rightarrow> Some (r, (c, w))))"

definition query_offset :: "'w os \<Rightarrow> 'w env \<Rightarrow> string \<Rightarrow> string \<Rightarrow> ('w st, u64 option) io" where
  "query_offset os env reference stream =
     io_bind require_open (\<lambda>_.
     let req = \<lparr>qoq_reference = reference, qoq_stream = stream\<rparr>;
         bw = QueryOffsetRequest_encode_body empty_writer req
     in
     io_bind (send_and_wait os env QueryOffsetRequest_kKey kVersion (bw_data bw)) (\<lambda>fr.
     io_bind (io_lift (fst (QueryOffsetResponse_decode_body (reader_of (fr_body fr))))) (\<lambda>resp.
     if qor_response_code resp = rc_Ok then io_return (Some (qor_offset resp))
     else if qor_response_code resp = rc_NoOffset then io_return None
     else if qor_response_code resp = rc_StreamDoesNotExist then
       io_fail (StreamError StreamDoesNotExist (''stream does not exist: '' @ stream))
     else io_fail (StreamErrorCode ServerError ''query_offset failed'' (qor_response_code resp)))))"

definition query_publisher_sequence :: "'w os \<Rightarrow> 'w env \<Rightarrow> string \<Rightarrow> string \<Rightarrow> ('w st, u64) io" where
  "query_publisher_sequence os env reference stream =
     io_bind require_open (\<lambda>_.
     io_bind (io_lift (check_reference reference)) (\<lambda>_.
     let req = \<lparr>qpq_publisher_reference = reference, qpq_stream = stream\<rparr>;
         bw = QueryPublisherRequest_encode_body empty_writer req
     in
     io_bind (send_and_wait os env QueryPublisherRequest_kKey kVersion (bw_data bw)) (\<lambda>fr.
     io_bind (io_lift (fst (QueryPublisherResponse_decode_body (reader_of (fr_body fr))))) (\<lambda>resp.
     if qpr_response_code resp = rc_Ok then io_return (qpr_sequence resp)
     else if qpr_response_code resp = rc_StreamDoesNotExist then
       io_fail (StreamError StreamDoesNotExist (''stream does not exist: '' @ stream))
     else io_fail (StreamErrorCode ServerError ''query_publisher_sequence failed''
       (qpr_response_code resp))))))"

section \<open>Observability\<close>

definition on_unexpected_close :: "nat option \<Rightarrow> 'w client \<Rightarrow> 'w client" where
  "on_unexpected_close cb c = c\<lparr>cl_on_unexpected_close := cb\<rparr>"

definition state_of :: "'w client \<Rightarrow> ConnectionState" where
  "state_of c = cl_state c"

definition server_properties :: "'w client \<Rightarrow> key_value list" where
  "server_properties c = cl_server_props c"

definition connection_properties :: "'w client \<Rightarrow> key_value list" where
  "connection_properties c = cl_conn_props c"

section \<open>Steps of all threads\<close>

inductive client_step :: "'w client \<Rightarrow> 'w client \<Rightarrow> bool" where
  start_connect: "cl_state c = Disconnected \<Longrightarrow> client_step c (set_state Connecting c)"
| connect_failed: "cl_state c = Connecting \<Longrightarrow> client_step c (set_state Closed c)"
| set_socket: "cl_state c \<noteq> Disconnected \<or> s = new_socket \<Longrightarrow> client_step c (c\<lparr>cl_sock := s\<rparr>)"
| set_pointers: "client_step c (c\<lparr>cl_writer := True, cl_reader := True\<rparr>)"
| negotiated: "cl_state c = Connecting \<Longrightarrow> client_step c (store_handshake hr c)"
| opened: "cl_state c = Connecting \<Longrightarrow> client_step c (become_open t1 t2 c)"
| closing: "cl_state c = Open \<Longrightarrow> client_step c (begin_closing c)"
| closed: "cl_state c = Closing \<or> cl_state c = Closed \<Longrightarrow> client_step c (set_state Closed c)"
| destroying: "cl_state c = Open \<Longrightarrow> client_step c (c\<lparr>cl_closing := True\<rparr>)"
| stop: "client_step c (c\<lparr>cl_stop_io := True\<rparr>)"
| next_cid: "client_step c (snd (next_app_cid c))"
| register_request: "client_step c (snd (client_register cid deadline c))"
| outbound: "client_step c (c\<lparr>cl_last_outbound_at := t\<rparr>)"
| inbound: "client_step c (c\<lparr>cl_last_inbound_at := t\<rparr>)"
| fail_all: "client_step c (client_fail_all e c)"
| reap: "client_step c (client_reap now c)"
| deliver: "client_step c (client_dispatch frame c)"
| notify: "cl_io_thread c \<Longrightarrow> client_step c (notify_unexpected_close evt c)"
| io_thread_exit: "cl_io_thread c \<Longrightarrow> client_step c (io_exit c)"
| heartbeat_exit: "client_step c (c\<lparr>cl_heartbeat_thread := False\<rparr>)"
| set_callback: "client_step c (on_unexpected_close cb c)"

abbreviation client_steps :: "'w client \<Rightarrow> 'w client \<Rightarrow> bool" where
  "client_steps \<equiv> client_step\<^sup>*\<^sup>*"

text \<open>The order of the connection states.\<close>

fun state_rank :: "ConnectionState \<Rightarrow> nat" where
  "state_rank Disconnected = 0"
| "state_rank Connecting = 1"
| "state_rank Open = 2"
| "state_rank Closing = 3"
| "state_rank Closed = 4"

definition client_ok :: "'w client \<Rightarrow> bool" where
  "client_ok c \<longleftrightarrow>
     dispatcher_ok (cl_dispatcher c) \<and> length (cl_callbacks c) \<le> 1 \<and>
     (cl_callbacks c \<noteq> [] \<longrightarrow> cl_unexpected_fired c) \<and>
     (cl_state c = Disconnected \<or> cl_state c = Connecting \<longrightarrow> \<not> cl_io_thread c \<and> cl_callbacks c = []) \<and>
     (cl_state c = Closing \<longrightarrow> cl_closing c) \<and> (cl_state c = Disconnected \<longrightarrow> cl_sock c = new_socket)"

lemma client_register_eq:
  "client_register cid deadline c =
     (length (ds_shared (cl_dispatcher c)),
      c\<lparr>cl_dispatcher := snd (register_pending cid deadline (cl_dispatcher c))\<rparr>)"
  by (simp add: client_register_def case_prod_unfold Let_def)

lemmas section_defs =
  set_state_def begin_closing_def next_app_cid_def client_register_eq client_fail_all_def
  client_reap_def client_dispatch_def io_exit_def store_handshake_def become_open_def
  on_unexpected_close_def

lemma state_rank_le [simp]: "state_rank s \<le> 4"
  by (cases s) simp_all

lemma notify_unexpected_close_fields [simp]:
  "cl_state (notify_unexpected_close evt c) = cl_state c"
  "cl_dispatcher (notify_unexpected_close evt c) = cl_dispatcher c"
  "cl_io_thread (notify_unexpected_close evt c) = cl_io_thread c"
  "cl_closing (notify_unexpected_close evt c) = cl_closing c"
  "cl_unexpected_fired (notify_unexpected_close evt c)"
  "cl_cfg (notify_unexpected_close evt c) = cl_cfg c"
  by (simp_all add: notify_unexpected_close_def Let_def split: option.split)

lemma notify_unexpected_close_callbacks:
  "cl_callbacks (notify_unexpected_close evt c) =
     (if cl_unexpected_fired c then cl_callbacks c
      else case cl_on_unexpected_close c of
        None \<Rightarrow> cl_callbacks c | Some cb \<Rightarrow> cl_callbacks c @ [(cb, evt)])"
  by (simp add: notify_unexpected_close_def Let_def split: option.split)

lemma client_ok_new: "client_ok (StreamClient cfg)"
  by (simp add: client_ok_def StreamClient_def new_dispatcher_ok)

lemma client_step_ok: "client_step c c' \<Longrightarrow> client_ok c \<Longrightarrow> client_ok c'"
proof (induction rule: client_step.induct)
  case (notify c evt)
  then show ?case
    by (auto simp: client_ok_def notify_unexpected_close_callbacks split: option.split)
next
  case (register_request c cid deadline)
  then show ?case
    by (simp add: client_ok_def section_defs register_pending.keeps_owned)
qed (auto simp: client_ok_def section_defs Let_def fail_all_pending.keeps_owned
    reap_expired.keeps_owned dispatch.keeps_owned)

lemma client_step_rank: "client_step c c' \<Longrightarrow> state_rank (cl_state c) \<le> state_rank (cl_state c')"
  by (induction rule: client_step.induct) (auto simp: section_defs Let_def)

lemma client_steps_rank: "client_steps c c' \<Longrightarrow> state_rank (cl_state c) \<le> state_rank (cl_state c')"
  by (induction rule: rtranclp_induct) (auto dest: client_step_rank)

lemma client_step_settles:
  "client_step c c' \<Longrightarrow> client_ok c \<Longrightarrow> settles_once (cl_dispatcher c) (cl_dispatcher c')"
  by (induction rule: client_step.induct)
    (simp_all add: client_ok_def section_defs Let_def fail_all_pending.settles [where flight = "[]"]
      reap_expired.settles [where flight = "[]"] dispatch.settles [where flight = "[]"]
      register_pending.settles [where flight = "[]"])

lemma client_steps_ok:
  assumes "client_steps c c'" and "client_ok c"
  shows "client_ok c' \<and> state_rank (cl_state c) \<le> state_rank (cl_state c') \<and>
    settles_once (cl_dispatcher c) (cl_dispatcher c')"
  using assms
proof (induction rule: rtranclp_induct)
  case base
  then show ?case by simp
next
  case (step c' c'')
  then show ?case
    using client_step_ok client_step_rank client_step_settles settles_once_trans
    by (meson order_trans)
qed

text \<open>Once the connection has been open, the flags that end it are never reset.\<close>

lemma client_step_flags:
  assumes "client_step c c'" and "2 \<le> state_rank (cl_state c)"
  shows "cl_closing c \<Longrightarrow> cl_closing c'" "cl_stop_io c \<Longrightarrow> cl_stop_io c'"
    "cl_unexpected_fired c \<Longrightarrow> cl_unexpected_fired c'"
  using assms by (induction rule: client_step.induct) (auto simp: section_defs Let_def notify_unexpected_close_def split: option.split)

lemma client_steps_flags:
  assumes "client_steps c c'" and "2 \<le> state_rank (cl_state c)"
  shows "cl_closing c \<Longrightarrow> cl_closing c'" "cl_stop_io c \<Longrightarrow> cl_stop_io c'"
    "cl_unexpected_fired c \<Longrightarrow> cl_unexpected_fired c'"
proof -
  have "(cl_closing c \<longrightarrow> cl_closing c') \<and> (cl_stop_io c \<longrightarrow> cl_stop_io c') \<and>
      (cl_unexpected_fired c \<longrightarrow> cl_unexpected_fired c')"
    using assms(1)
  proof (induction rule: rtranclp_induct)
    case (step c1 c2)
    have "2 \<le> state_rank (cl_state c1)" using client_steps_rank [OF step(1)] assms(2) by simp
    with client_step_flags [OF step(2)] step(3) show ?case by blast
  qed simp
  then show "cl_closing c \<Longrightarrow> cl_closing c'" "cl_stop_io c \<Longrightarrow> cl_stop_io c'"
    "cl_unexpected_fired c \<Longrightarrow> cl_unexpected_fired c'" by blast+
qed

section \<open>Operations as runs of steps\<close>

definition env_ok :: "'w env \<Rightarrow> bool" where
  "env_ok env \<longleftrightarrow>
     (\<forall>p t st. client_steps (fst st) (fst (snd (env_wait_for env p t st)))) \<and>
     (\<forall>st st'. env_join env st = Some st' \<longrightarrow>
        client_steps (fst st) (fst st') \<and> \<not> cl_io_thread (fst st') \<and> \<not> cl_heartbeat_thread (fst st')) \<and>
     (\<forall>st. client_steps (fst st) (fst (env_others env st)) \<and>
        cl_io_thread (fst (env_others env st)) = cl_io_thread (fst st)) \<and>
     (\<forall>st. client_steps (fst st) (fst (env_sleep env st)))"

text \<open>
  The other threads take steps of the client. When \<open>join\<close> returns, the threads have ended; while the I/O
  thread runs, no other thread ends it.
\<close>

definition stepwise :: "('w st, 'a) io \<Rightarrow> bool" where
  "stepwise m \<longleftrightarrow> (\<forall>st r st'. m st = Some (r, st') \<longrightarrow> client_steps (fst st) (fst st'))"

lemma stepwiseI:
  "(\<And>c w r c' w'. m (c, w) = Some (r, (c', w')) \<Longrightarrow> client_steps c c') \<Longrightarrow> stepwise m"
  unfolding stepwise_def by auto

lemma stepwiseD: "stepwise m \<Longrightarrow> m (c, w) = Some (r, (c', w')) \<Longrightarrow> client_steps c c'"
  unfolding stepwise_def by fastforce

lemma stepwise_basic [step_intros]:
  "stepwise (io_return x)" "stepwise (io_fail e)" "stepwise (io_lift r)"
  by (rule stepwiseI, simp)+

lemma stepwise_bind [step_intros]:
  assumes "stepwise m" and "\<And>x. stepwise (f x)"
  shows "stepwise (io_bind m f)"
proof (rule stepwiseI)
  fix c w r c' w'
  assume "io_bind m f (c, w) = Some (r, (c', w'))"
  then show "client_steps c c'"
  proof (cases rule: io_bind_SomeE)
    case (err e)
    then show ?thesis using stepwiseD [OF assms(1)] by blast
  next
    case (ok x st1)
    then have "client_steps c (fst st1)" "client_steps (fst st1) c'"
      using stepwiseD [OF assms(1), of c w _ "fst st1" "snd st1"]
        stepwiseD [OF assms(2), of x "fst st1" "snd st1"] by simp_all
    then show ?thesis by (rule rtranclp_trans)
  qed
qed

lemma stepwise_If [step_intros]:
  "stepwise m \<Longrightarrow> stepwise m' \<Longrightarrow> stepwise (if b then m else m')"
  by simp

lemma stepwise_require_open [step_intros]: "stepwise require_open"
  by (rule stepwiseI) (auto simp: require_open_def)

lemma env_wait_for_steps:
  assumes "env_ok env" and "env_wait_for env p t (c, w) = (b, (c', w'))"
  shows "client_steps c c'"
proof -
  have "client_steps (fst (c, w)) (fst (snd (env_wait_for env p t (c, w))))"
    using assms(1) unfolding env_ok_def by blast
  with assms(2) show ?thesis by simp
qed

lemma env_join_steps:
  assumes "env_ok env" and "env_join env (c, w) = Some (c', w')"
  shows "client_steps c c' \<and> \<not> cl_io_thread c' \<and> \<not> cl_heartbeat_thread c'"
  using assms unfolding env_ok_def by (metis fst_conv)

lemma env_others_steps:
  assumes "env_ok env" and "env_others env (c, w) = (c', w')"
  shows "client_steps c c' \<and> cl_io_thread c' = cl_io_thread c"
  using assms unfolding env_ok_def by (metis fst_conv)

lemma env_sleep_steps:
  assumes "env_ok env" and "env_sleep env (c, w) = (c', w')"
  shows "client_steps c c'"
  using assms unfolding env_ok_def by (metis fst_conv)

text \<open>The two steps with which every request begins.\<close>

lemma begin_request_steps: "client_steps c (snd (client_register cid deadline (snd (next_app_cid c))))"
  by (meson client_step.next_cid client_step.register_request converse_rtranclp_into_rtranclp
      rtranclp.rtrancl_refl)

text \<open>The two states in which \<open>begin_request\<close> can leave the client.\<close>

definition registered :: "int \<Rightarrow> 'w client \<Rightarrow> 'w client" where
  "registered now c =
     snd (client_register (cl_next_app_cid c) (now + ms (cfg_request_timeout (cl_cfg c)))
       (snd (next_app_cid c)))"

lemma begin_request_cases:
  assumes "begin_request os key version body (c, w) = Some (r, (c', w'))"
  obtains (too_large) e now where "r = Err e" "kind e = ProtocolViolation" "c' = registered now c"
      "unat (cl_negotiated_frame_max c) < 8 + length body" "cl_negotiated_frame_max c \<noteq> 0"
      "os_now os w = (now, w')"
  | (written) now w1 t w2 wr where "os_now os w = (now, w1)" "os_now os w1 = (t, w2)"
      "write_all os (cl_sock c) (encode_request_frame key version (cl_next_app_cid c) body) w2 =
        Some (wr, w')"
      "r = (case wr of Inl e \<Rightarrow> Err e | Inr _ \<Rightarrow> Ok (length (ds_shared (cl_dispatcher c))))"
      "c' = (registered now c)\<lparr>cl_last_outbound_at := t\<rparr>"
      "cl_negotiated_frame_max c = 0 \<or> 8 + length body \<le> unat (cl_negotiated_frame_max c)"
proof -
  obtain now w1 where now: "os_now os w = (now, w1)" by fastforce
  obtain t w2 where t: "os_now os w1 = (t, w2)" by fastforce
  show thesis
  proof (cases "check_outbound_frame_size (8 + length body) (cl_negotiated_frame_max c)")
    case (Inl e)
    with assms now have "r = Err e" "c' = registered now c" "w' = w1"
      by (simp_all add: begin_request_def registered_def section_defs length_encode_request_frame Let_def)
    with Inl now show thesis
      by (intro too_large) (auto simp: check_outbound_frame_size_def split: if_splits)
  next
    case (Inr u)
    then have fits: "cl_negotiated_frame_max c = 0 \<or> 8 + length body \<le> unat (cl_negotiated_frame_max c)"
      by (auto simp: check_outbound_frame_size_def split: if_splits)
    from Inr assms now t obtain wr where wr: "write_all os (cl_sock c)
        (encode_request_frame key version (cl_next_app_cid c) body) w2 = Some (wr, w')"
      "r = (case wr of Inl e \<Rightarrow> Err e | Inr _ \<Rightarrow> Ok (length (ds_shared (cl_dispatcher c))))"
      "c' = (registered now c)\<lparr>cl_last_outbound_at := t\<rparr>"
      by (auto simp: begin_request_def registered_def section_defs length_encode_request_frame Let_def
          split: option.splits sum.splits)
    from now t wr fits show thesis by (rule written)
  qed
qed

lemma registered_steps: "client_steps c (registered now c)"
  unfolding registered_def
  using begin_request_steps [of c "cl_next_app_cid c"] by simp

lemma stepwise_begin_request: "stepwise (begin_request os key version body)"
proof (rule stepwiseI)
  fix c w r c' w'
  assume "begin_request os key version body (c, w) = Some (r, (c', w'))"
  then show "client_steps c c'"
  proof (cases rule: begin_request_cases)
    case (too_large e now)
    then show ?thesis by (simp add: registered_steps)
  next
    case (written now w1 t w2 wr)
    then show ?thesis
      using registered_steps client_step.outbound by (metis rtranclp.rtrancl_into_rtrancl)
  qed
qed

lemma stepwise_await_response:
  assumes "env_ok env"
  shows "stepwise (await_response env fut)"
proof (rule stepwiseI)
  fix c w r c' w'
  assume "await_response env fut (c, w) = Some (r, (c', w'))"
  then obtain b where "env_wait_for env fut (cfg_request_timeout (cl_cfg c)) (c, w) = (b, (c', w'))"
    by (auto simp: await_response_def Let_def case_prod_unfold future_get_def prod_eq_iff
        split: if_splits shared_state.splits)
  then show "client_steps c c'" by (rule env_wait_for_steps [OF assms])
qed

lemma stepwise_send_and_wait [step_intros]:
  "env_ok env \<Longrightarrow> stepwise (send_and_wait os env key version body)"
  unfolding send_and_wait_def
  by (intro stepwise_bind stepwise_begin_request stepwise_await_response)

lemma stepwise_lifecycle:
  assumes "env_ok env"
  shows "stepwise (create_stream os env stream args idempotent)"
    "stepwise (delete_stream os env stream idempotent)"
    "stepwise (query_offset os env reference stream)"
    "stepwise (query_publisher_sequence os env reference stream)"
  unfolding create_stream_def delete_stream_def query_offset_def query_publisher_sequence_def Let_def
  by (intro step_intros stepwise_send_and_wait [OF assms])+

lemma stepwise_store_offset: "stepwise (store_offset os reference stream offset)"
  unfolding store_offset_def
proof (intro stepwise_bind stepwise_require_open stepwise_basic stepwiseI, goal_cases)
  case (1 _ _ c w r c' w')
  then have "c' = c\<lparr>cl_last_outbound_at := fst (os_now os w)\<rparr>"
    by (auto simp: Let_def case_prod_unfold split: option.splits)
  then show ?case using client_step.outbound by blast
qed

text \<open>The outcomes of \<open>connect\<close>.\<close>

lemma connect_session_cases:
  assumes "connect_session os sock (c, w) = Some (r, (c', w'))"
  obtains (refused) e s so s' w1 w2 w3 where "r = Err e"
      "socket_move_assign os (cl_sock c) sock w = ((s, so), w1)"
      "w2 = apply_recv_timeout os (cfg_requested_heartbeat_seconds (cl_cfg c)) s w1"
      "run_handshake os s (cl_cfg c) w2 = Some (Err e, w3)" "socket_close os s w3 = (s', w')"
      "c' = set_state Closed (c\<lparr>cl_sock := s, cl_writer := True, cl_reader := True, cl_sock := s'\<rparr>)"
  | (opened) hr s so w1 w2 w3 t1 t2 msg where "r = Ok ()"
      "socket_move_assign os (cl_sock c) sock w = ((s, so), w1)"
      "w2 = apply_recv_timeout os (cfg_requested_heartbeat_seconds (cl_cfg c)) s w1"
      "run_handshake os s (cl_cfg c) w2 = Some (Ok hr, w3)"
      "c' = become_open t1 t2 (store_handshake hr
         (c\<lparr>cl_sock := s, cl_writer := True, cl_reader := True\<rparr>))"
      "w' = cfg_log (cl_cfg c) Info msg (snd (os_now os (snd (os_now os
         (apply_recv_timeout os (hr_negotiated_heartbeat hr) s w3)))))"
proof -
  obtain s so w1 where move: "socket_move_assign os (cl_sock c) sock w = ((s, so), w1)"
    by (metis prod.exhaust)
  let ?w2 = "apply_recv_timeout os (cfg_requested_heartbeat_seconds (cl_cfg c)) s w1"
  from assms obtain hs w3 where hs: "run_handshake os s (cl_cfg c) ?w2 = Some (hs, w3)"
    by (cases "run_handshake os s (cl_cfg c) ?w2") (auto simp: connect_session_def Let_def move)
  show thesis
  proof (cases hs)
    case (Inl e)
    obtain s' w4 where cl: "socket_close os s w3 = (s', w4)" by fastforce
    from assms Inl hs cl have "r = Err e" "w' = w4"
      "c' = set_state Closed (c\<lparr>cl_sock := s, cl_writer := True, cl_reader := True, cl_sock := s'\<rparr>)"
      by (simp_all add: connect_session_def Let_def move)
    with refused move hs cl Inl show thesis by blast
  next
    case (Inr hr)
    with assms hs have "r = Ok ()" "\<exists>t1 t2. c' = become_open t1 t2 (store_handshake hr
        (c\<lparr>cl_sock := s, cl_writer := True, cl_reader := True\<rparr>))"
      "\<exists>msg. w' = cfg_log (cl_cfg c) Info msg (snd (os_now os (snd (os_now os
         (apply_recv_timeout os (hr_negotiated_heartbeat hr) s w3)))))"
      by (auto simp: connect_session_def Let_def move case_prod_unfold store_handshake_def)
    with opened move hs Inr show thesis by blast
  qed
qed

lemma connect_cases:
  assumes "connect os (c, w) = Some (r, (c', w'))"
  obtains (invalid) e where "validate (cl_cfg c) = Err e" "r = Err e" "c' = c" "w' = w"
  | (busy) "cl_state c \<noteq> Disconnected" "r = Err already_connecting" "c' = c" "w' = w" "validate (cl_cfg c) = Ok ()"
  | (unreachable) e where "cl_state c = Disconnected" "r = Err e"
      "connect_with_timeout os (cfg_host (cl_cfg c)) (cfg_port (cl_cfg c)) (cfg_connect_timeout (cl_cfg c))
         (default_resolve_host os) (connecting_to (cl_cfg c) w) = (Err e, w')"
      "c' = set_state Closed (set_state Connecting c)" "validate (cl_cfg c) = Ok ()"
  | (connected) sock w1 where "cl_state c = Disconnected" "validate (cl_cfg c) = Ok ()"
      "connect_with_timeout os (cfg_host (cl_cfg c)) (cfg_port (cl_cfg c)) (cfg_connect_timeout (cl_cfg c))
         (default_resolve_host os) (connecting_to (cl_cfg c) w) = (Ok sock, w1)"
      "connect_session os sock (set_state Connecting c, w1) = Some (r, (c', w'))"
proof (cases "validate (cl_cfg c)")
  case (Inl e)
  from assms Inl have "r = Err e" "c' = c" "w' = w" by (auto simp: connect_def Let_def)
  with Inl show thesis by (rule invalid)
next
  case (Inr u)
  obtain sr w1 where tcp: "connect_with_timeout os (cfg_host (cl_cfg c)) (cfg_port (cl_cfg c))
      (cfg_connect_timeout (cl_cfg c)) (default_resolve_host os) (connecting_to (cl_cfg c) w) = (sr, w1)"
    by (metis surj_pair)
  show thesis
  proof (cases "cl_state c = Disconnected")
    case False
    from assms Inr False have "r = Err already_connecting" "c' = c" "w' = w"
      by (auto simp: connect_def Let_def)
    with False Inr show thesis by (intro busy) simp_all
  next
    case True
    show thesis
    proof (cases sr)
      case (Inl e)
      from assms \<open>validate (cl_cfg c) = Ok u\<close> True tcp Inl
      have "r = Err e" "c' = set_state Closed (set_state Connecting c)" "w' = w1"
        by (auto simp: connect_def Let_def)
      with True tcp Inl \<open>validate (cl_cfg c) = Ok u\<close> show thesis by (intro unreachable [of e]) simp_all
    next
      case (Inr sock)
      from assms \<open>validate (cl_cfg c) = Ok u\<close> True tcp Inr
      have "connect_session os sock (set_state Connecting c, w1) = Some (r, (c', w'))"
        by (simp add: connect_def Let_def)
      with True tcp Inr \<open>validate (cl_cfg c) = Ok u\<close> show thesis using connected by auto
    qed
  qed
qed

text \<open>The states it goes through.\<close>

lemma connect_session_steps:
  assumes "cl_state c = Connecting"
  shows "client_steps c (set_state Closed
       (c\<lparr>cl_sock := s, cl_writer := True, cl_reader := True, cl_sock := s'\<rparr>))"
    "client_steps c (become_open t1 t2 (store_handshake hr
       (c\<lparr>cl_sock := s, cl_writer := True, cl_reader := True\<rparr>)))"
proof -
  let ?c2 = "c\<lparr>cl_sock := s\<rparr>"
  let ?c3 = "?c2\<lparr>cl_writer := True, cl_reader := True\<rparr>"
  have "client_step c ?c2" "client_step ?c2 ?c3"
    by (rule client_step.set_socket, simp add: assms, rule client_step.set_pointers)
  then have 3: "client_steps c ?c3" by (meson rtranclp.rtrancl_into_rtrancl rtranclp.rtrancl_refl)
  have "client_step ?c3 (?c3\<lparr>cl_sock := s'\<rparr>)" by (rule client_step.set_socket) (simp add: assms)
  moreover have "client_step (?c3\<lparr>cl_sock := s'\<rparr>) (set_state Closed (?c3\<lparr>cl_sock := s'\<rparr>))"
    by (rule client_step.connect_failed) (simp add: assms)
  ultimately show "client_steps c (set_state Closed (?c3\<lparr>cl_sock := s'\<rparr>))"
    using 3 by (meson rtranclp.rtrancl_into_rtrancl)
  have "client_step ?c3 (store_handshake hr ?c3)"
    by (rule client_step.negotiated) (simp add: assms)
  moreover have "client_step (store_handshake hr ?c3) (become_open t1 t2 (store_handshake hr ?c3))"
    by (rule client_step.opened) (simp add: assms store_handshake_def)
  ultimately show "client_steps c (become_open t1 t2 (store_handshake hr ?c3))"
    using 3 by (meson rtranclp.rtrancl_into_rtrancl)
qed

lemma stepwise_connect: "stepwise (connect os)"
proof (rule stepwiseI)
  fix c w r c' w'
  assume "connect os (c, w) = Some (r, (c', w'))"
  then show "client_steps c c'"
  proof (cases rule: connect_cases)
    case (unreachable e)
    have "client_step c (set_state Connecting c)"
      using unreachable(1) by (rule client_step.start_connect)
    moreover have "client_step (set_state Connecting c) (set_state Closed (set_state Connecting c))"
      by (rule client_step.connect_failed) (simp add: set_state_def)
    ultimately show ?thesis
      using unreachable(4) by (meson rtranclp.rtrancl_into_rtrancl rtranclp.rtrancl_refl)
  next
    case (connected sock w1)
    have 1: "client_step c (set_state Connecting c)"
      using connected(1) by (rule client_step.start_connect)
    have st: "cl_state (set_state Connecting c) = Connecting" by (simp add: set_state_def)
    from connected(4) have "client_steps (set_state Connecting c) c'"
      by (cases rule: connect_session_cases) (simp_all only: connect_session_steps [OF st])
    with 1 show ?thesis by (rule converse_rtranclp_into_rtranclp)
  qed simp_all
qed

text \<open>The threads.\<close>

lemma io_handle_delivers:
  assumes "io_handle os env (Ok f) (c, w) = (go_on, (c', w'))" and "cl_io_thread c"
  shows "client_steps c c' \<and> cl_io_thread c'"
proof -
  let ?c1 = "c\<lparr>cl_last_inbound_at := fst (os_now os w)\<rparr>"
  let ?c2 = "client_reap (fst (os_now os (snd (os_now os w)))) ?c1"
  from assms(1) have c': "c' = client_dispatch f ?c2"
    by (simp add: io_handle_def Let_def case_prod_unfold)
  have "client_step c ?c1" "client_step ?c1 ?c2" "client_step ?c2 (client_dispatch f ?c2)"
    by (rule client_step.inbound, rule client_step.reap, rule client_step.deliver)
  then have "client_steps c c'"
    unfolding c' by (meson rtranclp.rtrancl_into_rtrancl rtranclp.rtrancl_refl)
  moreover have "cl_io_thread c'" using assms(2) by (simp add: c' section_defs)
  ultimately show ?thesis ..
qed

lemma io_handle_steps:
  assumes "io_handle os env frame_r (c, w) = (go_on, (c', w'))" and "cl_io_thread c" and env: "env_ok env"
  shows "client_steps c c' \<and> cl_io_thread c'"
proof (cases frame_r)
  case (Inr frame)
  with assms(1,2) show ?thesis by (simp add: io_handle_delivers)
next
  case (Inl e)
  obtain now w1 where now: "os_now os w = (now, w1)" by fastforce
  have others: "client_steps c c2 \<and> cl_io_thread c2"
    if "client_steps c c1 \<and> cl_io_thread c1" and "env_others env (c1, w2) = (c2, w3)" for c1 w2 c2 w3
    using env_others_steps [OF env that(2)] that(1) by (meson rtranclp_trans)
  have notify: "client_steps c (notify_unexpected_close evt c1) \<and> cl_io_thread (notify_unexpected_close evt c1)"
    if "client_steps c c1 \<and> cl_io_thread c1" for c1 evt
    using that client_step.notify [of c1 evt] by (auto intro: rtranclp.rtrancl_into_rtrancl)
  have fail: "client_steps c (client_fail_all e' c) \<and> cl_io_thread (client_fail_all e' c)" for e'
    using client_step.fail_all [of c e'] assms(2) by (auto simp: section_defs)
  have reap: "client_steps c (client_reap now c) \<and> cl_io_thread (client_reap now c)"
    using client_step.reap [of c now] assms(2) by (auto simp: section_defs)
  obtain c1 w2 where 1: "env_others env (client_fail_all heartbeat_timeout c, w1) = (c1, w2)" by fastforce
  obtain c2 w3 where 2: "env_others env (client_fail_all e c, w) = (c2, w3)" by fastforce
  obtain c3 w4 where 3: "env_others env (c2, w3) = (c3, w4)" by fastforce
  note c1 = others [OF fail 1] and c3 = others [OF others [OF fail 2] 3]
  from assms(1) Inl now show ?thesis
    using c1 c3 notify reap by (auto simp: io_handle_def 1 2 3 split: if_splits)
qed

lemma io_loop_steps:
  assumes "io_loop os env st = Some st'"
  shows "env_ok env \<and> cl_io_thread (fst st) \<longrightarrow> client_steps (fst st) (fst st')"
proof (rule io_loop.raw_induct [where P = "\<lambda>os env st st'.
    env_ok env \<and> cl_io_thread (fst st) \<longrightarrow> client_steps (fst st) (fst st')"], goal_cases)
  case (1 loop os env st st')
  note IH = 1(1) and body = 1(2)
  show ?case
  proof (intro impI, elim conjE)
    assume env: "env_ok env" and io: "cl_io_thread (fst st)"
    show "client_steps (fst st) (fst st')"
    proof (cases "cl_stop_io (fst st)")
      case True
      with body have "fst st' = io_exit (fst st)" by auto
      with io show ?thesis by (metis client_step.io_thread_exit r_into_rtranclp)
    next
      case False
      with body obtain frame_r w where rd: "read_frame os (cl_sock (fst st)) (snd st) = Some (frame_r, w)"
        by (auto split: option.splits)
      let ?st1 = "env_others env (fst st, w)"
      obtain go_on c2 w2 where h: "io_handle os env frame_r ?st1 = (go_on, (c2, w2))" by (metis prod.exhaust)
      have 1: "client_steps (fst st) (fst ?st1)" "cl_io_thread (fst ?st1)"
        using env io unfolding env_ok_def by (metis fst_conv)+
      from h 1(2) have 2: "client_steps (fst ?st1) c2 \<and> cl_io_thread c2"
        using io_handle_steps [of os env frame_r "fst ?st1" "snd ?st1" go_on c2 w2] env by simp
      with 1 have 12: "client_steps (fst st) c2" "cl_io_thread c2" by (meson rtranclp_trans)+
      show ?thesis
      proof (cases go_on)
        case True
        with body False rd h have "loop os env (c2, w2) = Some st'" by simp
        from IH [OF this] env 12 show ?thesis by (auto intro: rtranclp_trans)
      next
        case nogo: False
        obtain c3 w3 where o: "env_others env (c2, w2) = (c3, w3)" by fastforce
        have "client_steps (fst st) c3" "cl_io_thread c3"
          using env_others_steps [OF env o] 12 by (auto intro: rtranclp_trans)
        moreover from nogo body False rd h o have "fst st' = io_exit c3" by (auto simp: Let_def)
        ultimately show ?thesis by (metis client_step.io_thread_exit rtranclp.rtrancl_into_rtrancl)
      qed
    qed
  qed
qed (rule assms)

text \<open>The states \<open>close\<close> goes through.\<close>

definition close_request :: CloseRequest where
  "close_request = \<lparr>clq_closing_code = 0x01, clq_closing_reason = ''client requested close''\<rparr>"

definition close_frame :: "u32 \<Rightarrow> bytes" where
  "close_frame cid = encode_request_frame CloseRequest_kKey kVersion cid (enc_CloseRequest close_request)"

lemma client_close_cases:
  assumes "client_close os env (c, w) = Some (r, (c', w'))" and "cl_state c = Open"
  obtains now w0 wr w1 b c2 w2 s w3 c3 w4 c5 w5 where
      "os_now os w = (now, w0)"
      "(if cl_writer c then write_all os (cl_sock c) (close_frame (cl_next_app_cid c)) w0 else Some (Ok (), w0)) =
         Some (wr, w1)"
      "env_wait_for env (length (ds_shared (cl_dispatcher c))) (cfg_request_timeout (cl_cfg c))
         (registered now (begin_closing c), w1) = (b, (c2, w2))"
      "socket_close os (cl_sock c2) w2 = (s, w3)"
      "(if cl_io_thread c2 \<or> cl_heartbeat_thread c2
        then env_join env (c2\<lparr>cl_stop_io := True, cl_sock := s\<rparr>, w3)
        else Some (c2\<lparr>cl_stop_io := True, cl_sock := s\<rparr>, w3)) = Some (c3, w4)"
      "env_others env (client_fail_all connection_closed c3, w4) = (c5, w5)"
      "r = Ok ()" "c' = set_state Closed c5" "w' = cfg_log (cl_cfg c5) Info ''connection closed'' w5"
proof -
  have frame: "close_frame cid = encode_request_frame CloseRequest_kKey kVersion cid (bw_data
      (CloseRequest_encode_body empty_writer
        \<lparr>clq_closing_code = 0x01, clq_closing_reason = ''client requested close''\<rparr>))" for cid
    by (simp add: close_frame_def close_request_def clq.body_eq)
  obtain now w0 where now: "os_now os w = (now, w0)" by fastforce
  let ?c1 = "registered now (begin_closing c)" and ?p = "length (ds_shared (cl_dispatcher c))"
  from assms obtain wr w1 where wr:
    "(if cl_writer c then write_all os (cl_sock c) (close_frame (cl_next_app_cid c)) w0 else Some (Ok (), w0)) =
       Some (wr, w1)"
    unfolding frame
    by (auto simp: client_close_def now Let_def section_defs registered_def split: option.splits if_splits)
  obtain b c2 w2 where wait: "env_wait_for env ?p (cfg_request_timeout (cl_cfg c)) (?c1, w1) = (b, (c2, w2))"
    by (metis prod.exhaust)
  obtain s w3 where cl: "socket_close os (cl_sock c2) w2 = (s, w3)" by fastforce
  let ?c3 = "c2\<lparr>cl_stop_io := True, cl_sock := s\<rparr>"
  from assms wr wait cl obtain c3 w4 where join: "(if cl_io_thread c2 \<or> cl_heartbeat_thread c2
      then env_join env (?c3, w3) else Some (?c3, w3)) = Some (c3, w4)"
    unfolding frame
    by (auto simp: client_close_def now Let_def section_defs registered_def split: option.splits if_splits)
  obtain c5 w5 where o: "env_others env (client_fail_all connection_closed c3, w4) = (c5, w5)" by fastforce
  from assms wr wait cl join o have "r = Ok ()" "c' = set_state Closed c5"
    "w' = cfg_log (cl_cfg c5) Info ''connection closed'' w5"
    unfolding frame
    by (auto simp: client_close_def now Let_def section_defs registered_def split: if_splits)
  with that now wr wait cl join o show thesis by blast
qed

lemma socket_close_new: "socket_close os s w = (s', w') \<Longrightarrow> s' = new_socket"
  by (auto simp: socket_close_def new_socket_def split: if_splits)

text \<open>The client when its threads have ended and when \<open>fail_all_pending\<close> has run.\<close>

lemma client_close_steps:
  assumes "client_close os env (c, w) = Some (r, (c', w'))" and "cl_state c = Open" and "env_ok env"
  obtains c3 c5 where "client_steps c c3" "cl_closing c3" "cl_stop_io c3" "\<not> cl_io_thread c3" "\<not> cl_heartbeat_thread c3"
    "cl_state c3 = Closing \<or> cl_state c3 = Closed"
    "client_steps (client_fail_all connection_closed c3) c5" "cl_io_thread c5 = cl_io_thread c3"
    "c' = set_state Closed c5" "r = Ok ()"
  using assms(1,2)
proof (cases rule: client_close_cases)
  case (1 now w0 wr w1 b c2 w2 s w3 c3 w4 c5 w5)
  let ?c0 = "begin_closing c" and ?c2 = "c2\<lparr>cl_stop_io := True, cl_sock := s\<rparr>"
  have 0: "client_step c ?c0" using assms(2) by (rule client_step.closing)
  have 2: "client_steps ?c0 c2"
    using registered_steps env_wait_for_steps [OF assms(3) 1(3)] by (rule rtranclp_trans)
  have "client_step c2 (c2\<lparr>cl_stop_io := True\<rparr>)" "client_step (c2\<lparr>cl_stop_io := True\<rparr>) ?c2"
    by (rule client_step.stop, rule client_step.set_socket) (simp add: socket_close_new [OF 1(4)])
  with 2 have "client_steps ?c0 ?c2" by (meson rtranclp.rtrancl_into_rtrancl)
  moreover have join: "client_steps ?c2 c3 \<and> \<not> cl_io_thread c3 \<and> \<not> cl_heartbeat_thread c3"
    using 1(5) env_join_steps [OF assms(3), of ?c2 w3 c3 w4] by (auto split: if_splits)
  ultimately have c3: "client_steps ?c0 c3" by (meson rtranclp_trans)
  have rank: "3 \<le> state_rank (cl_state ?c0)" "3 \<le> state_rank (cl_state ?c2)"
    using client_steps_rank [OF \<open>client_steps ?c0 ?c2\<close>] by (simp_all add: begin_closing_def)
  have "cl_closing c3" using client_steps_flags(1) [OF c3] rank by (simp add: begin_closing_def)
  moreover have "cl_stop_io c3" using client_steps_flags(2) [of ?c2 c3] join rank by simp
  moreover have "client_steps c c3" using 0 c3 by (rule converse_rtranclp_into_rtranclp)
  moreover have "cl_state c3 = Closing \<or> cl_state c3 = Closed"
    using client_steps_rank [OF c3] by (cases "cl_state c3") (simp_all add: begin_closing_def)
  ultimately show thesis
    using that [of c3 c5] join env_others_steps [OF assms(3) 1(6)] 1(7,8) by (simp add: client_fail_all_def)
qed

lemma stepwise_close:
  assumes "env_ok env"
  shows "stepwise (client_close os env)"
proof (rule stepwiseI)
  fix c w r c' w'
  assume run: "client_close os env (c, w) = Some (r, (c', w'))"
  show "client_steps c c'"
  proof (cases "cl_state c = Open")
    case False
    with run show ?thesis by (simp add: client_close_def)
  next
    case True
    from run True assms show ?thesis
    proof (rule client_close_steps)
      fix c3 c5
      assume c3: "client_steps c c3" "cl_state c3 = Closing \<or> cl_state c3 = Closed"
        and c5: "client_steps (client_fail_all connection_closed c3) c5" and c': "c' = set_state Closed c5"
      have "client_step c3 (client_fail_all connection_closed c3)" by (rule client_step.fail_all)
      with c3(1) c5 have "client_steps c c5" by (meson rtranclp.rtrancl_into_rtrancl rtranclp_trans)
      moreover have "client_step c5 c'"
        unfolding c'
        by (rule client_step.closed)
          (use client_steps_rank [OF c5] c3(2) in \<open>cases "cl_state c5"; auto simp: client_fail_all_def\<close>)
      ultimately show ?thesis by (rule rtranclp.rtrancl_into_rtrancl)
    qed
  qed
qed

lemma heartbeat_tick_steps:
  assumes "heartbeat_tick os (c, w) = Some (c', w')"
  shows "client_steps c c'"
proof -
  from assms have "c' = c \<or> c' = c\<lparr>cl_heartbeat_thread := False\<rparr> \<or> (\<exists>t. c' = c\<lparr>cl_last_outbound_at := t\<rparr>)"
    by (auto simp: heartbeat_tick_def Let_def case_prod_unfold split: if_splits option.splits)
  then show ?thesis
    using client_step.heartbeat_exit [of c] client_step.outbound [of c] by blast
qed

lemma heartbeat_loop_steps:
  assumes "heartbeat_loop os env st = Some st'"
  shows "env_ok env \<longrightarrow> client_steps (fst st) (fst st') \<and> cl_stop_io (fst st') \<and> \<not> cl_heartbeat_thread (fst st')"
proof (rule heartbeat_loop.raw_induct [where P = "\<lambda>os env st st'. env_ok env \<longrightarrow>
    client_steps (fst st) (fst st') \<and> cl_stop_io (fst st') \<and> \<not> cl_heartbeat_thread (fst st')"], goal_cases)
  case (1 loop os env st st')
  note IH = 1(1) and body = 1(2)
  show ?case
  proof
    assume env: "env_ok env"
    show "client_steps (fst st) (fst st') \<and> cl_stop_io (fst st') \<and> \<not> cl_heartbeat_thread (fst st')"
    proof (cases "cl_stop_io (fst st)")
      case True
      with body have "fst st' = (fst st)\<lparr>cl_heartbeat_thread := False\<rparr>" by auto
      with True show ?thesis using client_step.heartbeat_exit [of "fst st"] by auto
    next
      case False
      let ?st1 = "env_sleep env st"
      from body False obtain st2 where tick: "heartbeat_tick os ?st1 = Some st2"
        by (auto simp: Let_def split: option.splits)
      have 1: "client_steps (fst st) (fst ?st1)" using env unfolding env_ok_def by blast
      have "client_steps (fst ?st1) (fst st2)"
        using heartbeat_tick_steps [of os "fst ?st1" "snd ?st1" "fst st2" "snd st2"] tick by simp
      with 1 have 2: "client_steps (fst st) (fst st2)" by (rule rtranclp_trans)
      show ?thesis
      proof (cases "cl_stop_io (fst ?st1)")
        case True
        with body False tick have st': "st' = st2" by (simp add: Let_def)
        from tick True have "fst st2 = (fst ?st1)\<lparr>cl_heartbeat_thread := False\<rparr>"
          by (auto simp: heartbeat_tick_def case_prod_unfold)
        with 2 True st' show ?thesis by simp
      next
        case go_on: False
        with body False tick have "loop os env st2 = Some st'" by (simp add: Let_def)
        from IH [OF this] env 2 show ?thesis by (auto intro: rtranclp_trans)
      qed
    qed
  qed
qed (rule assms)

lemma destroy_steps:
  assumes "destroy os env (c, w) = Some (c', w')" and "env_ok env"
  shows "client_steps c c'"
proof -
  let ?c1 = "if cl_state c = Open then c\<lparr>cl_closing := True\<rparr> else c"
  let ?c2 = "?c1\<lparr>cl_stop_io := True\<rparr>"
  have "client_steps c ?c1" using client_step.destroying [of c] by auto
  moreover have "client_step ?c1 ?c2" by (rule client_step.stop)
  ultimately have c2: "client_steps c ?c2" by (rule rtranclp.rtrancl_into_rtrancl)
  from assms(1) obtain c3 w3 where join: "(if cl_io_thread ?c2 \<or> cl_heartbeat_thread ?c2 then env_join env (?c2, w)
      else Some (?c2, w)) = Some (c3, w3)" by (auto simp: destroy_def Let_def split: option.splits)
  then have "client_steps ?c2 c3" using env_join_steps [OF assms(2), of ?c2 w c3 w3] by (auto split: if_splits)
  with c2 have "client_steps c c3" by (rule rtranclp_trans)
  moreover obtain s w4 where cl: "socket_close os (cl_sock c3) w3 = (s, w4)" by fastforce
  moreover from assms(1) join cl have "c' = c3\<lparr>cl_sock := s\<rparr>" by (simp add: destroy_def Let_def)
  moreover have "client_step c3 (c3\<lparr>cl_sock := s\<rparr>)"
    by (rule client_step.set_socket) (simp add: socket_close_new [OF cl])
  ultimately show ?thesis by (metis rtranclp.rtrancl_into_rtrancl)
qed

section \<open>Descriptors\<close>

text \<open>Calls that do not open or close anything leave the descriptor table alone.\<close>

definition calls_keep_fds :: "'w os \<Rightarrow> 'w ConnectionConfig \<Rightarrow> ('w \<Rightarrow> int set) \<Rightarrow> bool" where
  "calls_keep_fds os cfg fds \<longleftrightarrow>
     (\<forall>host port w. fds (snd (os_getaddrinfo os host port w)) = fds w) \<and>
     (\<forall>fd s us w. fds (snd (os_setsockopt_rcvtimeo os fd s us w)) = fds w) \<and>
     (\<forall>w. fds (snd (os_now os w)) = fds w) \<and>
     (\<forall>fd. send_keeps os fd fds) \<and> (\<forall>fd. recv_keeps os fd fds) \<and> log_keeps cfg fds"

lemma apply_recv_timeout_keeps:
  "calls_keep_fds os cfg fds \<Longrightarrow> fds (apply_recv_timeout os hb s w) = fds w"
  by (simp add: calls_keep_fds_def apply_recv_timeout_def set_recv_timeout_def Let_def case_prod_unfold)

lemma connect_with_timeout_fds:
  assumes "fd_table os fds" and "\<And>host port w. fds (snd (os_getaddrinfo os host port w)) = fds w"
  shows "connect_outcome fds w (connect_with_timeout os host port timeout (default_resolve_host os) w)"
proof -
  obtain rc res w1 where r: "os_getaddrinfo os host (decimal_digits (unat port)) w = ((rc, res), w1)"
    by (metis prod.exhaust)
  with assms(2) [of host "decimal_digits (unat port)" w] have w1: "fds w1 = fds w" by simp
  have "connect_outcome fds w1 (connect_loop os host port timeout res w1)"
    by (rule connect_loop_connected [OF assms(1)])
  with r w1 show ?thesis
    by (auto simp: connect_with_timeout_def default_resolve_host_def connect_outcome_def split: sum.splits)
qed

lemma connect_session_fds:
  assumes "connect_session os sock (c, w) = Some (r, (c', w'))" and "cl_sock c = new_socket"
    and "fd_table os fds" and "calls_keep_fds os (cl_cfg c) fds" and "0 \<le> sock_fd sock"
  shows "case r of Inr _ \<Rightarrow> cl_sock c' = sock \<and> fds w' = fds w | Inl _ \<Rightarrow> fds w' = fds w - {sock_fd sock}"
proof -
  have hs: "fds w3 = fds w2" if "run_handshake os s (cl_cfg c) w2 = Some (hr, w3)" for s hr w2 w3
    by (rule io_keepsD [OF run_handshake_keeps that, where v = fds]) (use assms(4) in \<open>simp_all add: calls_keep_fds_def\<close>)
  have move: "s = sock" "fds w1 = fds w" if "socket_move_assign os (cl_sock c) sock w = ((s, so), w1)" for s so w1
    using that assms(2) by (auto simp: socket_move_assign_def new_socket_def socket_close_def socket_release_def)
  from assms(1) show ?thesis
  proof (cases rule: connect_session_cases)
    case (refused e s so s' w1 w2 w3)
    from socket_close_fds [OF assms(3), of s w3] refused(5) move [OF refused(2)] hs [OF refused(4)]
      apply_recv_timeout_keeps [OF assms(4)] refused(3) assms(5)
    show ?thesis by (simp add: refused(1) socket_valid_def kInvalidFd_def)
  next
    case (opened hr s so w1 w2 w3 t1 t2 msg)
    from move [OF opened(2)] hs [OF opened(4)] apply_recv_timeout_keeps [OF assms(4)] opened(3) assms(4)
    show ?thesis
      unfolding opened(1,5,6)
      by (simp add: calls_keep_fds_def log_keeps_def become_open_def store_handshake_def)
  qed
qed

lemma connect_fds:
  assumes "connect os (c, w) = Some (r, (c', w'))" and "cl_state c = Disconnected \<Longrightarrow> cl_sock c = new_socket"
    and "fd_table os fds" and "calls_keep_fds os (cl_cfg c) fds"
  shows "case r of Inr _ \<Rightarrow> sock_fd (cl_sock c') \<notin> fds w \<and> fds w' = insert (sock_fd (cl_sock c')) (fds w)
    | Inl _ \<Rightarrow> fds w' = fds w"
proof -
  have log: "fds (connecting_to (cl_cfg c) w) = fds w"
    using assms(4) by (simp add: calls_keep_fds_def log_keeps_def connecting_to_def)
  have tcp: "connect_outcome fds (connecting_to (cl_cfg c) w) (connect_with_timeout os (cfg_host (cl_cfg c))
      (cfg_port (cl_cfg c)) (cfg_connect_timeout (cl_cfg c)) (default_resolve_host os) (connecting_to (cl_cfg c) w))"
    by (rule connect_with_timeout_fds [OF assms(3)]) (use assms(4) in \<open>simp add: calls_keep_fds_def\<close>)
  from assms(1) show ?thesis
  proof (cases rule: connect_cases)
    case (unreachable e)
    with tcp log show ?thesis by (simp add: connect_outcome_def)
  next
    case (connected sock w1)
    with tcp log have sock: "0 \<le> sock_fd sock" "sock_fd sock \<notin> fds w" "fds w1 = insert (sock_fd sock) (fds w)"
      by (simp_all add: connect_outcome_def)
    have "cl_sock (set_state Connecting c) = new_socket" "cl_cfg (set_state Connecting c) = cl_cfg c"
      using assms(2) [OF connected(1)] by (simp_all add: set_state_def)
    with connect_session_fds [OF connected(4) _ assms(3) _ sock(1)] assms(4) sock show ?thesis
      by (auto split: sum.splits)
  qed simp_all
qed

section \<open>What the requests do\<close>

text \<open>The clock is read without touching the connection.\<close>

definition now_keeps :: "'w os \<Rightarrow> ('w \<Rightarrow> 'v) \<Rightarrow> bool" where
  "now_keeps os v \<longleftrightarrow> (\<forall>w. v (snd (os_now os w)) = v w)"

lemma now_keepsD: "now_keeps os v \<Longrightarrow> os_now os w = (t, w') \<Longrightarrow> v w' = v w"
  unfolding now_keeps_def by (metis snd_conv)

text \<open>The correlation ids in use are below the next one, as long as the counter has not wrapped.\<close>

definition cids_below :: "'w client \<Rightarrow> bool" where
  "cids_below c \<longleftrightarrow> (\<forall>cid \<in> fst ` set (ds_pending (cl_dispatcher c)). cid < cl_next_app_cid c)"

lemma registered_fields [simp]:
  "cl_state (registered now c) = cl_state c" "cl_sock (registered now c) = cl_sock c"
  "cl_cfg (registered now c) = cl_cfg c" "cl_next_app_cid (registered now c) = cl_next_app_cid c + 1"
  "cl_dispatcher (registered now c) = snd (register_pending (cl_next_app_cid c)
     (now + ms (cfg_request_timeout (cl_cfg c))) (cl_dispatcher c))"
  by (simp_all add: registered_def section_defs)

lemma registered_fresh:
  assumes "cids_below c"
  shows "ds_pending (cl_dispatcher (registered now c)) =
      (cl_next_app_cid c, \<lparr>pe_promise = length (ds_shared (cl_dispatcher c)),
         pe_deadline = now + ms (cfg_request_timeout (cl_cfg c))\<rparr>) # ds_pending (cl_dispatcher c)"
    "ds_shared (cl_dispatcher (registered now c)) = ds_shared (cl_dispatcher c) @ [Unset]"
proof -
  have "cl_next_app_cid c \<notin> fst ` set (ds_pending (cl_dispatcher c))"
    using assms by (auto simp: cids_below_def)
  then show "ds_pending (cl_dispatcher (registered now c)) =
      (cl_next_app_cid c, \<lparr>pe_promise = length (ds_shared (cl_dispatcher c)),
         pe_deadline = now + ms (cfg_request_timeout (cl_cfg c))\<rparr>) # ds_pending (cl_dispatcher c)"
    "ds_shared (cl_dispatcher (registered now c)) = ds_shared (cl_dispatcher c) @ [Unset]"
    by (simp_all add: register_pending_cases)
qed

lemma registered_cids_below:
  assumes "cids_below c" and "cl_next_app_cid c \<noteq> -1"
  shows "cids_below (registered now c)"
proof -
  have succ: "cl_next_app_cid c < cl_next_app_cid c + 1"
    by (rule word_less_succ [OF assms(2)])
  with assms(1) show ?thesis
    unfolding cids_below_def registered_fresh(1) [OF assms(1)]
    by (auto simp: registered_def section_defs intro: less_trans)
qed

lemma begin_request_ok:
  assumes "begin_request os key version body (c, w) = Some (Ok p, (c1, w1))"
    and "tcp_stream os (sock_fd (cl_sock c)) out inp" and "now_keeps os out" "now_keeps os inp"
    and "cids_below c"
  shows "exchanged out inp w w1 (encode_request_frame key version (cl_next_app_cid c) body) [] \<and>
    (cl_negotiated_frame_max c = 0 \<or> 8 + length body \<le> unat (cl_negotiated_frame_max c)) \<and>
    (\<exists>deadline. (cl_next_app_cid c, \<lparr>pe_promise = p, pe_deadline = deadline\<rparr>) \<in> set (ds_pending (cl_dispatcher c1))) \<and>
    p < length (ds_shared (cl_dispatcher c1)) \<and> ds_shared (cl_dispatcher c1) ! p = Unset"
  using assms(1)
proof (cases rule: begin_request_cases)
  case (written now w2 t w3 wr)
  then obtain u where u: "wr = Ok u" "p = length (ds_shared (cl_dispatcher c))"
    by (auto split: sum.splits)
  have wr: "write_all os (cl_sock c) (encode_request_frame key version (cl_next_app_cid c) body) w3 =
      Some (Ok (), w1)" using written(3) u(1) by simp
  have "exchanged out inp w w1 (encode_request_frame key version (cl_next_app_cid c) body) []"
    using tcp_write [OF wr assms(2)] now_keepsD [OF assms(3) written(1)] now_keepsD [OF assms(4) written(1)]
      now_keepsD [OF assms(3) written(2)] now_keepsD [OF assms(4) written(2)]
    by (simp add: exchanged_def)
  moreover have "\<exists>deadline. (cl_next_app_cid c, \<lparr>pe_promise = p, pe_deadline = deadline\<rparr>)
      \<in> set (ds_pending (cl_dispatcher c1))"
    "p < length (ds_shared (cl_dispatcher c1)) \<and> ds_shared (cl_dispatcher c1) ! p = Unset"
    using registered_fresh [OF assms(5), of now] unfolding written(5) u(2) by auto
  ultimately show ?thesis using written(6) by blast
qed simp_all

lemma await_response_ready:
  assumes "env_wait_for env p (cfg_request_timeout (cl_cfg (fst st))) st = (True, st')"
    and "ds_shared (cl_dispatcher (fst st')) ! p = Ready r"
  shows "await_response env p st = Some (r, st')"
  using assms by (simp add: await_response_def future_get_def)

lemma await_response_timeout:
  assumes "env_wait_for env p (cfg_request_timeout (cl_cfg (fst st))) st = (False, st')"
  shows "await_response env p st = Some (Err request_timed_out, st')"
  using assms by (simp add: await_response_def)

lemma begin_request_succeeds:
  assumes "interrupts_bounded os (sock_fd (cl_sock c)) budget" and "send_accepts os (sock_fd (cl_sock c))"
    and "cl_negotiated_frame_max c = 0 \<or> 8 + length body \<le> unat (cl_negotiated_frame_max c)"
  shows "\<exists>c1 w1. begin_request os key version body (c, w) =
    Some (Ok (length (ds_shared (cl_dispatcher c))), (c1, w1))"
proof -
  obtain now w1 t w2 where now: "os_now os w = (now, w1)" "os_now os w1 = (t, w2)" by fastforce
  obtain w3 where "write_all os (cl_sock c) (encode_request_frame key version (cl_next_app_cid c) body) w2 =
      Some (Ok (), w3)"
    unfolding write_all_def using write_all_loop_succeeds [OF assms(1,2)] by blast
  moreover have "check_outbound_frame_size (8 + length body) (cl_negotiated_frame_max c) = Ok ()"
    using assms(3) by (simp add: check_outbound_frame_size_iff)
  ultimately show ?thesis
    using now by (simp add: begin_request_def section_defs Let_def length_encode_request_frame)
qed

text \<open>The response to a request that was just sent reaches its future, if it comes in time.\<close>

lemma request_resolved:
  assumes "begin_request os key version body (c, w) = Some (Ok p, (c1, w1))"
    and "client_ok c" and "cids_below c" and "cl_io_thread c"
    and "is_response (fr_key f)" and "fr_cid f = Some (cl_next_app_cid c)"
    and "io_handle os env (Ok f) (c1, w2) = (go_on, (c2, w3))"
    and "fst (os_now os (snd (os_now os w2))) < fst (os_now os w) + ms (cfg_request_timeout (cl_cfg c))"
  shows "go_on \<and> client_ok c2 \<and> cl_state c2 = cl_state c \<and> cl_cfg c1 = cl_cfg c \<and>
    p < length (ds_shared (cl_dispatcher c2)) \<and> ds_shared (cl_dispatcher c2) ! p = Ready (Ok f)"
  using assms(1)
proof (cases rule: begin_request_cases)
  case (written now w1' t w2' wr)
  let ?e = "\<lparr>pe_promise = p, pe_deadline = now + ms (cfg_request_timeout (cl_cfg c))\<rparr>"
  let ?now = "fst (os_now os (snd (os_now os w2)))"
  let ?d = "snd (reap_expired ?now (cl_dispatcher c1))"
  have p: "p = length (ds_shared (cl_dispatcher c))" using written(4) by (auto split: sum.splits)
  have c1: "client_steps c c1"
    by (rule stepwiseD [OF stepwise_begin_request assms(1)])
  then have ok1: "client_ok c1" using client_steps_ok assms(2) by blast
  then have ok: "dispatcher_ok ?d" by (simp add: client_ok_def reap_expired.keeps_owned)
  have "ds_pending (cl_dispatcher c1) = (cl_next_app_cid c, ?e) # ds_pending (cl_dispatcher c)"
    using registered_fresh(1) [OF assms(3), of now] written(5) p by simp
  with assms(8) written(1) have "map_of (ds_pending ?d) (cl_next_app_cid c) = Some ?e"
    by (simp add: reap_expired_pending)
  with assms(5,6) have "entry_for f ?d = Some (cl_next_app_cid c, ?e)" by (simp add: entry_for_def)
  from dispatch_resolves(1) [OF ok this] have "ds_shared (snd (dispatch f ?d)) ! p = Ready (Ok f)" by simp
  moreover have c2: "c2 = client_dispatch f (client_reap ?now (c1\<lparr>cl_last_inbound_at := fst (os_now os w2)\<rparr>))"
    and "go_on" using assms(7) by (auto simp: io_handle_def Let_def case_prod_unfold)
  moreover have "cl_io_thread c1" using written(5) assms(4) by (simp add: registered_def section_defs)
  then have 2: "client_steps c1 c2" using io_handle_delivers [OF assms(7)] by blast
  then have "client_ok c2" "settles_once (cl_dispatcher c1) (cl_dispatcher c2)"
    using client_steps_ok ok1 by blast+
  moreover have "p < length (ds_shared (cl_dispatcher c1))"
    using registered_fresh(2) [OF assms(3), of now] written(5) p by simp
  ultimately show ?thesis
    using written(5) by (auto simp: section_defs settles_once_def registered_def)
qed simp

lemma await_response_answered:
  assumes "ds_shared (cl_dispatcher c2) ! p = Ready r" and "p < length (ds_shared (cl_dispatcher c2))"
    and "client_ok c2" and "client_steps c2 c3"
    and "env_wait_for env p (cfg_request_timeout (cl_cfg c1)) (c1, w1) = (True, (c3, w4))"
  shows "await_response env p (c1, w1) = Some (r, (c3, w4))"
proof -
  have "settles_once (cl_dispatcher c2) (cl_dispatcher c3)"
    using client_steps_ok [OF assms(4,3)] by blast
  with assms(1,2) have "ds_shared (cl_dispatcher c3) ! p = Ready r" by (simp add: settles_once_def)
  with assms(5) show ?thesis by (intro await_response_ready) simp_all
qed

lemma send_and_wait_eq:
  assumes "begin_request os key version body st = Some (Ok p, st1)" and "await_response env p st1 = Some res"
  shows "send_and_wait os env key version body st = Some res"
  using assms by (simp add: send_and_wait_def)

text \<open>What the commands make of the response.\<close>

lemma require_open_then: "cl_state c = Open \<Longrightarrow> io_bind require_open f (c, w) = f () (c, w)"
  by (simp add: require_open_def)

lemma lift_then: "r = Ok x \<Longrightarrow> io_bind (io_lift r) f st = f x st"
  by simp

lemma create_stream_result:
  assumes "cl_state c = Open"
    and "send_and_wait os env CreateRequest_kKey kVersion
      (enc_CreateRequest \<lparr>crq_stream = stream, crq_arguments = args\<rparr>) (c, w) = Some (Ok f, st)"
    and "fr_body f = enc_CreateResponse \<lparr>crr_response_code = rc\<rparr>"
  shows "create_stream os env stream args idempotent (c, w) =
    Some (if rc = 0x01 \<or> rc = 0x05 \<and> idempotent then Ok ()
          else if rc = 0x05 then Err (StreamError StreamAlreadyExists (''stream already exists: '' @ stream))
          else Err (StreamErrorCode ServerError ''create_stream failed'' rc), st)"
proof -
  have dec: "fst (CreateResponse_decode_body (reader_of (fr_body f))) = Ok \<lparr>crr_response_code = rc\<rparr>"
    unfolding assms(3) by (simp add: crr.body_decodes valid_CreateResponse_def)
  show ?thesis
    unfolding create_stream_def Let_def crq.body_eq require_open_then [OF assms(1)]
      io_bind_Ok [where m = "send_and_wait _ _ _ _ _", OF assms(2)] lift_then [OF dec]
    by (simp add: wire_consts)
qed

lemma delete_stream_result:
  assumes "cl_state c = Open"
    and "send_and_wait os env DeleteRequest_kKey kVersion
      (enc_DeleteRequest \<lparr>dlq_stream = stream\<rparr>) (c, w) = Some (Ok f, st)"
    and "fr_body f = enc_DeleteResponse \<lparr>dlr_response_code = rc\<rparr>"
  shows "delete_stream os env stream idempotent (c, w) =
    Some (if rc = 0x01 \<or> rc = 0x02 \<and> idempotent then Ok ()
          else if rc = 0x02 then Err (StreamError StreamDoesNotExist (''stream does not exist: '' @ stream))
          else Err (StreamErrorCode ServerError ''delete_stream failed'' rc), st)"
proof -
  have dec: "fst (DeleteResponse_decode_body (reader_of (fr_body f))) = Ok \<lparr>dlr_response_code = rc\<rparr>"
    unfolding assms(3) by (simp add: dlr.body_decodes valid_DeleteResponse_def)
  show ?thesis
    unfolding delete_stream_def Let_def dlq.body_eq require_open_then [OF assms(1)]
      io_bind_Ok [where m = "send_and_wait _ _ _ _ _", OF assms(2)] lift_then [OF dec]
    by (simp add: wire_consts)
qed

lemma query_offset_result:
  assumes "cl_state c = Open"
    and "send_and_wait os env QueryOffsetRequest_kKey kVersion
      (enc_QueryOffsetRequest \<lparr>qoq_reference = reference, qoq_stream = stream\<rparr>) (c, w) = Some (Ok f, st)"
    and "fr_body f = enc_QueryOffsetResponse \<lparr>qor_response_code = rc, qor_offset = offset\<rparr>"
  shows "query_offset os env reference stream (c, w) =
    Some (if rc = 0x01 then Ok (Some offset) else if rc = 0x13 then Ok None
          else if rc = 0x02 then Err (StreamError StreamDoesNotExist (''stream does not exist: '' @ stream))
          else Err (StreamErrorCode ServerError ''query_offset failed'' rc), st)"
proof -
  have dec: "fst (QueryOffsetResponse_decode_body (reader_of (fr_body f))) =
      Ok \<lparr>qor_response_code = rc, qor_offset = offset\<rparr>"
    unfolding assms(3) by (simp add: qor.body_decodes valid_QueryOffsetResponse_def)
  show ?thesis
    unfolding query_offset_def Let_def qoq.body_eq require_open_then [OF assms(1)]
      io_bind_Ok [where m = "send_and_wait _ _ _ _ _", OF assms(2)] lift_then [OF dec]
    by (simp add: wire_consts)
qed

lemma query_publisher_sequence_result:
  assumes "cl_state c = Open" and "length reference \<le> 256"
    and "send_and_wait os env QueryPublisherRequest_kKey kVersion
      (enc_QueryPublisherRequest \<lparr>qpq_publisher_reference = reference, qpq_stream = stream\<rparr>) (c, w) =
        Some (Ok f, st)"
    and "fr_body f = enc_QueryPublisherResponse \<lparr>qpr_response_code = rc, qpr_sequence = seq\<rparr>"
  shows "query_publisher_sequence os env reference stream (c, w) =
    Some (if rc = 0x01 then Ok seq
          else if rc = 0x02 then Err (StreamError StreamDoesNotExist (''stream does not exist: '' @ stream))
          else Err (StreamErrorCode ServerError ''query_publisher_sequence failed'' rc), st)"
proof -
  have dec: "fst (QueryPublisherResponse_decode_body (reader_of (fr_body f))) =
      Ok \<lparr>qpr_response_code = rc, qpr_sequence = seq\<rparr>"
    unfolding assms(4) by (simp add: qpr.body_decodes valid_QueryPublisherResponse_def)
  have ref: "check_reference reference = Ok ()" using assms(2) by (simp add: check_reference_def)
  show ?thesis
    unfolding query_publisher_sequence_def Let_def qpq.body_eq require_open_then [OF assms(1)]
      lift_then [OF ref] io_bind_Ok [where m = "send_and_wait _ _ _ _ _", OF assms(3)] lift_then [OF dec]
    by (simp add: wire_consts)
qed

section \<open>The end of a connection\<close>

lemma client_close_returns:
  assumes "interrupts_bounded os (sock_fd (cl_sock c)) budget" and "\<And>st. cl_stop_io (fst st) \<Longrightarrow> env_join env st \<noteq> None"
  shows "\<exists>res. client_close os env (c, w) = Some res"
proof -
  have wr: "\<exists>r w'. write_all os (cl_sock c) frame w0 = Some (r, w')" for frame w0
    using write_all_loop_returns [OF assms(1)] by (fastforce simp: write_all_def)
  have join: "\<exists>c' w'. env_join env (c2\<lparr>cl_stop_io := True, cl_sock := s\<rparr>, w2) = Some (c', w')" for c2 s w2
    using assms(2) [of "(c2\<lparr>cl_stop_io := True, cl_sock := s\<rparr>, w2)"] by auto
  let ?frame = "encode_request_frame CloseRequest_kKey kVersion (cl_next_app_cid c) (bw_data
      (CloseRequest_encode_body empty_writer
        \<lparr>clq_closing_code = 0x01, clq_closing_reason = ''client requested close''\<rparr>))"
  obtain now w0 where now: "os_now os w = (now, w0)" by fastforce
  obtain r1 w1 where w1: "write_all os (cl_sock c) ?frame w0 = Some (r1, w1)" using wr by blast
  show ?thesis
    using now w1
    by (auto simp: client_close_def Let_def case_prod_unfold section_defs split: option.splits)
      (use join in \<open>metis option.distinct(1)\<close>)+
qed

lemma settled_stays:
  assumes "settles_once d d'" and "unsettled d = {}"
  shows "unsettled d' \<subseteq> {length (ds_shared d)..}"
proof
  fix p
  assume p: "p \<in> unsettled d'"
  show "p \<in> {length (ds_shared d)..}"
  proof (rule ccontr)
    assume "p \<notin> {length (ds_shared d)..}"
    then have "p < length (ds_shared d)" "ds_shared d ! p \<noteq> Unset" using assms(2) by (auto simp: unsettled_def)
    with assms(1) p show False by (auto simp: unsettled_def settles_once_def)
  qed
qed

text \<open>
  Whoever registered a request before \<open>fail_all_pending\<close> gets a result; a later registration is the only
  one that can be left over.
\<close>

lemma client_close_done:
  assumes "client_close os env (c, w) = Some (r, (c', w'))" and "cl_state c = Open" and "env_ok env"
    and "client_ok c"
  shows "r = Ok () \<and> cl_state c' = Closed \<and> cl_closing c' \<and> cl_stop_io c' \<and> \<not> cl_io_thread c' \<and>
    settles_once (cl_dispatcher c) (cl_dispatcher c') \<and>
    (\<exists>c3. client_steps c c3 \<and> \<not> cl_io_thread c3 \<and> \<not> cl_heartbeat_thread c3 \<and> client_steps c3 c' \<and>
       unsettled (cl_dispatcher c') \<subseteq> {length (ds_shared (cl_dispatcher c3))..})"
  using assms(1-3)
proof (rule client_close_steps)
  fix c3 c5
  assume c3: "client_steps c c3" "cl_closing c3" "cl_stop_io c3" "\<not> cl_io_thread c3" "\<not> cl_heartbeat_thread c3"
      "cl_state c3 = Closing \<or> cl_state c3 = Closed"
    and c5: "client_steps (client_fail_all connection_closed c3) c5" "cl_io_thread c5 = cl_io_thread c3"
    and c': "c' = set_state Closed c5" and r: "r = Ok ()"
  let ?c4 = "client_fail_all connection_closed c3"
  have 34: "client_step c3 ?c4" by (rule client_step.fail_all)
  have ok3: "client_ok c3" using client_steps_ok [OF c3(1) assms(4)] by blast
  have ok4: "client_ok ?c4" by (rule client_step_ok [OF 34 ok3])
  have rank: "2 \<le> state_rank (cl_state ?c4)" using c3(6) by (auto simp: client_fail_all_def)
  have "unsettled (cl_dispatcher ?c4) = {}"
    using fail_all_unsettled [of "cl_dispatcher c3"] ok3 by (simp add: client_ok_def client_fail_all_def)
  with client_steps_ok [OF c5(1) ok4, THEN conjunct2, THEN conjunct2] have "unsettled (cl_dispatcher c5) \<subseteq> {length (ds_shared (cl_dispatcher ?c4))..}"
    by (rule settled_stays)
  moreover have "length (ds_shared (cl_dispatcher ?c4)) = length (ds_shared (cl_dispatcher c3))"
    by (simp add: client_fail_all_def fail_all_pending_def)
  moreover have 5: "client_steps c3 c5" by (rule converse_rtranclp_into_rtranclp [OF 34 c5(1)])
  moreover have "client_step c5 c'"
    unfolding c' by (rule client_step.closed)
      (use client_steps_rank [OF c5(1)] c3(6) in \<open>cases "cl_state c5"; auto simp: client_fail_all_def\<close>)
  with 5 have "client_steps c3 c'" by (rule rtranclp.rtrancl_into_rtrancl)
  moreover have "settles_once (cl_dispatcher c) (cl_dispatcher c')"
    using client_steps_ok [OF rtranclp_trans [OF c3(1) \<open>client_steps c3 c'\<close>] assms(4)] by blast
  moreover have "cl_closing c5" "cl_stop_io c5"
    using client_steps_flags [OF c5(1) rank] c3(2,3) by (simp_all add: client_fail_all_def)
  ultimately show ?thesis using c3(1,4,5) c5(2) r by (auto simp: c' set_state_def)
qed

end
