(* ===== verification/Schedule.thy ===== *)
theory Schedule
  imports Client
begin

text \<open>
  Schedules of the threads of a client (\<open>client.cpp\<close>: \<open>io_loop\<close> and the heartbeat thread of \<open>connect\<close>), as
  instances of the parameter \<open>env\<close> of \<open>Client\<close>. While an application thread waits for a future, the heartbeat
  thread makes any number of checks and the I/O thread takes one turn of its loop. \<open>join\<close> runs both threads
  to their end; it may find the I/O thread inside a read, with any result.
\<close>

section \<open>Turns\<close>

text \<open>The other threads do nothing.\<close>

definition alone :: "'w env" where
  "alone = \<lparr>env_wait_for = (\<lambda>p t st. (False, st)), env_join = (\<lambda>st. None), env_others = (\<lambda>st. st),
     env_sleep = (\<lambda>st. st)\<rparr>"

lemma alone_fields [simp]: "env_others alone st = st" "env_sleep alone st = st"
  by (simp_all add: alone_def)

lemma alone_ok [simp]: "env_ok alone"
  by (simp add: env_ok_def alone_def)

text \<open>The rest of a round of the I/O thread when its read has returned, and a round of its loop.\<close>

definition io_finish :: "'w os \<Rightarrow> incoming_frame result \<Rightarrow> 'w st \<Rightarrow> 'w st" where
  "io_finish os frame_r st =
     (case io_handle os alone frame_r st of
        (go_on, st') \<Rightarrow> if go_on then st' else (io_exit (fst st'), snd st'))"

definition io_turn :: "'w os \<Rightarrow> 'w st \<Rightarrow> 'w st" where
  "io_turn os st =
     (if cl_io_thread (fst st) then
        (if cl_stop_io (fst st) then (io_exit (fst st), snd st)
         else
           (case read_frame os (cl_sock (fst st)) (snd st) of
              None \<Rightarrow> st
            | Some (frame_r, w) \<Rightarrow> io_finish os frame_r (fst st, w)))
      else st)"

text \<open>A check of the heartbeat thread.\<close>

definition heartbeat_turn :: "'w os \<Rightarrow> 'w st \<Rightarrow> 'w st" where
  "heartbeat_turn os st =
     (if cl_heartbeat_thread (fst st) then
        (case heartbeat_tick os st of None \<Rightarrow> st | Some st' \<Rightarrow> st')
      else st)"

section \<open>Schedules\<close>

text \<open>
  \<open>sc_checks\<close>: how many checks the heartbeat thread makes before the I/O thread takes its turn.
  \<open>sc_blocked\<close>: the result of the read in which \<open>join\<close> finds the I/O thread, if it is in one.
\<close>

record 'w schedule =
  sc_checks :: "'w st \<Rightarrow> nat"
  sc_blocked :: "'w st \<Rightarrow> incoming_frame result option"

definition join_io :: "'w os \<Rightarrow> 'w schedule \<Rightarrow> 'w st \<Rightarrow> 'w st option" where
  "join_io os sched st =
     (if cl_io_thread (fst st) then
        (case sc_blocked sched st of
           None \<Rightarrow> io_loop os alone st
         | Some frame_r \<Rightarrow>
             (let st = io_finish os frame_r st
              in if cl_io_thread (fst st) then io_loop os alone st else Some st))
      else Some st)"

definition join_heartbeat :: "'w os \<Rightarrow> 'w st \<Rightarrow> 'w st option" where
  "join_heartbeat os st = (if cl_heartbeat_thread (fst st) then heartbeat_loop os alone st else Some st)"

definition scheduled :: "'w os \<Rightarrow> 'w schedule \<Rightarrow> 'w env" where
  "scheduled os sched =
     \<lparr>env_wait_for = (\<lambda>p t st. let st' = io_turn os ((heartbeat_turn os ^^ sc_checks sched st) st) in
        (ds_shared (cl_dispatcher (fst st')) ! p \<noteq> Unset, st')),
      env_join = (\<lambda>st. case join_io os sched st of None \<Rightarrow> None | Some st' \<Rightarrow> join_heartbeat os st'),
      env_others = (\<lambda>st. st), env_sleep = (\<lambda>st. st)\<rparr>"

text \<open>Only the I/O thread runs, and \<open>join\<close> finds it at the test of its loop.\<close>

definition io_only :: "'w schedule" where
  "io_only = \<lparr>sc_checks = (\<lambda>st. 0), sc_blocked = (\<lambda>st. None)\<rparr>"

definition serving :: "'w os \<Rightarrow> 'w env" where
  "serving os = scheduled os io_only"

lemma scheduled_others [simp]: "env_others (scheduled os sched) st = st" "env_sleep (scheduled os sched) st = st"
  by (simp_all add: scheduled_def)

lemma serving_others [simp]: "env_others (serving os) st = st" "env_sleep (serving os) st = st"
  by (simp_all add: serving_def)

lemma serving_wait:
  "env_wait_for (serving os) p t st =
     (ds_shared (cl_dispatcher (fst (io_turn os st))) ! p \<noteq> Unset, io_turn os st)"
  by (simp add: serving_def scheduled_def io_only_def Let_def)

section \<open>They take steps of the client\<close>

lemma io_finish_steps:
  assumes "cl_io_thread c"
  shows "client_steps c (fst (io_finish os r (c, w)))"
proof -
  obtain go_on c' w' where h: "io_handle os alone r (c, w) = (go_on, (c', w'))" by (metis prod.exhaust)
  from io_handle_steps [OF h assms alone_ok] have c': "client_steps c c'" "cl_io_thread c'" by simp_all
  then have "client_steps c (io_exit c')"
    by (meson client_step.io_thread_exit rtranclp.rtrancl_into_rtrancl)
  with c' h show ?thesis by (simp add: io_finish_def)
qed

lemma io_turn_steps: "client_steps c (fst (io_turn os (c, w)))"
proof (cases "cl_io_thread c \<and> \<not> cl_stop_io c")
  case False
  then show ?thesis using client_step.io_thread_exit [of c] by (auto simp: io_turn_def)
next
  case True
  then show ?thesis
    using io_finish_steps [of c os] by (cases "read_frame os (cl_sock c) w") (auto simp: io_turn_def)
qed

lemma heartbeat_turn_steps: "client_steps c (fst (heartbeat_turn os (c, w)))"
  using heartbeat_tick_steps [of os c w] by (auto simp: heartbeat_turn_def split: option.split)

lemma heartbeat_turns_steps: "client_steps (fst st) (fst ((heartbeat_turn os ^^ n) st))"
proof (induction n)
  case (Suc n)
  have "client_steps (fst ((heartbeat_turn os ^^ n) st)) (fst (heartbeat_turn os ((heartbeat_turn os ^^ n) st)))"
    using heartbeat_turn_steps [of "fst ((heartbeat_turn os ^^ n) st)" os "snd ((heartbeat_turn os ^^ n) st)"] by simp
  with Suc show ?case by (simp add: rtranclp_trans)
qed simp

text \<open>The I/O loop ends with its thread, and the heartbeat loop leaves the I/O thread alone.\<close>

lemma io_loop_ended:
  assumes "io_loop os env st = Some st'"
  shows "\<not> cl_io_thread (fst st')"
proof (rule io_loop.raw_induct [where P = "\<lambda>os env st st'. \<not> cl_io_thread (fst st')"], goal_cases)
  case (1 loop os env st st')
  then show ?case
    by (auto simp: Let_def io_exit_def split: if_splits option.splits prod.splits)
qed (rule assms)

lemma heartbeat_tick_io:
  "heartbeat_tick os st = Some st' \<Longrightarrow> cl_io_thread (fst st') = cl_io_thread (fst st)"
  by (auto simp: heartbeat_tick_def Let_def case_prod_unfold split: if_splits option.splits)

lemma heartbeat_loop_io:
  assumes "heartbeat_loop os env st = Some st'"
  shows "(\<forall>st. env_sleep env st = st) \<longrightarrow> cl_io_thread (fst st') = cl_io_thread (fst st)"
proof (rule heartbeat_loop.raw_induct [where P = "\<lambda>os env st st'.
    (\<forall>st. env_sleep env st = st) \<longrightarrow> cl_io_thread (fst st') = cl_io_thread (fst st)"], goal_cases)
  case (1 loop os env st st')
  show ?case
  proof
    assume id: "\<forall>st. env_sleep env st = st"
    have next_round: "cl_io_thread (fst st') = cl_io_thread (fst st2)" if "loop os env st2 = Some st'" for st2
      using 1(1) [OF that] id by blast
    show "cl_io_thread (fst st') = cl_io_thread (fst st)"
      using 1(2) next_round heartbeat_tick_io [of os st] unfolding spec [OF id, of st]
      by (auto simp: Let_def split: if_splits option.splits)
  qed
qed (rule assms)

lemma join_io_steps:
  assumes "join_io os sched st = Some st'"
  shows "client_steps (fst st) (fst st') \<and> \<not> cl_io_thread (fst st')"
proof (cases "cl_io_thread (fst st)")
  case False
  with assms show ?thesis by (simp add: join_io_def)
next
  case io: True
  have loop: "client_steps (fst st1) (fst st') \<and> \<not> cl_io_thread (fst st')"
    if "io_loop os alone st1 = Some st'" "cl_io_thread (fst st1)" for st1
    using io_loop_steps [OF that(1)] io_loop_ended [OF that(1)] that(2) by simp
  show ?thesis
  proof (cases "sc_blocked sched st")
    case None
    with assms io loop [of st] show ?thesis by (simp add: join_io_def)
  next
    case (Some r)
    let ?st1 = "io_finish os r st"
    have "client_steps (fst st) (fst ?st1)" using io_finish_steps [OF io, of os r "snd st"] by simp
    moreover have "client_steps (fst ?st1) (fst st') \<and> \<not> cl_io_thread (fst st')"
      using assms io Some loop [of ?st1] by (auto simp: join_io_def Let_def split: if_splits)
    ultimately show ?thesis by (auto intro: rtranclp_trans)
  qed
qed

lemma join_heartbeat_steps:
  assumes "join_heartbeat os st = Some st'"
  shows "client_steps (fst st) (fst st') \<and> cl_io_thread (fst st') = cl_io_thread (fst st) \<and>
    \<not> cl_heartbeat_thread (fst st')"
  using assms heartbeat_loop_steps [of os alone st st'] heartbeat_loop_io [of os alone st st']
  by (auto simp: join_heartbeat_def split: if_splits)

lemma scheduled_ok: "env_ok (scheduled os sched)"
proof -
  have "client_steps (fst st) (fst (io_turn os ((heartbeat_turn os ^^ n) st)))" for n st
    using heartbeat_turns_steps [of st n os]
      io_turn_steps [of "fst ((heartbeat_turn os ^^ n) st)" os "snd ((heartbeat_turn os ^^ n) st)"]
    by (simp add: rtranclp_trans)
  moreover have "client_steps (fst st) (fst st') \<and> \<not> cl_io_thread (fst st') \<and> \<not> cl_heartbeat_thread (fst st')"
    if "(case join_io os sched st of None \<Rightarrow> None | Some st' \<Rightarrow> join_heartbeat os st') = Some st'" for st st'
  proof -
    from that obtain st1 where "join_io os sched st = Some st1" "join_heartbeat os st1 = Some st'"
      by (auto split: option.splits)
    with join_io_steps join_heartbeat_steps show ?thesis by (metis rtranclp_trans)
  qed
  ultimately show ?thesis by (auto simp: env_ok_def scheduled_def Let_def)
qed

lemma serving_ok: "env_ok (serving os)"
  unfolding serving_def by (rule scheduled_ok)

section \<open>Joining threads that were told to stop\<close>

lemma io_loop_stopped: "cl_stop_io (fst st) \<Longrightarrow> io_loop os env st = Some (io_exit (fst st), snd st)"
  by (subst io_loop.simps) simp

lemma heartbeat_loop_stopped:
  "cl_stop_io (fst st) \<Longrightarrow> heartbeat_loop os env st = Some ((fst st)\<lparr>cl_heartbeat_thread := False\<rparr>, snd st)"
  by (subst heartbeat_loop.simps) simp

text \<open>Reading the clock is all that finishing a round does to the world.\<close>

lemma io_finish_world: "snd (io_finish os r (c, w)) \<in> {w, snd (os_now os w), snd (os_now os (snd (os_now os w)))}"
  by (auto simp: io_finish_def io_handle_def Let_def case_prod_unfold split: sum.split)

lemma io_handle_stop: "io_handle os alone r (c, w) = (go_on, (c', w')) \<Longrightarrow> cl_stop_io c' = cl_stop_io c \<and>
    cl_sock c' = cl_sock c \<and> cl_cfg c' = cl_cfg c \<and> cl_heartbeat_thread c' = cl_heartbeat_thread c"
  by (auto simp: io_handle_def Let_def case_prod_unfold section_defs notify_unexpected_close_def
      split: sum.splits if_splits option.splits)

lemma io_finish_fields:
  "cl_stop_io (fst (io_finish os r (c, w))) = cl_stop_io c" "cl_sock (fst (io_finish os r (c, w))) = cl_sock c"
  "cl_cfg (fst (io_finish os r (c, w))) = cl_cfg c"
proof -
  obtain go_on c' w' where h: "io_handle os alone r (c, w) = (go_on, (c', w'))" by (metis prod.exhaust)
  from io_handle_stop [OF h] h show "cl_stop_io (fst (io_finish os r (c, w))) = cl_stop_io c"
    "cl_sock (fst (io_finish os r (c, w))) = cl_sock c" "cl_cfg (fst (io_finish os r (c, w))) = cl_cfg c"
    by (simp_all add: io_finish_def io_exit_def Let_def)
qed

text \<open>The application is not notified when it is closing and the server was heard of in time.\<close>

definition heard :: "'w os \<Rightarrow> 'w client \<Rightarrow> bool" where
  "heard os c \<longleftrightarrow> cl_negotiated_heartbeat c = 0 \<or> (\<forall>w. fst (os_now os w) - cl_last_inbound_at c \<le> dead_interval c)"

lemma io_finish_quiet:
  assumes "cl_closing c" and "heard os c"
  shows "cl_callbacks (fst (io_finish os r (c, w))) = cl_callbacks c"
proof -
  have "\<not> (0 < cl_negotiated_heartbeat c \<and> dead_interval c < fst (os_now os w) - cl_last_inbound_at c)"
    using assms(2) by (auto simp: heard_def word_neq_0_conv not_less)
  then show ?thesis
    using assms(1)
    by (auto simp: io_finish_def io_handle_def Let_def case_prod_unfold section_defs split: sum.split)
qed

lemma io_exit_fields [simp]:
  "cl_callbacks (io_exit c) = cl_callbacks c" "cl_sock (io_exit c) = cl_sock c" "cl_cfg (io_exit c) = cl_cfg c"
  "cl_stop_io (io_exit c) = cl_stop_io c" "\<not> cl_io_thread (io_exit c)" "cl_dispatcher (io_exit c) = cl_dispatcher c"
  by (simp_all add: io_exit_def Let_def)

lemma join_stopped:
  assumes "cl_stop_io c"
  shows "\<exists>c' w'. env_join (scheduled os sched) (c, w) = Some (c', w') \<and> cl_sock c' = cl_sock c \<and>
    cl_cfg c' = cl_cfg c \<and> (now_keeps os v \<longrightarrow> v w' = v w) \<and>
    (cl_closing c \<and> (sched = io_only \<or> heard os c) \<longrightarrow> cl_callbacks c' = cl_callbacks c)"
proof -
  have "\<exists>c1 w1. join_io os sched (c, w) = Some (c1, w1) \<and> cl_stop_io c1 \<and> cl_sock c1 = cl_sock c \<and>
      cl_cfg c1 = cl_cfg c \<and> (now_keeps os v \<longrightarrow> v w1 = v w) \<and>
      (cl_closing c \<and> (sched = io_only \<or> heard os c) \<longrightarrow> cl_callbacks c1 = cl_callbacks c)"
  proof (cases "cl_io_thread c")
    case False
    with assms show ?thesis by (simp add: join_io_def)
  next
    case io: True
    show ?thesis
    proof (cases "sc_blocked sched (c, w)")
      case None
      with assms io show ?thesis by (simp add: join_io_def io_loop_stopped)
    next
      case (Some r)
      obtain c1 w1 where 1: "io_finish os r (c, w) = (c1, w1)" by fastforce
      have "cl_stop_io c1" "cl_sock c1 = cl_sock c" "cl_cfg c1 = cl_cfg c"
        using io_finish_fields [of os r c w] assms 1 by simp_all
      moreover have "now_keeps os v \<longrightarrow> v w1 = v w"
        using io_finish_world [of os r c w] 1 by (auto simp: now_keeps_def)
      moreover have "sched \<noteq> io_only" using Some by (auto simp: io_only_def)
      with 1 have "cl_closing c \<and> (sched = io_only \<or> heard os c) \<longrightarrow> cl_callbacks c1 = cl_callbacks c"
        using io_finish_quiet [of c os r w] by auto
      ultimately show ?thesis using io Some 1 by (simp add: join_io_def io_loop_stopped Let_def)
    qed
  qed
  then show ?thesis
    by (fastforce simp: scheduled_def join_heartbeat_def heartbeat_loop_stopped)
qed

section \<open>Checks that send nothing\<close>

text \<open>Within the heartbeat interval of the last outbound frame the checks only read the clock.\<close>

lemma heartbeat_turns_quiet:
  assumes "n = 0 \<or> \<not> cl_heartbeat_thread c \<or>
      (\<forall>w. fst (os_now os w) - cl_last_outbound_at c < seconds (uint (cl_negotiated_heartbeat c)))"
    and "\<not> cl_stop_io c"
  shows "\<exists>w'. (heartbeat_turn os ^^ n) (c, w) = (c, w') \<and> (now_keeps os out \<longrightarrow> out w' = out w) \<and>
    (now_keeps os inp \<longrightarrow> inp w' = inp w)"
  using assms(1)
proof (induction n arbitrary: w)
  case (Suc n)
  have "\<not> cl_heartbeat_thread c \<or> heartbeat_tick os (c, w) = Some (c, snd (os_now os w))"
  proof (cases "cl_heartbeat_thread c")
    case True
    then have "fst (os_now os w) - cl_last_outbound_at c < seconds (uint (cl_negotiated_heartbeat c))"
      using Suc.prems by blast
    with assms(2) show ?thesis by (simp add: heartbeat_tick_def Let_def case_prod_unfold)
  qed simp
  then have "heartbeat_turn os (c, w) \<in> {(c, w), (c, snd (os_now os w))}" by (auto simp: heartbeat_turn_def)
  then obtain w1 where "heartbeat_turn os (c, w) = (c, w1)" "w1 = w \<or> w1 = snd (os_now os w)" by blast
  moreover from this(2) have "now_keeps os out \<longrightarrow> out w1 = out w" "now_keeps os inp \<longrightarrow> inp w1 = inp w"
    by (auto simp: now_keeps_def)
  ultimately show ?case using Suc.IH [of w1] Suc.prems by (auto simp del: funpow.simps simp: funpow_Suc_right)
qed simp

section \<open>Descriptors\<close>

text \<open>What no system call of the threads changes is the same after a wait.\<close>

lemma heartbeat_turn_keeps:
  assumes "now_keeps os v" and "\<And>fd. send_keeps os fd v"
  shows "v (snd (heartbeat_turn os st)) = v (snd st) \<and> cl_sock (fst (heartbeat_turn os st)) = cl_sock (fst st) \<and>
    cl_cfg (fst (heartbeat_turn os st)) = cl_cfg (fst st)"
proof (cases "heartbeat_tick os st")
  case None
  then show ?thesis by (simp add: heartbeat_turn_def)
next
  case (Some st')
  have "v w' = v w" if "write_all os sk data w = Some (r, w')" for sk data w r w'
    using write_all_keeps [OF that] assms(2) by blast
  with Some assms(1) show ?thesis
    by (auto simp: heartbeat_turn_def heartbeat_tick_def Let_def case_prod_unfold now_keeps_def
        split: if_splits option.splits) 
qed

lemma io_turn_keeps:
  assumes "now_keeps os v" and "\<And>fd. recv_keeps os fd v"
  shows "v (snd (io_turn os st)) = v (snd st) \<and> cl_sock (fst (io_turn os st)) = cl_sock (fst st) \<and>
    cl_cfg (fst (io_turn os st)) = cl_cfg (fst st)"
proof (cases "read_frame os (cl_sock (fst st)) (snd st)")
  case None
  then show ?thesis by (simp add: io_turn_def)
next
  case (Some res)
  obtain r w where rw: "res = (r, w)" by fastforce
  have "v w = v (snd st)" using read_frame_keeps [OF Some [unfolded rw]] assms(2) by blast
  moreover have "v (snd (io_finish os r (fst st, w))) = v w"
    using io_finish_world [of os r "fst st" w] assms(1) by (auto simp: now_keeps_def)
  ultimately show ?thesis using Some rw io_finish_fields [of os r "fst st" w] by (simp add: io_turn_def)
qed

lemma scheduled_wait_keeps:
  assumes "now_keeps os v" and "\<And>fd. send_keeps os fd v" and "\<And>fd. recv_keeps os fd v"
    and "env_wait_for (scheduled os sched) p t (c, w) = (b, (c2, w2))"
  shows "v w2 = v w" "cl_sock c2 = cl_sock c" "cl_cfg c2 = cl_cfg c"
proof -
  have "v (snd ((heartbeat_turn os ^^ n) st)) = v (snd st) \<and>
      cl_sock (fst ((heartbeat_turn os ^^ n) st)) = cl_sock (fst st) \<and>
      cl_cfg (fst ((heartbeat_turn os ^^ n) st)) = cl_cfg (fst st)" for n st
    by (induction n) (simp_all add: heartbeat_turn_keeps [OF assms(1,2)])
  moreover have "(c2, w2) = io_turn os ((heartbeat_turn os ^^ sc_checks sched (c, w)) (c, w))"
    using assms(4) by (simp add: scheduled_def Let_def)
  ultimately show "v w2 = v w" "cl_sock c2 = cl_sock c" "cl_cfg c2 = cl_cfg c"
    using io_turn_keeps [OF assms(1,3), of "(heartbeat_turn os ^^ sc_checks sched (c, w)) (c, w)"]
    by (metis fst_conv snd_conv)+
qed

text \<open>\<open>close\<close> gives the descriptor of the connection back.\<close>

lemma scheduled_close_fds:
  assumes "client_close os (scheduled os sched) (c, w) = Some (r, (c', w'))" and "cl_state c = Open"
    and "\<And>fd w. fds (os_close os fd w) = fds w - {fd}" and "calls_keep_fds os (cl_cfg c) fds" and "0 \<le> sock_fd (cl_sock c)"
  shows "fds w' = fds w - {sock_fd (cl_sock c)}"
  using assms(1,2)
proof (cases rule: client_close_cases)
  case (1 now w0 wr w1 b c2 w2 sk w3 c3 w4 c5 w5)
  have keeps: "now_keeps os fds" "\<And>fd. send_keeps os fd fds" "\<And>fd. recv_keeps os fd fds"
    using assms(4) by (simp_all add: calls_keep_fds_def now_keeps_def)
  have w1: "fds w1 = fds w"
    using 1(2) write_all_keeps [of os "cl_sock c" _ w0 wr w1 fds] keeps(2) now_keepsD [OF keeps(1) 1(1)]
    by (auto split: if_splits)
  note wait = scheduled_wait_keeps [OF keeps 1(3)]
  have "sock_fd (cl_sock c2) = sock_fd (cl_sock c)" "cl_cfg c2 = cl_cfg c"
    using wait(2,3) by (simp_all add: registered_def section_defs)
  with 1(4) assms(3,5) wait(1) w1 have w3: "fds w3 = fds w - {sock_fd (cl_sock c)}"
    by (auto simp: socket_close_def kInvalidFd_def split: if_splits)
  let ?c = "c2\<lparr>cl_stop_io := True, cl_sock := sk\<rparr>"
  have "fds w4 = fds w3 \<and> cl_cfg c3 = cl_cfg c2"
    using 1(5) join_stopped [of ?c os sched w3 fds] keeps(1) by (auto split: if_splits)
  moreover have "c5 = client_fail_all connection_closed c3" "w5 = w4" using 1(6) by simp_all
  ultimately show ?thesis
    using w3 \<open>cl_cfg c2 = cl_cfg c\<close> 1(9) assms(4)
    by (simp add: calls_keep_fds_def log_keeps_def client_fail_all_def)
qed

end
