(* ===== verification/Session.thy ===== *)
theory Session
  imports Schedule
begin

text \<open>
  A client whose threads are scheduled (\<open>Schedule\<close>), on a connection that delivers: every request is
  answered with the next frame of the server, whatever the schedule, as long as no heartbeat is due. This
  is the progress that the safety properties of \<open>Client\<close> leave open.
\<close>

section \<open>Requests are answered\<close>

text \<open>The clock stays within a window of length \<open>d\<close> while the client runs.\<close>

definition clock_within :: "'w os \<Rightarrow> int \<Rightarrow> int \<Rightarrow> bool" where
  "clock_within os start d \<longleftrightarrow> (\<forall>w. start \<le> fst (os_now os w) \<and> fst (os_now os w) < start + d)"

lemma clock_withinD: "clock_within os start d \<Longrightarrow> fst (os_now os w) < fst (os_now os w') + d"
  unfolding clock_within_def by (metis add.commute add_le_cancel_left order_less_le_trans)

text \<open>A connection on which nothing fails, seen from the client.\<close>

definition connection :: "'w os \<Rightarrow> socket \<Rightarrow> ('w \<Rightarrow> bytes) \<Rightarrow> ('w \<Rightarrow> bytes) \<Rightarrow> ('w \<Rightarrow> nat) \<Rightarrow> bool" where
  "connection os s out inp budget \<longleftrightarrow>
     tcp_stream os (sock_fd s) out inp \<and> healthy os s inp budget \<and> now_keeps os out \<and> now_keeps os inp"

definition ready :: "'w client \<Rightarrow> bool" where
  "ready c \<longleftrightarrow> client_ok c \<and> cids_below c \<and> cl_state c = Open \<and> cl_io_thread c \<and> cl_writer c \<and>
     \<not> cl_stop_io c"

text \<open>What a request leaves as it is.\<close>

definition same_session :: "'w client \<Rightarrow> 'w client \<Rightarrow> bool" where
  "same_session c c' \<longleftrightarrow>
     cl_cfg c' = cl_cfg c \<and> cl_sock c' = cl_sock c \<and> cl_negotiated_frame_max c' = cl_negotiated_frame_max c \<and>
     cl_callbacks c' = cl_callbacks c \<and> cl_state c' = cl_state c \<and> cl_io_thread c' = cl_io_thread c \<and>
     cl_writer c' = cl_writer c \<and> cl_stop_io c' = cl_stop_io c \<and> cl_closing c' = cl_closing c \<and>
     cl_heartbeat_thread c' = cl_heartbeat_thread c \<and> cl_negotiated_heartbeat c' = cl_negotiated_heartbeat c"

lemma cids_below_shrink:
  assumes "cids_below c" and "fst ` set (ds_pending (cl_dispatcher c')) \<subseteq> fst ` set (ds_pending (cl_dispatcher c))"
    and "cl_next_app_cid c' = cl_next_app_cid c"
  shows "cids_below c'"
  unfolding cids_below_def assms(3)
proof
  fix cid
  assume "cid \<in> fst ` set (ds_pending (cl_dispatcher c'))"
  then have "cid \<in> fst ` set (ds_pending (cl_dispatcher c))" by (rule subsetD [OF assms(2)])
  with assms(1) show "cid < cl_next_app_cid c" unfolding cids_below_def by (rule bspec)
qed

lemma dispatch_pending_subset: "set (ds_pending (snd (dispatch frame d))) \<subseteq> set (ds_pending d)"
proof (cases "entry_for frame d")
  case None
  then show ?thesis by (simp add: dispatch_not_found)
next
  case (Some ce)
  then show ?thesis by (cases ce) (auto simp: dispatch_found AList.delete_eq)
qed

lemma io_handle_frame:
  assumes "io_handle os env (Ok f) (c, w) = (go_on, (c', w'))"
  shows "same_session c c'" "cids_below c \<Longrightarrow> cids_below c'" "cl_next_app_cid c' = cl_next_app_cid c"
    "now_keeps os v \<Longrightarrow> v w' = v w"
proof -
  from assms have c': "c' = client_dispatch f (client_reap (fst (os_now os (snd (os_now os w))))
      (c\<lparr>cl_last_inbound_at := fst (os_now os w)\<rparr>))"
    and w': "w' = snd (os_now os (snd (os_now os w)))"
    by (auto simp: io_handle_def Let_def case_prod_unfold)
  show "same_session c c'" "cl_next_app_cid c' = cl_next_app_cid c"
    by (simp_all add: c' same_session_def section_defs)
  show "cids_below c \<Longrightarrow> cids_below c'"
  proof (rule cids_below_shrink)
    show "fst ` set (ds_pending (cl_dispatcher c')) \<subseteq> fst ` set (ds_pending (cl_dispatcher c))"
      using dispatch_pending_subset unfolding c'
      by (fastforce simp: section_defs reap_expired_pending)
  qed (simp_all add: c' section_defs)
  show "now_keeps os v \<Longrightarrow> v w' = v w" by (simp add: w' now_keeps_def)
qed

lemma begin_request_session:
  assumes "begin_request os key version body (c, w) = Some (Ok p, (c1, w1))"
    and "cids_below c" and "cl_next_app_cid c \<noteq> -1"
  shows "same_session c c1 \<and> cids_below c1 \<and> cl_next_app_cid c1 = cl_next_app_cid c + 1"
  using assms(1)
proof (cases rule: begin_request_cases)
  case (written now w1' t w2' wr)
  have "cids_below (registered now c)" by (rule registered_cids_below [OF assms(2,3)])
  then have "cids_below c1" unfolding written(5) by (rule cids_below_shrink) simp_all
  then show ?thesis unfolding written(5) by (simp add: same_session_def registered_def section_defs)
qed simp_all

text \<open>No heartbeat is due while a request waits: nobody checks, there is no interval, or it is long enough.\<close>

definition undisturbed :: "'w schedule \<Rightarrow> 'w client \<Rightarrow> bool" where
  "undisturbed sched c \<longleftrightarrow> (\<forall>st. sc_checks sched st = 0) \<or> \<not> cl_heartbeat_thread c \<or>
     ms (cfg_request_timeout (cl_cfg c)) \<le> seconds (uint (cl_negotiated_heartbeat c))"

lemma undisturbed_checks:
  assumes "undisturbed sched c" and "clock_within os start (ms (cfg_request_timeout (cl_cfg c)))"
    and "start \<le> cl_last_outbound_at c"
  shows "sc_checks sched st = 0 \<or> \<not> cl_heartbeat_thread c \<or>
    (\<forall>w. fst (os_now os w) - cl_last_outbound_at c < seconds (uint (cl_negotiated_heartbeat c)))"
proof -
  have "fst (os_now os w) - cl_last_outbound_at c < ms (cfg_request_timeout (cl_cfg c))" for w
    using assms(2) [unfolded clock_within_def, rule_format, of w] assms(3) by linarith
  with assms(1) show ?thesis unfolding undisturbed_def by (meson order_less_le_trans)
qed

lemma begin_request_outbound:
  assumes "begin_request os key version body (c, w) = Some (Ok p, (c1, w1))" and "clock_within os start d"
  shows "start \<le> cl_last_outbound_at c1" "cl_last_inbound_at c1 = cl_last_inbound_at c"
proof -
  from assms(1) have "start \<le> cl_last_outbound_at c1 \<and> cl_last_inbound_at c1 = cl_last_inbound_at c"
  proof (cases rule: begin_request_cases)
    case (written now w2 t w3 wr)
    have "start \<le> t" using assms(2) written(2) unfolding clock_within_def by (metis fst_conv)
    then show ?thesis by (simp add: written(5) registered_def section_defs)
  qed simp
  then show "start \<le> cl_last_outbound_at c1" "cl_last_inbound_at c1 = cl_last_inbound_at c" by simp_all
qed

lemma io_turn_frame:
  assumes "cl_io_thread c" and "\<not> cl_stop_io c" and "read_frame os (cl_sock c) w = Some (Ok f, w1)"
    and "io_handle os env (Ok f) (c, w1) = (go_on, (c', w'))"
  shows "io_turn os (c, w) = (c', w')"
  using assms by (auto simp: io_turn_def io_finish_def io_handle_def Let_def case_prod_unfold)

lemma request_served:
  assumes conn: "connection os (cl_sock c) out inp budget"
    and clock: "clock_within os start (ms (cfg_request_timeout (cl_cfg c)))"
    and sched: "undisturbed sched c"
    and c: "ready c" "cl_next_app_cid c \<noteq> -1"
    and fits: "cl_negotiated_frame_max c = 0 \<or> 8 + length body \<le> unat (cl_negotiated_frame_max c)"
    and f: "valid_frame f" "is_response (fr_key f)" "fr_cid f = Some (cl_next_app_cid c)"
    and inp: "inp w = enc_frame f @ t"
  shows "\<exists>c' w'. send_and_wait os (scheduled os sched) key version body (c, w) = Some (Ok f, (c', w')) \<and>
    out w' = out w @ encode_request_frame key version (cl_next_app_cid c) body \<and> inp w' = t \<and>
    ready c' \<and> same_session c c' \<and> cl_next_app_cid c' = cl_next_app_cid c + 1 \<and>
    start \<le> cl_last_outbound_at c' \<and> start \<le> cl_last_inbound_at c'"
proof -
  have os: "tcp_stream os (sock_fd (cl_sock c)) out inp" "interrupts_bounded os (sock_fd (cl_sock c)) budget"
    "recv_delivers os (sock_fd (cl_sock c)) inp" "send_accepts os (sock_fd (cl_sock c))"
    "now_keeps os out" "now_keeps os inp" "recv_takes os (sock_fd (cl_sock c)) inp"
    using conn by (simp_all add: connection_def healthy_def tcp_stream_def)
  have c_ok: "client_ok c" "cids_below c" "cl_io_thread c" using c(1) by (simp_all add: ready_def)
  let ?p = "length (ds_shared (cl_dispatcher c))"
  obtain c1 w1 where b: "begin_request os key version body (c, w) = Some (Ok ?p, (c1, w1))"
    using begin_request_succeeds [OF os(2,4) fits] by blast
  from begin_request_ok [OF b os(1,5,6) c_ok(2)]
  have sent: "out w1 = out w @ encode_request_frame key version (cl_next_app_cid c) body" "inp w1 = enc_frame f @ t"
    using inp by (simp_all add: exchanged_def)
  from begin_request_session [OF b c_ok(2) c(2)]
  have c1: "same_session c c1" "cids_below c1" "cl_next_app_cid c1 = cl_next_app_cid c + 1" by simp_all
  then have sock: "cl_sock c1 = cl_sock c" "cl_io_thread c1" "cl_cfg c1 = cl_cfg c" "\<not> cl_stop_io c1"
    "undisturbed sched c1"
    using c(1) sched by (simp_all add: same_session_def ready_def undisturbed_def)
  note outbound = begin_request_outbound [OF b clock]
  let ?n = "sc_checks sched (c1, w1)"
  obtain w1' where beats: "(heartbeat_turn os ^^ ?n) (c1, w1) = (c1, w1')" "out w1' = out w1" "inp w1' = inp w1"
    using heartbeat_turns_quiet [OF undisturbed_checks [OF sock(5) clock [folded sock(3)] outbound(1)] sock(4)] os(5,6)
    by blast
  obtain w2 where rd: "read_frame os (cl_sock c1) w1' = Some (Ok f, w2)" "inp w2 = t"
    using read_frame_delivers [OF os(2,7,3) f(1)] sent(2) beats(3) sock(1) by metis
  have out2: "out w2 = out w1" using tcp_read_frame(1) [OF rd(1)] os(1) sock(1) beats(2) by metis
  obtain go_on c2 w3 where h: "io_handle os alone (Ok f) (c1, w2) = (go_on, (c2, w3))" by (metis prod.exhaust)
  note res = request_resolved [OF b c_ok f(2,3) h clock_withinD [OF clock]]
  note h' = io_handle_frame [OF h]
  have "io_turn os (c1, w1') = (c2, w3)" by (rule io_turn_frame [OF sock(2,4) rd(1) h])
  then have "env_wait_for (scheduled os sched) ?p (cfg_request_timeout (cl_cfg c1)) (c1, w1) = (True, (c2, w3))"
    using res beats(1) by (simp add: scheduled_def)
  then have "await_response (scheduled os sched) ?p (c1, w1) = Some (Ok f, (c2, w3))"
    using res by (intro await_response_answered [of c2]) simp_all
  then have "send_and_wait os (scheduled os sched) key version body (c, w) = Some (Ok f, (c2, w3))"
    by (rule send_and_wait_eq [OF b])
  moreover have "out w3 = out w2" "inp w3 = inp w2" using h'(4) os(5,6) by blast+
  moreover have "same_session c c2" using c1(1) h'(1) by (simp add: same_session_def)
  moreover have "ready c2" using res h'(2) c1(2) c(1) \<open>same_session c c2\<close>
    by (simp add: ready_def same_session_def)
  moreover have "cl_last_outbound_at c2 = cl_last_outbound_at c1" "start \<le> cl_last_inbound_at c2"
    using h clock by (auto simp: io_handle_def Let_def case_prod_unfold section_defs clock_within_def)
  ultimately show ?thesis using sent(1) out2 rd(2) c1(3) h'(3) outbound(1) by auto
qed

section \<open>Pending requests\<close>

definition answers :: "u32 \<Rightarrow> incoming_frame \<Rightarrow> bool" where
  "answers cid f \<longleftrightarrow> is_response (fr_key f) \<and> fr_cid f = Some cid"

text \<open>Request \<open>cid\<close> is pending with future \<open>p\<close> and will not expire.\<close>

definition awaits :: "'w os \<Rightarrow> 'w client \<Rightarrow> u32 \<Rightarrow> nat \<Rightarrow> bool" where
  "awaits os c cid p \<longleftrightarrow>
     (\<exists>deadline. map_of (ds_pending (cl_dispatcher c)) cid = Some \<lparr>pe_promise = p, pe_deadline = deadline\<rparr> \<and>
        (\<forall>w. fst (os_now os w) < deadline))"

definition resolved :: "'w client \<Rightarrow> nat \<Rightarrow> incoming_frame \<Rightarrow> bool" where
  "resolved c p f \<longleftrightarrow>
     p < length (ds_shared (cl_dispatcher c)) \<and> ds_shared (cl_dispatcher c) ! p = Ready (Ok f)"

lemma map_of_filter_keeps:
  "map_of xs k = Some v \<Longrightarrow> P (k, v) \<Longrightarrow> distinct (map fst xs) \<Longrightarrow> map_of (filter P xs) k = Some v"
  by (induction xs) (auto simp: map_of_eq_None_iff dest: map_of_SomeD split: if_splits)

lemma client_ok_pending: "client_ok c \<Longrightarrow> distinct (map fst (ds_pending (cl_dispatcher c)))"
  by (simp add: client_ok_def owned_ok_def)

lemma resolved_later:
  assumes "resolved c p f" and "client_steps c c'" and "client_ok c"
  shows "resolved c' p f"
  using assms(1) client_steps_ok [OF assms(2,3)] by (auto simp: resolved_def settles_once_def)

text \<open>What a turn does to a pending request: the frame answers it, or it stays pending.\<close>

lemma turn_pending:
  assumes ok: "client_ok c" and aw: "awaits os c cid p"
    and c': "c' = client_dispatch f (client_reap (fst (os_now os u)) (c\<lparr>cl_last_inbound_at := t\<rparr>))"
  shows "if answers cid f then resolved c' p f else awaits os c' cid p"
proof -
  let ?d = "snd (reap_expired (fst (os_now os u)) (cl_dispatcher c))"
  from aw obtain deadline where dl: "\<And>w. fst (os_now os w) < deadline"
    and entry: "map_of (ds_pending (cl_dispatcher c)) cid = Some \<lparr>pe_promise = p, pe_deadline = deadline\<rparr>"
    by (auto simp: awaits_def)
  have ok': "dispatcher_ok ?d" using ok by (simp add: client_ok_def reap_expired.keeps_owned)
  have kept: "map_of (ds_pending ?d) cid = Some \<lparr>pe_promise = p, pe_deadline = deadline\<rparr>"
    unfolding reap_expired_pending using entry dl client_ok_pending [OF ok] by (intro map_of_filter_keeps) simp_all
  have d': "cl_dispatcher c' = snd (dispatch f ?d)" by (simp add: c' section_defs)
  show ?thesis
  proof (cases "answers cid f")
    case True
    with kept have e: "entry_for f ?d = Some (cid, \<lparr>pe_promise = p, pe_deadline = deadline\<rparr>)"
      by (simp add: entry_for_def answers_def)
    have "p \<in> unsettled ?d" using owned_pendingD [OF ok'] map_of_SomeD [OF kept] by fastforce
    then have "p < length (ds_shared (snd (dispatch f ?d)))"
      by (simp add: dispatch_found [OF e] unsettled_def)
    with dispatch_resolves(1) [OF ok' e] True show ?thesis by (simp add: resolved_def d')
  next
    case False
    have "map_of (ds_pending (snd (dispatch f ?d))) cid = map_of (ds_pending ?d) cid"
    proof (cases "entry_for f ?d")
      case None
      then show ?thesis by (simp add: dispatch_not_found)
    next
      case (Some ce)
      with False have "fst ce \<noteq> cid"
        by (auto simp: entry_for_def answers_def split: if_splits option.splits)
      with Some show ?thesis by (cases ce) (simp add: dispatch_found delete_conv')
    qed
    with kept dl False show ?thesis by (auto simp: awaits_def d')
  qed
qed

section \<open>A session on a working connection\<close>

text \<open>An open client on the connection, with traffic in both directions since \<open>start\<close>.\<close>

definition open_at :: "socket \<Rightarrow> 'w ConnectionConfig \<Rightarrow> int \<Rightarrow> u32 \<Rightarrow> 'w client \<Rightarrow> bool" where
  "open_at s cfg start hb c \<longleftrightarrow> ready c \<and> cl_sock c = s \<and> cl_cfg c = cfg \<and> cl_negotiated_heartbeat c = hb \<and>
     cl_heartbeat_thread c = (0 < hb) \<and> start \<le> cl_last_outbound_at c \<and> start \<le> cl_last_inbound_at c"

text \<open>
  A point of a session: the client is open on socket \<open>s\<close>, no callback was started, \<open>cid\<close> is the next
  correlation id, \<open>sent\<close> are the bytes sent so far and \<open>rest\<close> those still to come from the server. Traffic
  in both directions was seen since \<open>start\<close>.
\<close>

definition active :: "('w \<Rightarrow> bytes) \<Rightarrow> ('w \<Rightarrow> bytes) \<Rightarrow> socket \<Rightarrow> 'w ConnectionConfig \<Rightarrow> int \<Rightarrow> u32 \<Rightarrow> u32 \<Rightarrow>
    u32 \<Rightarrow> bytes \<Rightarrow> bytes \<Rightarrow> 'w st \<Rightarrow> bool" where
  "active out inp s cfg start hb frame_max cid sent rest st \<longleftrightarrow>
     open_at s cfg start hb (fst st) \<and>
     cl_negotiated_frame_max (fst st) = frame_max \<and> cl_callbacks (fst st) = [] \<and>
     cl_next_app_cid (fst st) = cid \<and> out (snd st) = sent \<and> inp (snd st) = rest"

definition response_frame :: "u16 \<Rightarrow> u32 \<Rightarrow> bytes \<Rightarrow> incoming_frame" where
  "response_frame key cid body = \<lparr>fr_key = key, fr_version = 1, fr_body = body, fr_cid = Some cid\<rparr>"

lemma response_frame_valid:
  "is_response key \<Longrightarrow> length body < 4294967288 \<Longrightarrow> valid_frame (response_frame key cid body)"
  by (simp add: response_frame_def valid_frame_def frame_size_def enc_cid_def)

lemma active_open: "active out inp s cfg start hb fm cid sent rest st \<Longrightarrow> cl_state (fst st) = Open"
  by (simp add: active_def open_at_def ready_def)

text \<open>What a session relies on: a connection that works and a server that is in time.\<close>

locale answering_session =
  fixes os :: "'w os" and s :: socket and cfg :: "'w ConnectionConfig"
    and out inp :: "'w \<Rightarrow> bytes" and budget :: "'w \<Rightarrow> nat" and start :: int
  assumes conn: "connection os s out inp budget"
    and clock: "clock_within os start (ms (cfg_request_timeout cfg))"
begin

text \<open>After reading the clock, \<open>write_all\<close> puts exactly its data on the connection.\<close>

lemma sends:
  assumes "os_now os w = (t, w1)"
  shows "\<exists>w2. write_all os s data w1 = Some (Ok (), w2) \<and> out w2 = out w @ data \<and> inp w2 = inp w"
proof -
  have os: "tcp_stream os (sock_fd s) out inp" "interrupts_bounded os (sock_fd s) budget"
    "send_accepts os (sock_fd s)" "now_keeps os out" "now_keeps os inp"
    using conn by (simp_all add: connection_def healthy_def)
  obtain w2 where wr: "write_all os s data w1 = Some (Ok (), w2)"
    unfolding write_all_def using write_all_loop_succeeds [OF os(2,3)] by blast
  with tcp_write [OF wr os(1)] now_keepsD [OF os(4) assms] now_keepsD [OF os(5) assms] show ?thesis by simp
qed

text \<open>A turn of the I/O thread takes the next frame of the server and leaves the rest of the session.\<close>

lemma turn:
  assumes "cl_io_thread c" and "\<not> cl_stop_io c" and "cl_sock c = s" and "inp w = enc_frame f @ rest" and "valid_frame f"
  shows "\<exists>c' w'. io_turn os (c, w) = (c', w') \<and> same_session c c' \<and> out w' = out w \<and> inp w' = rest \<and>
    (\<exists>t u. start \<le> t \<and> c' = client_dispatch f (client_reap (fst (os_now os u)) (c\<lparr>cl_last_inbound_at := t\<rparr>)))"
proof -
  have os: "tcp_stream os (sock_fd s) out inp" "interrupts_bounded os (sock_fd s) budget"
    "recv_takes os (sock_fd s) inp" "recv_delivers os (sock_fd s) inp" "now_keeps os out" "now_keeps os inp"
    using conn by (simp_all add: connection_def healthy_def tcp_stream_def)
  obtain w1 where rd: "read_frame os s w = Some (Ok f, w1)" "inp w1 = rest"
    using read_frame_delivers [OF os(2-4) assms(5,4)] by blast
  obtain go_on c' w' where h: "io_handle os alone (Ok f) (c, w1) = (go_on, (c', w'))" by (metis prod.exhaust)
  have "same_session c c'" "out w' = out w1" "inp w' = inp w1" using io_handle_frame [OF h] os(5,6) by blast+
  moreover have "out w1 = out w" by (rule tcp_read_frame(1) [OF rd(1) os(1)])
  moreover have "start \<le> fst (os_now os w1)" using clock by (simp add: clock_within_def)
  moreover have "c' = client_dispatch f (client_reap (fst (os_now os (snd (os_now os w1))))
      (c\<lparr>cl_last_inbound_at := fst (os_now os w1)\<rparr>))"
    using h by (auto simp: io_handle_def Let_def case_prod_unfold)
  moreover have "io_turn os (c, w) = (c', w')"
    by (rule io_turn_frame [OF assms(1,2) _ h]) (use rd(1) assms(3) in simp)
  ultimately show ?thesis using rd(2) by (intro exI [of _ c'] exI [of _ w'] conjI) (simp, blast, simp, simp, blast)
qed

end

text \<open>
  The threads follow a schedule. Unless only the I/O thread runs, the heartbeat interval is 0 (there is no
  heartbeat thread) or at least as long as the time in which the server answers.
\<close>

locale scheduled_session = answering_session os s cfg out inp budget start
  for os :: "'w os" and s :: socket and cfg :: "'w ConnectionConfig"
    and out inp :: "'w \<Rightarrow> bytes" and budget :: "'w \<Rightarrow> nat" and start :: int +
  fixes sched :: "'w schedule" and hb :: u32
  assumes calm: "sched = io_only \<or> hb = 0 \<or> ms (cfg_request_timeout cfg) \<le> seconds (uint hb)"
begin

abbreviation at :: "u32 \<Rightarrow> u32 \<Rightarrow> bytes \<Rightarrow> bytes \<Rightarrow> 'w st \<Rightarrow> bool" where
  "at \<equiv> active out inp s cfg start hb"

lemma undisturbed_at: "at fm cid sent rest st \<Longrightarrow> undisturbed sched (fst st)"
  using calm by (auto simp: active_def open_at_def undisturbed_def io_only_def)

lemma request:
  assumes "at fm cid sent (enc_frame (response_frame rkey cid rbody) @ rest) (c, w)" and "cid \<noteq> -1"
    and "fm = 0 \<or> 8 + length body \<le> unat fm" and "is_response rkey" and "length rbody < 4294967288"
  shows "\<exists>st'. send_and_wait os (scheduled os sched) key version body (c, w) = Some (Ok (response_frame rkey cid rbody), st') \<and>
    at fm (cid + 1) (sent @ encode_request_frame key version cid body) rest st'"
proof -
  let ?f = "response_frame rkey cid rbody"
  have c: "connection os (cl_sock c) out inp budget" "clock_within os start (ms (cfg_request_timeout (cl_cfg c)))"
    "ready c" "cl_next_app_cid c \<noteq> -1" "inp w = enc_frame ?f @ rest"
    "cl_negotiated_frame_max c = 0 \<or> 8 + length body \<le> unat (cl_negotiated_frame_max c)"
    using assms(1-3) conn clock by (simp_all add: active_def open_at_def)
  have f: "valid_frame ?f" "is_response (fr_key ?f)" "fr_cid ?f = Some (cl_next_app_cid c)"
    using response_frame_valid [OF assms(4,5)] assms(1,4) by (simp_all add: response_frame_def active_def open_at_def)
  from request_served [OF c(1,2) _ c(3,4,6) f c(5), of sched] undisturbed_at [OF assms(1)] assms(1) show ?thesis
    by (fastforce simp: active_def open_at_def same_session_def)
qed

lemma create:
  assumes "at fm cid sent (enc_frame (response_frame CreateResponse_kKey cid
      (enc_CreateResponse \<lparr>crr_response_code = rc\<rparr>)) @ rest) st" and "cid \<noteq> -1"
    and "fm = 0 \<or> 8 + length (enc_CreateRequest \<lparr>crq_stream = stream, crq_arguments = args\<rparr>) \<le> unat fm"
    and "rc = rc_Ok \<or> rc = rc_StreamAlreadyExists \<and> idempotent"
  shows "\<exists>st'. create_stream os (scheduled os sched) stream args idempotent st = Some (Ok (), st') \<and>
    at fm (cid + 1) (sent @ encode_request_frame CreateRequest_kKey kVersion cid
      (enc_CreateRequest \<lparr>crq_stream = stream, crq_arguments = args\<rparr>)) rest st'"
proof -
  obtain c w where st: "st = (c, w)" by (cases st)
  from request [OF assms(1) [unfolded st] assms(2,3) crr.response_key]
  obtain st' where 1: "send_and_wait os (scheduled os sched) CreateRequest_kKey kVersion
      (enc_CreateRequest \<lparr>crq_stream = stream, crq_arguments = args\<rparr>) (c, w) =
      Some (Ok (response_frame CreateResponse_kKey cid (enc_CreateResponse \<lparr>crr_response_code = rc\<rparr>)), st')"
    "at fm (cid + 1) (sent @ encode_request_frame CreateRequest_kKey kVersion cid
      (enc_CreateRequest \<lparr>crq_stream = stream, crq_arguments = args\<rparr>)) rest st'"
    by (fastforce simp: enc_CreateResponse_def)
  from create_stream_result [OF _ 1(1)] active_open [OF assms(1)] 1(2) assms(4) show ?thesis
    by (auto simp: st response_frame_def wire_consts)
qed

lemma delete:
  assumes "at fm cid sent (enc_frame (response_frame DeleteResponse_kKey cid
      (enc_DeleteResponse \<lparr>dlr_response_code = rc\<rparr>)) @ rest) st" and "cid \<noteq> -1"
    and "fm = 0 \<or> 8 + length (enc_DeleteRequest \<lparr>dlq_stream = stream\<rparr>) \<le> unat fm"
    and "rc = rc_Ok \<or> rc = rc_StreamDoesNotExist \<and> idempotent"
  shows "\<exists>st'. delete_stream os (scheduled os sched) stream idempotent st = Some (Ok (), st') \<and>
    at fm (cid + 1) (sent @ encode_request_frame DeleteRequest_kKey kVersion cid
      (enc_DeleteRequest \<lparr>dlq_stream = stream\<rparr>)) rest st'"
proof -
  obtain c w where st: "st = (c, w)" by (cases st)
  from request [OF assms(1) [unfolded st] assms(2,3) dlr.response_key]
  obtain st' where 1: "send_and_wait os (scheduled os sched) DeleteRequest_kKey kVersion
      (enc_DeleteRequest \<lparr>dlq_stream = stream\<rparr>) (c, w) =
      Some (Ok (response_frame DeleteResponse_kKey cid (enc_DeleteResponse \<lparr>dlr_response_code = rc\<rparr>)), st')"
    "at fm (cid + 1) (sent @ encode_request_frame DeleteRequest_kKey kVersion cid
      (enc_DeleteRequest \<lparr>dlq_stream = stream\<rparr>)) rest st'"
    by (fastforce simp: enc_DeleteResponse_def)
  from delete_stream_result [OF _ 1(1)] active_open [OF assms(1)] 1(2) assms(4) show ?thesis
    by (auto simp: st response_frame_def wire_consts)
qed

lemma offset:
  assumes "at fm cid sent (enc_frame (response_frame QueryOffsetResponse_kKey cid
      (enc_QueryOffsetResponse \<lparr>qor_response_code = rc, qor_offset = offset\<rparr>)) @ rest) st" and "cid \<noteq> -1"
    and "fm = 0 \<or> 8 + length (enc_QueryOffsetRequest \<lparr>qoq_reference = ref, qoq_stream = stream\<rparr>) \<le> unat fm"
  shows "\<exists>r st'. query_offset os (scheduled os sched) ref stream st = Some (r, st') \<and>
    (rc = rc_Ok \<longrightarrow> r = Ok (Some offset)) \<and> (rc = rc_NoOffset \<longrightarrow> r = Ok None) \<and>
    at fm (cid + 1) (sent @ encode_request_frame QueryOffsetRequest_kKey kVersion cid
      (enc_QueryOffsetRequest \<lparr>qoq_reference = ref, qoq_stream = stream\<rparr>)) rest st'"
proof -
  obtain c w where st: "st = (c, w)" by (cases st)
  from request [OF assms(1) [unfolded st] assms(2,3) qor.response_key]
  obtain st' where 1: "send_and_wait os (scheduled os sched) QueryOffsetRequest_kKey kVersion
      (enc_QueryOffsetRequest \<lparr>qoq_reference = ref, qoq_stream = stream\<rparr>) (c, w) =
      Some (Ok (response_frame QueryOffsetResponse_kKey cid
        (enc_QueryOffsetResponse \<lparr>qor_response_code = rc, qor_offset = offset\<rparr>)), st')"
    "at fm (cid + 1) (sent @ encode_request_frame QueryOffsetRequest_kKey kVersion cid
      (enc_QueryOffsetRequest \<lparr>qoq_reference = ref, qoq_stream = stream\<rparr>)) rest st'"
    by (fastforce simp: enc_QueryOffsetResponse_def)
  from query_offset_result [OF _ 1(1)] active_open [OF assms(1)] 1(2) show ?thesis
    by (simp add: st response_frame_def wire_consts)
qed

lemma sequence:
  assumes "at fm cid sent (enc_frame (response_frame QueryPublisherResponse_kKey cid
      (enc_QueryPublisherResponse \<lparr>qpr_response_code = rc, qpr_sequence = seq\<rparr>)) @ rest) st" and "cid \<noteq> -1"
    and "fm = 0 \<or> 8 + length (enc_QueryPublisherRequest \<lparr>qpq_publisher_reference = ref, qpq_stream = stream\<rparr>) \<le> unat fm"
    and "length ref \<le> 256"
  shows "\<exists>r st'. query_publisher_sequence os (scheduled os sched) ref stream st = Some (r, st') \<and>
    (rc = rc_Ok \<longrightarrow> r = Ok seq) \<and>
    at fm (cid + 1) (sent @ encode_request_frame QueryPublisherRequest_kKey kVersion cid
      (enc_QueryPublisherRequest \<lparr>qpq_publisher_reference = ref, qpq_stream = stream\<rparr>)) rest st'"
proof -
  obtain c w where st: "st = (c, w)" by (cases st)
  from request [OF assms(1) [unfolded st] assms(2,3) qpr.response_key]
  obtain st' where 1: "send_and_wait os (scheduled os sched) QueryPublisherRequest_kKey kVersion
      (enc_QueryPublisherRequest \<lparr>qpq_publisher_reference = ref, qpq_stream = stream\<rparr>) (c, w) =
      Some (Ok (response_frame QueryPublisherResponse_kKey cid
        (enc_QueryPublisherResponse \<lparr>qpr_response_code = rc, qpr_sequence = seq\<rparr>)), st')"
    "at fm (cid + 1) (sent @ encode_request_frame QueryPublisherRequest_kKey kVersion cid
      (enc_QueryPublisherRequest \<lparr>qpq_publisher_reference = ref, qpq_stream = stream\<rparr>)) rest st'"
    by (fastforce simp: enc_QueryPublisherResponse_def)
  from query_publisher_sequence_result [OF _ assms(4) 1(1)] active_open [OF assms(1)] 1(2) show ?thesis
    by (simp add: st response_frame_def wire_consts)
qed

lemma store:
  assumes "at fm cid sent rest st" and "length ref \<le> 256"
  shows "\<exists>st'. store_offset os ref stream offset st = Some (Ok (), st') \<and>
    at fm cid (sent @ encode_oneway_frame StoreOffset_kKey kVersion
      (enc_StoreOffset \<lparr>so_reference = ref, so_stream = stream, so_offset = offset\<rparr>)) rest st'"
proof -
  obtain c w where st: "st = (c, w)" by (cases st)
  let ?frame = "encode_oneway_frame StoreOffset_kKey kVersion
      (enc_StoreOffset \<lparr>so_reference = ref, so_stream = stream, so_offset = offset\<rparr>)"
  obtain t w1 where now: "os_now os w = (t, w1)" by fastforce
  obtain w2 where "write_all os s ?frame w1 = Some (Ok (), w2)" "out w2 = out w @ ?frame" "inp w2 = inp w"
    using sends [OF now] by blast
  moreover have "check_reference ref = Ok ()" using assms(2) by (simp add: check_reference_def)
  moreover have "start \<le> t" using clock now unfolding clock_within_def by (metis fst_conv)
  ultimately show ?thesis
    using now assms(1)
    by (auto simp: st store_offset_def require_open_def active_def open_at_def ready_def so.body_eq client_ok_def cids_below_def
        io_bind_def io_lift_def Let_def)
qed

end

text \<open>To close it, the log sink and \<open>close\<close> must leave the connection alone.\<close>

locale served_session = scheduled_session +
  assumes log: "log_keeps cfg out" "log_keeps cfg inp"
    and close: "out (os_close os fd w) = out w"
begin

lemma heard_in_session:
  assumes "cl_negotiated_heartbeat c = hb" and "start \<le> cl_last_inbound_at c"
  shows "sched = io_only \<or> heard os c"
proof (cases "sched = io_only \<or> hb = 0")
  case True
  with assms(1) show ?thesis by (auto simp: heard_def)
next
  case False
  then have d: "ms (cfg_request_timeout cfg) \<le> seconds (uint hb)" "0 < hb" using calm by (auto simp: word_neq_0_conv)
  have "fst (os_now os w) - cl_last_inbound_at c \<le> dead_interval c" for w
  proof -
    have "fst (os_now os w) < start + ms (cfg_request_timeout cfg)" using clock by (simp add: clock_within_def)
    moreover have "dead_interval c = 2 * seconds (uint hb)" "0 \<le> seconds (uint hb)"
      using assms(1) d(2) by (simp_all add: dead_interval_def seconds_def)
    ultimately show ?thesis using assms(2) d(1) by linarith
  qed
  then show ?thesis by (simp add: heard_def)
qed

text \<open>The wait of \<open>close\<close>: the response reaches the future of the request.\<close>

lemma close_wait:
  assumes c: "open_at s cfg start hb c" and now: "os_now os w = (now, w0)" and f: "inp w1 = enc_frame f @ rest" "valid_frame f"
      "answers (cl_next_app_cid c) f"
    and wait: "env_wait_for (scheduled os sched) p t (registered now (begin_closing c), w1) = (b, (c2, w2))"
  shows "client_steps c c2 \<and> same_session (registered now (begin_closing c)) c2 \<and> out w2 = out w1 \<and>
    start \<le> cl_last_inbound_at c2 \<and> resolved c2 (length (ds_shared (cl_dispatcher c))) f"
proof -
  let ?c1 = "registered now (begin_closing c)"
  have os: "now_keeps os out" "now_keeps os inp" using conn by (simp_all add: connection_def)
  have ok: "client_ok c" "cids_below (begin_closing c)" "cl_state c = Open"
    using c by (simp_all add: open_at_def ready_def cids_below_def begin_closing_def)
  have c1: "cl_io_thread ?c1" "\<not> cl_stop_io ?c1" "cl_sock ?c1 = s" "undisturbed sched ?c1"
    "clock_within os start (ms (cfg_request_timeout (cl_cfg ?c1)))" "start \<le> cl_last_outbound_at ?c1"
    using c calm clock by (auto simp: open_at_def ready_def registered_def section_defs undisturbed_def io_only_def)
  have steps1: "client_steps c ?c1"
    using client_step.closing [OF ok(3)] registered_steps by (rule converse_rtranclp_into_rtranclp)
  then have ok1: "client_ok ?c1" using client_steps_ok ok(1) by blast
  have "fst (os_now os u) < now + ms (cfg_request_timeout cfg)" for u
    using clock_withinD [OF clock, of u w] now by simp
  then have aw: "awaits os ?c1 (cl_next_app_cid c) (length (ds_shared (cl_dispatcher c)))"
    using registered_fresh(1) [OF ok(2), of now] c by (simp add: awaits_def begin_closing_def open_at_def)
  obtain w1' where beats: "(heartbeat_turn os ^^ sc_checks sched (?c1, w1)) (?c1, w1) = (?c1, w1')"
    "out w1' = out w1" "inp w1' = inp w1"
    using heartbeat_turns_quiet [OF undisturbed_checks [OF c1(4-6)] c1(2)] os by blast
  obtain c2' w2' t u where turn: "io_turn os (?c1, w1') = (c2', w2')" "same_session ?c1 c2'" "out w2' = out w1'"
    "start \<le> t" "c2' = client_dispatch f (client_reap (fst (os_now os u)) (?c1\<lparr>cl_last_inbound_at := t\<rparr>))"
    using turn [OF c1(1-3), of w1' f rest] beats(3) f(1,2) by auto
  have eq: "c2' = c2" "w2' = w2" using wait beats(1) turn(1) by (simp_all add: scheduled_def)
  have "client_steps ?c1 c2" using io_turn_steps [of ?c1 os w1'] turn(1) eq by simp
  with steps1 have "client_steps c c2" by (rule rtranclp_trans)
  moreover have "resolved c2 (length (ds_shared (cl_dispatcher c))) f"
    using turn_pending [OF ok1 aw turn(5)] f(3) eq by simp
  ultimately show ?thesis using turn(2-5) beats(2) eq by (simp add: section_defs)
qed

text \<open>The end of \<open>close\<close>: the threads are told to stop and joined, the rest of the requests gets an error.\<close>

lemma close_join:
  assumes c: "client_ok c2" "2 \<le> state_rank (cl_state c2)" "cl_closing c2" "cl_negotiated_heartbeat c2 = hb"
      "start \<le> cl_last_inbound_at c2" "cl_cfg c2 = cfg" and res: "resolved c2 p f"
    and join: "env_join (scheduled os sched) (c2\<lparr>cl_stop_io := True, cl_sock := new_socket\<rparr>, w3) = Some (c3, w4)"
  shows "cl_callbacks c3 = cl_callbacks c2 \<and> cl_stop_io c3 \<and> \<not> cl_io_thread c3 \<and> \<not> cl_heartbeat_thread c3 \<and>
    cl_sock c3 = new_socket \<and> cl_cfg c3 = cfg \<and> out w4 = out w3 \<and> client_ok c3 \<and>
    ds_shared (fail_all_pending connection_closed (cl_dispatcher c3)) ! p = Ready (Ok f)"
proof -
  let ?c = "c2\<lparr>cl_stop_io := True, cl_sock := new_socket\<rparr>"
  have "client_step c2 (c2\<lparr>cl_stop_io := True\<rparr>)" "client_step (c2\<lparr>cl_stop_io := True\<rparr>) ?c"
    by (rule client_step.stop, rule client_step.set_socket) simp
  then have 2: "client_steps c2 ?c" by (meson converse_rtranclp_into_rtranclp rtranclp.rtrancl_refl)
  have "sched = io_only \<or> heard os ?c" by (rule heard_in_session) (use c(4,5) in simp_all)
  with join_stopped [of ?c os sched w3 out] join c(3,6) conn
  have fields: "cl_sock c3 = new_socket" "cl_cfg c3 = cfg" "out w4 = out w3" "cl_callbacks c3 = cl_callbacks c2"
    by (auto simp: connection_def)
  note joined = env_join_steps [OF scheduled_ok join]
  then have 3: "client_steps c2 c3" using 2 by (meson rtranclp_trans)
  have ok3: "client_ok c3" using client_steps_ok [OF 3 c(1)] by blast
  have "resolved c3 p f" by (rule resolved_later [OF res 3 c(1)])
  then have "ds_shared (fail_all_pending connection_closed (cl_dispatcher c3)) ! p = Ready (Ok f)"
    using fail_all_pending.settles [of "[]" "cl_dispatcher c3" connection_closed] ok3
    by (simp add: resolved_def settles_once_def client_ok_def)
  moreover have "cl_stop_io c3" using client_steps_flags(2) [of ?c c3] joined c(2) by simp
  ultimately show ?thesis using fields joined ok3 by blast
qed

lemma close_session:
  assumes c: "open_at s cfg start hb c" and f: "inp w = enc_frame f @ rest" "valid_frame f" "answers (cl_next_app_cid c) f"
  shows "\<exists>c' w'. client_close os (scheduled os sched) (c, w) = Some (Ok (), (c', w')) \<and> cl_state c' = Closed \<and>
    cl_callbacks c' = cl_callbacks c \<and> cl_stop_io c' \<and> \<not> cl_io_thread c' \<and> \<not> cl_heartbeat_thread c' \<and>
    cl_sock c' = new_socket \<and> ds_pending (cl_dispatcher c') = [] \<and> unsettled (cl_dispatcher c') = {} \<and>
    settles_once (cl_dispatcher c) (cl_dispatcher c') \<and>
    ds_shared (cl_dispatcher c') ! length (ds_shared (cl_dispatcher c)) = Ready (Ok f) \<and>
    out w' = out w @ close_frame (cl_next_app_cid c)"
proof -
  let ?env = "scheduled os sched"
  have ok: "client_ok c" "cl_state c = Open" "cl_writer c" "cl_io_thread c" "cl_sock c = s"
    using c by (simp_all add: open_at_def ready_def)
  have "env_join ?env st \<noteq> None" if "cl_stop_io (fst st)" for st
    using join_stopped [OF that, of os sched "snd st" out] by auto
  then obtain r c' w' where run: "client_close os ?env (c, w) = Some (r, (c', w'))"
    using client_close_returns [of os c budget ?env w] conn ok(5) by (fastforce simp: connection_def healthy_def)
  from run ok(2) show ?thesis
  proof (cases rule: client_close_cases)
    case (1 now w0 wr w1 b c2 w2 sk w3 c3 w4 c5 w5)
    let ?c1 = "registered now (begin_closing c)"
    have w1: "out w1 = out w @ close_frame (cl_next_app_cid c)" "inp w1 = enc_frame f @ rest"
      using sends [OF 1(1), of "close_frame (cl_next_app_cid c)"] 1(2) ok(3,5) f(1) by auto
    note wait = close_wait [OF c 1(1) w1(2) f(2,3) 1(3)]
    then have c2: "client_ok c2" "2 \<le> state_rank (cl_state c2)" "cl_closing c2" "cl_negotiated_heartbeat c2 = hb"
      "cl_cfg c2 = cfg" "cl_io_thread c2" "cl_callbacks c2 = cl_callbacks c"
      using c client_steps_ok [OF conjunct1 [OF wait] ok(1)]
      by (auto simp: same_session_def registered_def section_defs open_at_def ready_def)
    have sk: "sk = new_socket" by (rule socket_close_new [OF 1(4)])
    have "env_join ?env (c2\<lparr>cl_stop_io := True, cl_sock := new_socket\<rparr>, w3) = Some (c3, w4)"
      using 1(5) c2(6) sk by simp
    note join = close_join [OF c2(1-4) _ c2(5) _ this, of "length (ds_shared (cl_dispatcher c))" f]
    have c': "c' = set_state Closed (client_fail_all connection_closed c3)"
      "w' = cfg_log cfg Info ''connection closed'' w4"
      using 1(6,8,9) join wait by (auto simp: client_fail_all_def)
    have "settles_once (cl_dispatcher c) (cl_dispatcher c')"
      using client_steps_ok [OF stepwiseD [OF stepwise_close [OF scheduled_ok] run] ok(1)] by blast
    moreover have "out w' = out w @ close_frame (cl_next_app_cid c)"
      using log(1) close join wait 1(4) w1(1) by (auto simp: c' log_keeps_def socket_close_def split: if_splits)
    ultimately show ?thesis
      using run 1(7) join wait c2(7) fail_all_unsettled [of "cl_dispatcher c3" connection_closed]
      by (auto simp: c' set_state_def client_fail_all_def client_ok_def)
  qed
qed

end

section \<open>Connecting to a server that accepts\<close>

text \<open>
  Name resolution finds an address, the connection to it is made (at once or after \<open>poll\<close>) on the
  descriptor of \<open>s\<close>, and none of these calls changes what \<open>v\<close> observes.
\<close>

definition accepts_connections :: "'w os \<Rightarrow> socket \<Rightarrow> ('w \<Rightarrow> 'v) \<Rightarrow> bool" where
  "accepts_connections os s v \<longleftrightarrow> 0 \<le> sock_fd s \<and>
     (\<forall>host port w. fst (fst (os_getaddrinfo os host port w)) = 0 \<and> snd (fst (os_getaddrinfo os host port w)) \<noteq> [] \<and>
        v (snd (os_getaddrinfo os host port w)) = v w) \<and>
     (\<forall>f t p w. fst (os_socket os f t p w) = sock_fd s \<and> v (snd (os_socket os f t p w)) = v w) \<and>
     (\<forall>fd w. 0 \<le> fst (os_fcntl_getfl os fd w) \<and> v (snd (os_fcntl_getfl os fd w)) = v w) \<and>
     (\<forall>fd fl w. 0 \<le> fst (os_fcntl_setfl os fd fl w) \<and> v (snd (os_fcntl_setfl os fd fl w)) = v w) \<and>
     (\<forall>fd a w. (fst (fst (os_connect os fd a w)) = 0 \<or> snd (fst (os_connect os fd a w)) = EINPROGRESS) \<and>
        v (snd (os_connect os fd a w)) = v w) \<and>
     (\<forall>fd t w. 0 < fst (os_poll_out os fd t w) \<and> v (snd (os_poll_out os fd t w)) = v w) \<and>
     (\<forall>fd w. 0 \<le> fst (fst (os_getsockopt_error os fd w)) \<and> snd (fst (os_getsockopt_error os fd w)) = 0 \<and>
        v (snd (os_getsockopt_error os fd w)) = v w) \<and>
     (\<forall>fd sec us w. v (snd (os_setsockopt_rcvtimeo os fd sec us w)) = v w)"

lemma connect_with_timeout_accepted:
  assumes "accepts_connections os s v"
  shows "\<exists>w'. connect_with_timeout os host port timeout (default_resolve_host os) w = (Ok s, w') \<and> v w' = v w"
proof -
  have calls: "fst (os_socket os f t p w) = sock_fd s" "\<not> sock_fd s < 0" "\<not> fst (os_fcntl_getfl os fd w) < 0"
    "\<not> fst (os_fcntl_setfl os fd fl w) < 0" "\<not> fst (os_poll_out os fd tm w) \<le> 0"
    "\<not> fst (fst (os_getsockopt_error os fd w)) < 0" "snd (fst (os_getsockopt_error os fd w)) = 0" for f t p w fd fl tm
    using assms by (simp_all add: accepts_connections_def not_less not_le)
  have keeps: "v (snd (os_socket os f t p w)) = v w" "v (snd (os_fcntl_getfl os fd w)) = v w"
    "v (snd (os_fcntl_setfl os fd fl w)) = v w" "v (snd (os_connect os fd a w)) = v w"
    "v (snd (os_poll_out os fd tm w)) = v w" "v (snd (os_getsockopt_error os fd w)) = v w" for f t p w fd fl tm a
    using assms by (simp_all add: accepts_connections_def)
  have made: "fst (fst (os_connect os fd a w)) \<noteq> 0 \<Longrightarrow> snd (fst (os_connect os fd a w)) = EINPROGRESS" for fd a w
    using assms unfolding accepts_connections_def by blast
  have "\<exists>w'. connect_loop os host port timeout addrs w1 = (Ok s, w') \<and> v w' = v w1" if "addrs \<noteq> []" for addrs w1
    using that by (cases addrs) (simp_all add: Let_def case_prod_unfold calls keeps made)
  moreover obtain addrs w1 where "default_resolve_host os host port w = (Ok addrs, w1)" "addrs \<noteq> []" "v w1 = v w"
    using assms by (simp add: accepts_connections_def default_resolve_host_def Let_def case_prod_unfold)
  ultimately show ?thesis by (fastforce simp: connect_with_timeout_def)
qed

lemma apply_recv_timeout_quiet: "accepts_connections os s v \<Longrightarrow> v (apply_recv_timeout os hb sock w) = v w"
  by (simp add: apply_recv_timeout_def set_recv_timeout_def Let_def case_prod_unfold accepts_connections_def)

locale reachable_session = served_session +
  assumes reach: "accepts_connections os s (\<lambda>w. (out w, inp w))"
begin

lemma quiet:
  "out (apply_recv_timeout os n sock w) = out w" "inp (apply_recv_timeout os n sock w) = inp w"
  using apply_recv_timeout_quiet [OF reach, of n sock w] by simp_all

text \<open>The TCP connection and the handshake on it.\<close>

lemma handshake_reached:
  assumes "script_result cfg sv = Some hr" and "inp w = script_bytes sv @ rest"
  obtains w1 w2 where
    "connect_with_timeout os (cfg_host cfg) (cfg_port cfg) (cfg_connect_timeout cfg) (default_resolve_host os)
       (connecting_to cfg w) = (Ok s, w1)"
    "run_handshake os s cfg (apply_recv_timeout os (cfg_requested_heartbeat_seconds cfg) s w1) = Some (Ok hr, w2)"
    "out w2 = out w @ handshake_bytes cfg (length (sv_challenges sv)) hr" "inp w2 = rest"
proof -
  let ?w = "connecting_to cfg w"
  have hyps: "session os s cfg out inp" "healthy os s inp budget"
    using conn log by (simp_all add: connection_def session_def)
  have w: "out ?w = out w" "inp ?w = inp w" using log by (simp_all add: connecting_to_def log_keeps_def)
  obtain w1 where tcp: "connect_with_timeout os (cfg_host cfg) (cfg_port cfg) (cfg_connect_timeout cfg)
      (default_resolve_host os) ?w = (Ok s, w1)" and w1: "out w1 = out w" "inp w1 = inp w"
    using connect_with_timeout_accepted [OF reach] w by (metis prod.inject)
  let ?w2 = "apply_recv_timeout os (cfg_requested_heartbeat_seconds cfg) s w1"
  have "inp ?w2 = script_bytes sv @ rest" using quiet w1 assms(2) by simp
  from runsE [OF run_handshake_complete [OF hyps assms(1)] this]
  obtain w3 where hs: "run_handshake os s cfg ?w2 = Some (Ok hr, w3)"
    and ex: "exchanged out inp ?w2 w3 (handshake_bytes cfg (length (sv_challenges sv)) hr) (script_bytes sv)"
    by blast
  have "out w3 = out w @ handshake_bytes cfg (length (sv_challenges sv)) hr" "inp w3 = rest"
    using ex quiet w1 assms(2) by (simp_all add: exchanged_def)
  with that [OF tcp hs] show thesis .
qed

lemma connect_opens:
  assumes "script_result cfg sv = Some hr" and "validate cfg = Ok ()" and "inp w = script_bytes sv @ rest"
    and "cl_state c = Disconnected" and "cl_sock c = new_socket" and "cl_cfg c = cfg" and "client_ok c"
    and "cids_below c" and "hr_negotiated_heartbeat hr = hb"
  shows "\<exists>st'. connect os (c, w) = Some (Ok (), st') \<and> server_properties (fst st') = hr_server_properties hr \<and>
    at (hr_negotiated_frame_max hr) (cl_next_app_cid c)
      (out w @ handshake_bytes cfg (length (sv_challenges sv)) hr) rest st'"
proof -
  have now: "now_keeps os out" "now_keeps os inp" using conn by (simp_all add: connection_def)
  obtain w1 w3 where tcp: "connect_with_timeout os (cfg_host cfg) (cfg_port cfg) (cfg_connect_timeout cfg)
      (default_resolve_host os) (connecting_to cfg w) = (Ok s, w1)"
    and hs: "run_handshake os s cfg (apply_recv_timeout os (cfg_requested_heartbeat_seconds cfg) s w1) = Some (Ok hr, w3)"
    and w3: "out w3 = out w @ handshake_bytes cfg (length (sv_challenges sv)) hr" "inp w3 = rest"
    by (rule handshake_reached [OF assms(1,3)])
  obtain t1 w5 where t1: "os_now os (apply_recv_timeout os (hr_negotiated_heartbeat hr) s w3) = (t1, w5)" by fastforce
  obtain t2 w6 where t2: "os_now os w5 = (t2, w6)" by fastforce
  let ?c = "become_open t1 t2 (store_handshake hr ((set_state Connecting c)\<lparr>cl_sock := s, cl_writer := True, cl_reader := True\<rparr>))"
  have fd: "\<lparr>sock_fd = sock_fd s\<rparr> = s" by simp
  have "\<exists>msg. connect os (c, w) = Some (Ok (), (?c, cfg_log cfg Info msg w6))"
    using tcp hs t1 t2 assms(2,4-6)
    by (simp add: connect_def connect_session_def socket_move_assign_def socket_close_def socket_release_def
        new_socket_def set_state_def store_handshake_def case_prod_unfold Let_def fd) (rule exI, rule refl)
  then obtain msg where run: "connect os (c, w) = Some (Ok (), (?c, cfg_log cfg Info msg w6))" ..
  have "client_ok ?c" using client_steps_ok [OF stepwiseD [OF stepwise_connect run] assms(7)] by blast
  moreover have "cids_below ?c" using assms(8) by (simp add: cids_below_def section_defs)
  moreover have "cl_callbacks c = []" using assms(4,7) by (simp add: client_ok_def)
  moreover have "out (cfg_log cfg Info msg w6) = out w3" "inp (cfg_log cfg Info msg w6) = inp w3"
    using log quiet now_keepsD [OF now(1) t1] now_keepsD [OF now(2) t1] now_keepsD [OF now(1) t2]
      now_keepsD [OF now(2) t2] by (simp_all add: log_keeps_def)
  moreover have "start \<le> t1" "start \<le> t2" using clock t1 t2 unfolding clock_within_def by (metis fst_conv)+
  ultimately have "at (hr_negotiated_frame_max hr) (cl_next_app_cid c)
      (out w @ handshake_bytes cfg (length (sv_challenges sv)) hr) rest (?c, cfg_log cfg Info msg w6)"
    using w3 assms(6,9) by (simp add: active_def open_at_def ready_def section_defs)
  with run show ?thesis by (fastforce simp: server_properties_def section_defs)
qed

end

end
