(* ===== verification/Getting_Started.thy ===== *)
theory Getting_Started
  imports Session
begin

text \<open>
  \<open>docs/examples/getting_started/getting_started.cpp\<close>: the example program, one definition per numbered
  section of its \<open>main\<close>. The standard streams are functions on the world, as the system calls are. A
  section either goes on or ends the program; \<open>return\<close> from \<open>main\<close> destroys the client, \<open>exit\<close> does not.

  The lemmas run the program against a server that answers in order; they compose the laws of
  \<open>reachable_session\<close> along \<open>main\<close>.
\<close>

section \<open>Programs\<close>

record 'w stdio =
  std_cout :: "string \<Rightarrow> 'w \<Rightarrow> 'w"
  std_cerr :: "string \<Rightarrow> 'w \<Rightarrow> 'w"

datatype finish = Returned int | Exited int

type_synonym ('w, 'a) prog = "'w st \<Rightarrow> ((finish + 'a) \<times> 'w st) option"

definition prog_bind :: "('w, 'a) prog \<Rightarrow> ('a \<Rightarrow> ('w, 'b) prog) \<Rightarrow> ('w, 'b) prog" where
  "prog_bind m f st =
     (case m st of
        None \<Rightarrow> None
      | Some (Inl fin, st') \<Rightarrow> Some (Inl fin, st')
      | Some (Inr x, st') \<Rightarrow> f x st')"

definition prog_then :: "('w, unit) prog \<Rightarrow> ('w, 'b) prog \<Rightarrow> ('w, 'b) prog" where
  "prog_then m m' = prog_bind m (\<lambda>_. m')"

definition prog_end :: "finish \<Rightarrow> ('w, 'a) prog" where
  "prog_end fin st = Some (Inl fin, st)"

text \<open>A call of a member function of the client; its result is a value of the program.\<close>

definition prog_call :: "('w st, 'a) io \<Rightarrow> ('w, 'a result) prog" where
  "prog_call m st = (case m st of None \<Rightarrow> None | Some (r, st') \<Rightarrow> Some (Inr r, st'))"

definition prog_write :: "(string \<Rightarrow> 'w \<Rightarrow> 'w) \<Rightarrow> string \<Rightarrow> ('w, unit) prog" where
  "prog_write stream text = (\<lambda>(c, w). Some (Inr (), (c, stream text w)))"

abbreviation newline :: string where
  "newline \<equiv> [char_of (10 :: nat)]"

section \<open>Helpers\<close>

definition must :: "'w stdio \<Rightarrow> unit result \<Rightarrow> string \<Rightarrow> ('w, unit) prog" where
  "must io r ctxt =
     (case r of
        Inl e \<Rightarrow> prog_then (prog_write (std_cerr io) (''[ERROR] '' @ ctxt @ '': '' @ message e @ newline))
                   (prog_end (Exited 1))
      | Inr _ \<Rightarrow> (\<lambda>st. Some (Inr (), st)))"

definition make_logger :: "'w stdio \<Rightarrow> 'w LogSink" where
  "make_logger io lvl msg =
     (let tag = (if lvl = Error then ''ERROR'' else if lvl = Warn then ''WARN '' else if lvl = Info then ''INFO ''
                 else ''DEBUG'')
      in std_cout io (''['' @ tag @ ''] '' @ msg @ newline))"

section \<open>main\<close>

definition example_config :: "'w stdio \<Rightarrow> 'w ConnectionConfig" where
  "example_config io = default_config
     \<lparr>cfg_host := ''localhost'', cfg_port := 5552, cfg_virtual_host := ''/'', cfg_username := ''guest'',
      cfg_password := ''guest'', cfg_connection_name := ''getting-started-example'',
      cfg_requested_heartbeat_seconds := 60, cfg_requested_frame_max_bytes := 1048576,
      cfg_connect_timeout := 10000, cfg_request_timeout := 10000, cfg_log := make_logger io\<rparr>"

text \<open>The handler is the callback number 0; what it does when a detached thread calls it.\<close>

definition connection_lost :: "'w stdio \<Rightarrow> UnexpectedClose \<Rightarrow> 'w \<Rightarrow> 'w" where
  "connection_lost io evt =
     std_cerr io (''[WARN ] connection lost unexpectedly: '' @ uc_message evt @ '' (during_handshake='' @
       decimal_digits (of_bool (uc_during_handshake evt)) @ '')'' @ newline)"

definition example_client :: "'w stdio \<Rightarrow> 'w client" where
  "example_client io = on_unexpected_close (Some 0) (StreamClient (example_config io))"

text \<open>The loop over \<open>server_properties\<close>.\<close>

fun print_properties :: "'w stdio \<Rightarrow> key_value list \<Rightarrow> ('w, unit) prog" where
  "print_properties io [] st = Some (Inr (), st)"
| "print_properties io ((k, v) # kvs) st =
     (if k = ''version'' \<or> k = ''cluster_name'' then
        prog_then (prog_write (std_cout io) (''  server.'' @ k @ '' = '' @ v @ newline)) (print_properties io kvs) st
      else print_properties io kvs st)"

definition connect_section :: "'w os \<Rightarrow> 'w stdio \<Rightarrow> ('w, unit) prog" where
  "connect_section os io =
     (let cfg = example_config io in
      prog_then (prog_write (std_cout io) (''Connecting to '' @ cfg_host cfg @ '':'' @ decimal_digits (unat (cfg_port cfg)) @
        '' vhost='' @ cfg_virtual_host cfg @ '' ...'' @ newline))
      (prog_bind (prog_call (connect os)) (\<lambda>r.
      case r of
        Inl e \<Rightarrow> prog_then (prog_write (std_cerr io) (''[ERROR] connect failed: '' @ message e @ newline))
                   (prog_end (Returned 1))
      | Inr _ \<Rightarrow>
          prog_then (prog_write (std_cout io) (''Connected. State = Open'' @ newline))
            (\<lambda>st. print_properties io (server_properties (fst st)) st))))"

abbreviation stream_name :: string where
  "stream_name \<equiv> ''gs.getting-started''"

abbreviation consumer_ref :: string where
  "consumer_ref \<equiv> ''example-consumer''"

abbreviation publisher_ref :: string where
  "publisher_ref \<equiv> ''example-publisher''"

definition create_section :: "'w os \<Rightarrow> 'w stdio \<Rightarrow> 'w env \<Rightarrow> ('w, unit) prog" where
  "create_section os io env =
     prog_then (prog_write (std_cout io) (newline @ ''Creating stream \"'' @ stream_name @ ''\" ...'' @ newline))
     (prog_bind (prog_call (create_stream os env stream_name
        [(''max-length-bytes'', ''500000000''), (''max-age'', ''1h'')] True)) (\<lambda>r.
     prog_then (must io r ''create_stream'')
       (prog_write (std_cout io) (''Stream created (or already existed).'' @ newline))))"

definition store_section :: "'w os \<Rightarrow> 'w stdio \<Rightarrow> ('w, unit) prog" where
  "store_section os io =
     (let stored_offset = 42 :: u64 in
      prog_then (prog_write (std_cout io) (newline @ ''Storing offset '' @ decimal_digits (unat stored_offset) @
        '' for reference \"'' @ consumer_ref @ ''\" ...'' @ newline))
      (prog_bind (prog_call (store_offset os consumer_ref stream_name stored_offset)) (\<lambda>r.
      prog_then (must io r ''store_offset'') (prog_write (std_cout io) (''Offset stored.'' @ newline)))))"

definition query_offset_section :: "'w os \<Rightarrow> 'w stdio \<Rightarrow> 'w env \<Rightarrow> ('w, unit) prog" where
  "query_offset_section os io env =
     prog_then (prog_write (std_cout io) (newline @ ''Querying offset for reference \"'' @ consumer_ref @ ''\" ...'' @ newline))
     (prog_bind (prog_call (query_offset os env consumer_ref stream_name)) (\<lambda>off_r.
     case off_r of
       Inl e \<Rightarrow> prog_write (std_cerr io) (''[ERROR] query_offset: '' @ message e @ newline)
     | Inr None \<Rightarrow> prog_write (std_cout io) (''No offset stored yet for this reference.'' @ newline)
     | Inr (Some offset) \<Rightarrow>
         prog_write (std_cout io) (''Stored offset = '' @ decimal_digits (unat offset) @ newline)))"

definition query_publisher_section :: "'w os \<Rightarrow> 'w stdio \<Rightarrow> 'w env \<Rightarrow> ('w, unit) prog" where
  "query_publisher_section os io env =
     prog_then (prog_write (std_cout io)
       (newline @ ''Querying publisher sequence for \"'' @ publisher_ref @ ''\" ...'' @ newline))
     (prog_bind (prog_call (query_publisher_sequence os env publisher_ref stream_name)) (\<lambda>seq_r.
     case seq_r of
       Inl e \<Rightarrow> prog_write (std_cerr io) (''[ERROR] query_publisher_sequence: '' @ message e @ newline)
     | Inr seq \<Rightarrow> prog_write (std_cout io) (''Publisher sequence = '' @ decimal_digits (unat seq) @
         '' (0 means never published)'' @ newline)))"

definition delete_section :: "'w os \<Rightarrow> 'w stdio \<Rightarrow> 'w env \<Rightarrow> ('w, unit) prog" where
  "delete_section os io env =
     prog_then (prog_write (std_cout io) (newline @ ''Deleting stream \"'' @ stream_name @ ''\" ...'' @ newline))
     (prog_bind (prog_call (delete_stream os env stream_name True)) (\<lambda>r.
     prog_then (must io r ''delete_stream'') (prog_write (std_cout io) (''Stream deleted.'' @ newline))))"

definition close_section :: "'w os \<Rightarrow> 'w stdio \<Rightarrow> 'w env \<Rightarrow> ('w, unit) prog" where
  "close_section os io env =
     prog_then (prog_write (std_cout io) (newline @ ''Closing connection ...'' @ newline))
     (prog_bind (prog_call (client_close os env)) (\<lambda>r.
     prog_then (must io r ''close'') (prog_write (std_cout io) (''Done.'' @ newline))))"

definition main_sections :: "'w os \<Rightarrow> 'w stdio \<Rightarrow> 'w env \<Rightarrow> ('w, unit) prog" where
  "main_sections os io env =
     prog_then (connect_section os io)
     (prog_then (create_section os io env)
     (prog_then (store_section os io)
     (prog_then (query_offset_section os io env)
     (prog_then (query_publisher_section os io env)
     (prog_then (delete_section os io env)
     (prog_then (close_section os io env) (prog_end (Returned 0))))))))"

text \<open>The exit status, and the client and the world at the end.\<close>

definition main :: "'w os \<Rightarrow> 'w stdio \<Rightarrow> 'w env \<Rightarrow> 'w \<Rightarrow> (int \<times> 'w st) option" where
  "main os io env w =
     (case main_sections os io env (example_client io, w) of
        Some (Inl (Returned n), st) \<Rightarrow> (case destroy os env st of None \<Rightarrow> None | Some st' \<Rightarrow> Some (n, st'))
      | Some (Inl (Exited n), st) \<Rightarrow> Some (n, st)
      | _ \<Rightarrow> None)"

section \<open>Runs of a program\<close>

text \<open>From every state in \<open>P\<close> the program reaches a state in \<open>Q\<close>, with value \<open>x\<close>.\<close>

definition leads :: "('w st \<Rightarrow> bool) \<Rightarrow> ('w, 'a) prog \<Rightarrow> finish + 'a \<Rightarrow> ('w st \<Rightarrow> bool) \<Rightarrow> bool" where
  "leads P m x Q \<longleftrightarrow> (\<forall>st. P st \<longrightarrow> (\<exists>st'. m st = Some (x, st') \<and> Q st'))"

lemma leadsD: "leads P m x Q \<Longrightarrow> P st \<Longrightarrow> \<exists>st'. m st = Some (x, st') \<and> Q st'"
  unfolding leads_def by blast

lemma leads_then:
  assumes "leads P m (Inr ()) Q" and "leads Q m' y R"
  shows "leads P (prog_then m m') y R"
  unfolding leads_def
proof (intro allI impI)
  fix st
  assume "P st"
  from leadsD [OF assms(1) this] obtain st' where "m st = Some (Inr (), st')" "Q st'" by blast
  with leadsD [OF assms(2)] show "\<exists>st''. prog_then m m' st = Some (y, st'') \<and> R st''"
    by (simp add: prog_then_def prog_bind_def)
qed

lemma leads_call:
  assumes "\<And>st. P st \<Longrightarrow> \<exists>r st'. m st = Some (r, st') \<and> r \<in> X \<and> Q st'"
    and "\<And>r. r \<in> X \<Longrightarrow> leads Q (f r) y R"
  shows "leads P (prog_bind (prog_call m) f) y R"
  unfolding leads_def
proof (intro allI impI)
  fix st
  assume "P st"
  with assms(1) obtain r st' where "m st = Some (r, st')" "r \<in> X" "Q st'" by blast
  with leadsD [OF assms(2)] show "\<exists>st''. prog_bind (prog_call m) f st = Some (y, st'') \<and> R st''"
    by (simp add: prog_bind_def prog_call_def)
qed

lemma leads_must_section:
  assumes "leads P wr (Inr ()) P" and "\<And>st. P st \<Longrightarrow> \<exists>st'. m st = Some (Ok (), st') \<and> Q st'"
    and "leads Q wr' (Inr ()) Q"
  shows "leads P (prog_then wr (prog_bind (prog_call m) (\<lambda>r. prog_then (must io r ctxt) wr'))) (Inr ()) Q"
proof (rule leads_then [OF assms(1)], rule leads_call [where X = "{Ok ()}" and Q = Q])
  show "leads Q (prog_then (must io r ctxt) wr') (Inr ()) Q" if "r \<in> {Ok ()}" for r
    using that assms(3) by (simp add: leads_def prog_then_def prog_bind_def must_def)
qed (use assms(2) in auto)

lemma leads_end: "leads P (prog_end fin) (Inl fin) P"
  by (simp add: leads_def prog_end_def)

section \<open>The program against a server\<close>

text \<open>Writing to the terminal does not touch the connection.\<close>

definition prints_keep :: "'w stdio \<Rightarrow> ('w \<Rightarrow> 'v) \<Rightarrow> bool" where
  "prints_keep io v \<longleftrightarrow> (\<forall>text w. v (std_cout io text w) = v w \<and> v (std_cerr io text w) = v w)"

text \<open>What the program sends after the handshake, and the answers of a server to it.\<close>

definition create_request :: CreateRequest where
  "create_request = \<lparr>crq_stream = stream_name,
     crq_arguments = [(''max-length-bytes'', ''500000000''), (''max-age'', ''1h'')]\<rparr>"

definition example_requests :: bytes where
  "example_requests =
     encode_request_frame CreateRequest_kKey kVersion 100 (enc_CreateRequest create_request) @
     encode_oneway_frame StoreOffset_kKey kVersion
       (enc_StoreOffset \<lparr>so_reference = consumer_ref, so_stream = stream_name, so_offset = 42\<rparr>) @
     encode_request_frame QueryOffsetRequest_kKey kVersion 101
       (enc_QueryOffsetRequest \<lparr>qoq_reference = consumer_ref, qoq_stream = stream_name\<rparr>) @
     encode_request_frame QueryPublisherRequest_kKey kVersion 102
       (enc_QueryPublisherRequest \<lparr>qpq_publisher_reference = publisher_ref, qpq_stream = stream_name\<rparr>) @
     encode_request_frame DeleteRequest_kKey kVersion 103 (enc_DeleteRequest \<lparr>dlq_stream = stream_name\<rparr>) @
     encode_request_frame CloseRequest_kKey kVersion 104
       (enc_CloseRequest \<lparr>clq_closing_code = 0x01, clq_closing_reason = ''client requested close''\<rparr>)"

definition example_answers ::
    "CreateResponse \<Rightarrow> QueryOffsetResponse \<Rightarrow> QueryPublisherResponse \<Rightarrow> DeleteResponse \<Rightarrow> CloseResponse \<Rightarrow> bytes" where
  "example_answers a1 a2 a3 a4 a5 =
     enc_frame (response_frame CreateResponse_kKey 100 (enc_CreateResponse a1)) @
     enc_frame (response_frame QueryOffsetResponse_kKey 101 (enc_QueryOffsetResponse a2)) @
     enc_frame (response_frame QueryPublisherResponse_kKey 102 (enc_QueryPublisherResponse a3)) @
     enc_frame (response_frame DeleteResponse_kKey 103 (enc_DeleteResponse a4)) @
     enc_frame (response_frame CloseResponse_kKey 104 (enc_CloseResponse a5))"

definition closed_session :: "('w \<Rightarrow> bytes) \<Rightarrow> bytes \<Rightarrow> 'w st \<Rightarrow> bool" where
  "closed_session out sent st \<longleftrightarrow>
     cl_state (fst st) = Closed \<and> cl_callbacks (fst st) = [] \<and> \<not> cl_io_thread (fst st) \<and>
     \<not> cl_heartbeat_thread (fst st) \<and> \<not> socket_valid (cl_sock (fst st)) \<and> out (snd st) = sent"

lemma example_sizes:
  "length (enc_CreateRequest create_request) \<le> 192"
  "length (enc_QueryOffsetRequest \<lparr>qoq_reference = consumer_ref, qoq_stream = stream_name\<rparr>) \<le> 192"
  "length (enc_QueryPublisherRequest \<lparr>qpq_publisher_reference = publisher_ref, qpq_stream = stream_name\<rparr>) \<le> 192"
  "length (enc_DeleteRequest \<lparr>dlq_stream = stream_name\<rparr>) \<le> 192"
  by (simp_all add: enc_CreateRequest_def create_request_def enc_QueryOffsetRequest_def enc_QueryPublisherRequest_def
      enc_DeleteRequest_def enc_kvs_def enc_kv_def enc_string_def INT16_MAX_def)

locale example_session = reachable_session os s "example_config io" out inp budget start sched hb
  for os :: "'w os" and s :: socket and io :: "'w stdio" and out inp :: "'w \<Rightarrow> bytes"
    and budget :: "'w \<Rightarrow> nat" and start :: int and sched :: "'w schedule" and hb :: u32 +
  assumes prints: "prints_keep io (\<lambda>w. (out w, inp w))"
begin

lemma writes:
  "leads (at fm cid sent rest) (prog_write (std_cout io) text) (Inr ()) (at fm cid sent rest)"
  "leads (at fm cid sent rest) (prog_write (std_cerr io) text) (Inr ()) (at fm cid sent rest)"
  "leads (closed_session out sent) (prog_write (std_cout io) text) (Inr ()) (closed_session out sent)"
  using prints by (auto simp: leads_def prog_write_def active_def open_at_def closed_session_def prints_keep_def)

lemma properties: "leads (at fm cid sent rest) (print_properties io kvs) (Inr ()) (at fm cid sent rest)"
proof (induction kvs)
  case Nil
  then show ?case by (simp add: leads_def)
next
  case (Cons kv kvs)
  obtain k v where kv: "kv = (k, v)" by (cases kv)
  show ?case
    using leads_then [OF writes(1) Cons.IH] Cons.IH by (simp add: leads_def kv)
qed

lemma create_section:
  assumes "fm = 0 \<or> 200 \<le> unat fm" and "crr_response_code a = rc_Ok \<or> crr_response_code a = rc_StreamAlreadyExists"
  shows "leads (at fm 100 sent (enc_frame (response_frame CreateResponse_kKey 100 (enc_CreateResponse a)) @ rest))
    (create_section os io (scheduled os sched)) (Inr ())
    (at fm 101 (sent @ encode_request_frame CreateRequest_kKey kVersion 100 (enc_CreateRequest create_request)) rest)"
  unfolding create_section_def
proof (rule leads_must_section [OF writes(1) _ writes(1)])
  have a: "\<lparr>crr_response_code = crr_response_code a\<rparr> = a" by simp
  show "\<exists>st'. create_stream os (scheduled os sched) stream_name [(''max-length-bytes'', ''500000000''), (''max-age'', ''1h'')]
        True st = Some (Ok (), st') \<and>
      at fm 101 (sent @ encode_request_frame CreateRequest_kKey kVersion 100 (enc_CreateRequest create_request)) rest st'"
    if "at fm 100 sent (enc_frame (response_frame CreateResponse_kKey 100 (enc_CreateResponse a)) @ rest) st" for st
    using create [of fm 100 sent "crr_response_code a" rest st stream_name
        "[(''max-length-bytes'', ''500000000''), (''max-age'', ''1h'')]" True] that assms example_sizes(1)
    unfolding a by (auto simp: create_request_def)
qed

lemma store_section:
  "leads (at fm cid sent rest) (store_section os io) (Inr ())
    (at fm cid (sent @ encode_oneway_frame StoreOffset_kKey kVersion
       (enc_StoreOffset \<lparr>so_reference = consumer_ref, so_stream = stream_name, so_offset = 42\<rparr>)) rest)"
  unfolding store_section_def Let_def
  by (rule leads_must_section [OF writes(1) _ writes(1)]) (rule store, simp_all)

lemma query_offset_section:
  assumes "fm = 0 \<or> 200 \<le> unat fm"
  shows "leads (at fm 101 sent (enc_frame (response_frame QueryOffsetResponse_kKey 101 (enc_QueryOffsetResponse a)) @ rest))
    (query_offset_section os io (scheduled os sched)) (Inr ())
    (at fm 102 (sent @ encode_request_frame QueryOffsetRequest_kKey kVersion 101
       (enc_QueryOffsetRequest \<lparr>qoq_reference = consumer_ref, qoq_stream = stream_name\<rparr>)) rest)"
  unfolding query_offset_section_def
proof (rule leads_then [OF writes(1)], rule leads_call [where X = UNIV])
  have a: "\<lparr>qor_response_code = qor_response_code a, qor_offset = qor_offset a\<rparr> = a" by simp
  show "\<exists>r st'. query_offset os (scheduled os sched) consumer_ref stream_name st = Some (r, st') \<and> r \<in> UNIV \<and>
      at fm 102 (sent @ encode_request_frame QueryOffsetRequest_kKey kVersion 101
       (enc_QueryOffsetRequest \<lparr>qoq_reference = consumer_ref, qoq_stream = stream_name\<rparr>)) rest st'"
    if "at fm 101 sent (enc_frame (response_frame QueryOffsetResponse_kKey 101 (enc_QueryOffsetResponse a)) @ rest) st" for st
    using offset [of fm 101 sent "qor_response_code a" "qor_offset a" rest st consumer_ref stream_name] that assms
      example_sizes(2) unfolding a by auto
qed (auto intro: writes split: sum.split option.split)

lemma query_publisher_section:
  assumes "fm = 0 \<or> 200 \<le> unat fm"
  shows "leads (at fm 102 sent (enc_frame (response_frame QueryPublisherResponse_kKey 102 (enc_QueryPublisherResponse a)) @ rest))
    (query_publisher_section os io (scheduled os sched)) (Inr ())
    (at fm 103 (sent @ encode_request_frame QueryPublisherRequest_kKey kVersion 102
       (enc_QueryPublisherRequest \<lparr>qpq_publisher_reference = publisher_ref, qpq_stream = stream_name\<rparr>)) rest)"
  unfolding query_publisher_section_def
proof (rule leads_then [OF writes(1)], rule leads_call [where X = UNIV])
  have a: "\<lparr>qpr_response_code = qpr_response_code a, qpr_sequence = qpr_sequence a\<rparr> = a" by simp
  show "\<exists>r st'. query_publisher_sequence os (scheduled os sched) publisher_ref stream_name st = Some (r, st') \<and> r \<in> UNIV \<and>
      at fm 103 (sent @ encode_request_frame QueryPublisherRequest_kKey kVersion 102
       (enc_QueryPublisherRequest \<lparr>qpq_publisher_reference = publisher_ref, qpq_stream = stream_name\<rparr>)) rest st'"
    if "at fm 102 sent (enc_frame (response_frame QueryPublisherResponse_kKey 102 (enc_QueryPublisherResponse a)) @ rest) st" for st
    using sequence [of fm 102 sent "qpr_response_code a" "qpr_sequence a" rest st publisher_ref stream_name] that assms
      example_sizes(3) unfolding a by auto
qed (auto intro: writes split: sum.split)

lemma delete_section:
  assumes "fm = 0 \<or> 200 \<le> unat fm" and "dlr_response_code a = rc_Ok \<or> dlr_response_code a = rc_StreamDoesNotExist"
  shows "leads (at fm 103 sent (enc_frame (response_frame DeleteResponse_kKey 103 (enc_DeleteResponse a)) @ rest))
    (delete_section os io (scheduled os sched)) (Inr ())
    (at fm 104 (sent @ encode_request_frame DeleteRequest_kKey kVersion 103 (enc_DeleteRequest \<lparr>dlq_stream = stream_name\<rparr>)) rest)"
  unfolding delete_section_def
proof (rule leads_must_section [OF writes(1) _ writes(1)])
  have a: "\<lparr>dlr_response_code = dlr_response_code a\<rparr> = a" by simp
  show "\<exists>st'. delete_stream os (scheduled os sched) stream_name True st = Some (Ok (), st') \<and>
      at fm 104 (sent @ encode_request_frame DeleteRequest_kKey kVersion 103 (enc_DeleteRequest \<lparr>dlq_stream = stream_name\<rparr>)) rest st'"
    if "at fm 103 sent (enc_frame (response_frame DeleteResponse_kKey 103 (enc_DeleteResponse a)) @ rest) st" for st
    using delete [of fm 103 sent "dlr_response_code a" rest st stream_name True] that assms example_sizes(4)
    unfolding a by auto
qed

lemma close_section:
  assumes "valid_frame f" and "answers cid f"
  shows "leads (at fm cid sent (enc_frame f @ rest)) (close_section os io (scheduled os sched)) (Inr ())
    (closed_session out (sent @ encode_request_frame CloseRequest_kKey kVersion cid
       (enc_CloseRequest \<lparr>clq_closing_code = 0x01, clq_closing_reason = ''client requested close''\<rparr>)))"
  unfolding close_section_def
proof (rule leads_must_section [OF writes(1) _ writes(3)])
  show "\<exists>st'. client_close os (scheduled os sched) st = Some (Ok (), st') \<and>
      closed_session out (sent @ encode_request_frame CloseRequest_kKey kVersion cid
       (enc_CloseRequest \<lparr>clq_closing_code = 0x01, clq_closing_reason = ''client requested close''\<rparr>)) st'"
    if "at fm cid sent (enc_frame f @ rest) st" for st
    using close_session [of "fst st" "snd st" f rest] that assms
    by (fastforce simp: active_def open_at_def closed_session_def close_frame_def close_request_def socket_valid_def new_socket_def)
qed

lemma connect_section:
  assumes "script_result (example_config io) sv = Some hr" and "hr_negotiated_heartbeat hr = hb"
  shows "leads (\<lambda>st. fst st = example_client io \<and> out (snd st) = sent \<and> inp (snd st) = script_bytes sv @ rest)
    (connect_section os io) (Inr ())
    (at (hr_negotiated_frame_max hr) 100
      (sent @ handshake_bytes (example_config io) (length (sv_challenges sv)) hr) rest)"
    (is "leads ?P _ _ ?Q")
  unfolding connect_section_def Let_def
proof (rule leads_then [where Q = ?P], goal_cases)
  case 1
  then show ?case using prints by (simp add: leads_def prog_write_def prints_keep_def)
next
  case 2
  show ?case
  proof (rule leads_call [where X = "{Ok ()}" and Q = ?Q], goal_cases)
    case (1 st)
    have c: "cl_state (example_client io) = Disconnected" "cl_sock (example_client io) = new_socket"
      "cl_cfg (example_client io) = example_config io" "cids_below (example_client io)"
      "cl_next_app_cid (example_client io) = 100"
      by (simp_all add: example_client_def StreamClient_def on_unexpected_close_def cids_below_def new_dispatcher_def)
    have "client_step (StreamClient (example_config io)) (example_client io)"
      unfolding example_client_def by (rule client_step.set_callback)
    then have "client_ok (example_client io)" by (rule client_step_ok [OF _ client_ok_new])
    moreover have "validate (example_config io) = Ok ()" by (simp add: example_config_def validate_def)
    moreover have "st = (example_client io, snd st)" using 1 by (metis prod.collapse)
    ultimately show ?case
      using connect_opens [OF assms(1) _ _ c(1,2,3) _ c(4) assms(2), of "snd st" rest] 1 c(5) by auto
  next
    case (2 r)
    then have r: "r = Ok ()" by simp
    have "leads ?Q (\<lambda>st. print_properties io (server_properties (fst st)) st) (Inr ()) ?Q"
      using properties unfolding leads_def by blast
    from leads_then [OF writes(1) this] show ?case unfolding r by simp
  qed
qed

lemma main_done:
  assumes "script_result (example_config io) sv = Some hr"
    and "hr_negotiated_heartbeat hr = hb" and "hr_negotiated_frame_max hr = 0 \<or> 200 \<le> unat (hr_negotiated_frame_max hr)"
    and "crr_response_code a1 = rc_Ok \<or> crr_response_code a1 = rc_StreamAlreadyExists"
    and "dlr_response_code a4 = rc_Ok \<or> dlr_response_code a4 = rc_StreamDoesNotExist"
    and "inp w = script_bytes sv @ example_answers a1 a2 a3 a4 a5 @ rest"
  shows "\<exists>st. main os io (scheduled os sched) w = Some (0, st) \<and> closed_session out
    (out w @ handshake_bytes (example_config io) (length (sv_challenges sv)) hr @ example_requests) st"
proof -
  let ?start = "\<lambda>st. fst st = example_client io \<and> out (snd st) = out w \<and>
    inp (snd st) = script_bytes sv @ example_answers a1 a2 a3 a4 a5 @ rest"
  let ?sent = "out w @ handshake_bytes (example_config io) (length (sv_challenges sv)) hr @ example_requests"
  have close: "valid_frame (response_frame CloseResponse_kKey 104 (enc_CloseResponse a5))"
    "answers 104 (response_frame CloseResponse_kKey 104 (enc_CloseResponse a5))"
    using response_frame_valid [OF clr.response_key] clr.response_key
    by (simp_all add: enc_CloseResponse_def answers_def response_frame_def)
  from leads_then [OF connect_section [OF assms(1,2)] leads_then [OF create_section [OF assms(3,4)]
      leads_then [OF store_section leads_then [OF query_offset_section [OF assms(3)]
      leads_then [OF query_publisher_section [OF assms(3)] leads_then [OF delete_section [OF assms(3,5)]
      leads_then [OF close_section [OF close] leads_end]]]]]]]
  have "leads ?start (main_sections os io (scheduled os sched)) (Inl (Returned 0)) (closed_session out ?sent)"
    unfolding main_sections_def example_answers_def example_requests_def append_assoc .
  from leadsD [OF this, of "(example_client io, w)"] assms(6)
  obtain st where "main_sections os io (scheduled os sched) (example_client io, w) = Some (Inl (Returned 0), st)"
    "closed_session out ?sent st" by auto
  moreover from this(2) have "\<exists>st'. destroy os (scheduled os sched) st = Some st' \<and> closed_session out ?sent st'"
    by (cases st) (auto simp: closed_session_def destroy_def socket_close_def socket_valid_def Let_def)
  ultimately show ?thesis by (auto simp: main_def)
qed

end

end
