(* ===== verification/IO_Thread.thy ===== *)
theory IO_Thread
  imports Session
begin

text \<open>
  The I/O thread (\<open>client.cpp\<close>, \<open>io_loop\<close>) over a whole stream of frames. The first part follows several
  requests that are pending at the same time: whatever the order of the responses and whatever other
  frames come between them, every future gets the response to its own request. The second part runs
  the loop until the server closes the connection, also in the middle of a frame, and shows that it
  ends and leaves no request behind.
\<close>

section \<open>Requests of several threads\<close>

text \<open>
  The part of \<open>send_and_wait\<close> before the wait, for one request after the other: what several application
  threads do before any of them gets its response. The result lists the futures.
\<close>

fun begin_requests :: "'w os \<Rightarrow> (u16 \<times> u16 \<times> bytes) list \<Rightarrow> ('w st, nat list) io" where
  "begin_requests os [] = io_return []"
| "begin_requests os ((key, version, body) # reqs) =
     io_bind (begin_request os key version body) (\<lambda>p.
     io_bind (begin_requests os reqs) (\<lambda>ps. io_return (p # ps)))"

text \<open>Their frames, with consecutive correlation ids.\<close>

fun request_frames :: "u32 \<Rightarrow> (u16 \<times> u16 \<times> bytes) list \<Rightarrow> bytes" where
  "request_frames cid [] = []"
| "request_frames cid ((key, version, body) # reqs) =
     encode_request_frame key version cid body @ request_frames (cid + 1) reqs"

section \<open>A stream of frames\<close>

context answering_session
begin

lemma turns:
  assumes "ready c" and "cl_sock c = s" and "\<forall>f\<in>set fs. valid_frame f" and "inp w = concat (map enc_frame fs) @ rest"
  shows "\<exists>c' w'. (io_turn os ^^ length fs) (c, w) = (c', w') \<and> ready c' \<and> same_session c c' \<and>
    out w' = out w \<and> inp w' = rest \<and> client_steps c c' \<and>
    (\<forall>cid p. awaits os c cid p \<longrightarrow>
       (case find (answers cid) fs of None \<Rightarrow> awaits os c' cid p | Some f \<Rightarrow> resolved c' p f))"
  using assms
proof (induction fs arbitrary: c w)
  case Nil
  then show ?case by (simp add: same_session_def)
next
  case (Cons f fs)
  have io: "cl_io_thread c" "\<not> cl_stop_io c" and ok: "client_ok c" and below: "cids_below c"
    using Cons.prems(1) by (simp_all add: ready_def)
  obtain c1 w1 t u where 1: "io_turn os (c, w) = (c1, w1)" "same_session c c1" "out w1 = out w"
    "inp w1 = concat (map enc_frame fs) @ rest"
    and c1: "c1 = client_dispatch f (client_reap (fst (os_now os u)) (c\<lparr>cl_last_inbound_at := t\<rparr>))"
    using turn [OF io Cons.prems(2), of w f "concat (map enc_frame fs) @ rest"] Cons.prems(3,4) by auto
  have steps: "client_steps c c1" using io_turn_steps [of c os w] 1(1) by simp
  have "cids_below c1"
    using dispatch_pending_subset unfolding c1
    by (intro cids_below_shrink [OF below]) (fastforce simp: section_defs reap_expired_pending)+
  then have ready: "ready c1" "cl_sock c1 = s"
    using client_steps_ok [OF steps ok] Cons.prems(1,2) 1(2) by (simp_all add: ready_def same_session_def)
  from Cons.IH [OF ready _ 1(4)] Cons.prems(3)
  obtain c' w' where run: "(io_turn os ^^ length fs) (c1, w1) = (c', w')" "ready c'" "same_session c1 c'"
      "out w' = out w1" "inp w' = rest" "client_steps c1 c'"
    and later: "\<And>cid p. awaits os c1 cid p \<Longrightarrow>
       case find (answers cid) fs of None \<Rightarrow> awaits os c' cid p | Some f \<Rightarrow> resolved c' p f"
    by auto
  have "case find (answers cid) (f # fs) of None \<Rightarrow> awaits os c' cid p | Some f \<Rightarrow> resolved c' p f"
    if "awaits os c cid p" for cid p
    using turn_pending [OF ok that c1] later [of cid p] resolved_later [OF _ run(6)] ready(1)
    by (auto simp: ready_def split: if_splits)
  moreover have "same_session c c'" using 1(2) run(3) by (simp add: same_session_def)
  moreover have "client_steps c c'" using steps run(6) by (rule rtranclp_trans)
  moreover have "(io_turn os ^^ length (f # fs)) (c, w) = (c', w')"
    using run(1) 1(1) by (simp add: funpow_swap1)
  ultimately show ?case using run(2,4,5) 1(3) by auto
qed

lemma begin_request_awaits:
  assumes "ready c" and "cl_sock c = s" and "cl_cfg c = cfg" and "cl_next_app_cid c \<noteq> -1"
    and "cl_negotiated_frame_max c = 0 \<or> 8 + length body \<le> unat (cl_negotiated_frame_max c)"
  shows "\<exists>p c1 w1. begin_request os key version body (c, w) = Some (Ok p, (c1, w1)) \<and> ready c1 \<and> same_session c c1 \<and>
    cl_next_app_cid c1 = cl_next_app_cid c + 1 \<and> inp w1 = inp w \<and>
    out w1 = out w @ encode_request_frame key version (cl_next_app_cid c) body \<and>
    awaits os c1 (cl_next_app_cid c) p \<and> (\<forall>cid q. awaits os c cid q \<longrightarrow> awaits os c1 cid q)"
proof -
  have os: "tcp_stream os (sock_fd (cl_sock c)) out inp" "interrupts_bounded os (sock_fd (cl_sock c)) budget"
    "send_accepts os (sock_fd (cl_sock c))" "now_keeps os out" "now_keeps os inp"
    using conn assms(2) by (simp_all add: connection_def healthy_def)
  have c: "client_ok c" "cids_below c" using assms(1) by (simp_all add: ready_def)
  let ?p = "length (ds_shared (cl_dispatcher c))"
  obtain c1 w1 where b: "begin_request os key version body (c, w) = Some (Ok ?p, (c1, w1))"
    using begin_request_succeeds [OF os(2,3) assms(5)] by blast
  have sess: "same_session c c1" "cids_below c1" "cl_next_app_cid c1 = cl_next_app_cid c + 1"
    using begin_request_session [OF b c(2) assms(4)] by simp_all
  have "client_ok c1" using client_steps_ok [OF stepwiseD [OF stepwise_begin_request b] c(1)] by blast
  then have "ready c1" using sess assms(1) by (simp add: ready_def same_session_def)
  moreover have "inp w1 = inp w" "out w1 = out w @ encode_request_frame key version (cl_next_app_cid c) body"
    using begin_request_ok [OF b os(1,4,5) c(2)] by (simp_all add: exchanged_def)
  moreover obtain now where pending: "ds_pending (cl_dispatcher c1) =
      (cl_next_app_cid c, \<lparr>pe_promise = ?p, pe_deadline = now + ms (cfg_request_timeout cfg)\<rparr>) # ds_pending (cl_dispatcher c)"
    and now: "now = fst (os_now os w)"
    using b
  proof (cases rule: begin_request_cases)
    case (written now w2 t w3 wr)
    have "fst (os_now os w) = now" using written(1) by simp
    then show thesis
      using registered_fresh(1) [OF c(2), of now] assms(3) by (intro that [of now]) (simp_all add: written(5))
  qed simp
  have "fst (os_now os u) < now + ms (cfg_request_timeout cfg)" for u
    unfolding now by (rule clock_withinD [OF clock])
  then have "awaits os c1 (cl_next_app_cid c) ?p" by (simp add: awaits_def pending)
  moreover have "awaits os c1 cid q" if "awaits os c cid q" for cid q
  proof -
    have "cid \<noteq> cl_next_app_cid c"
      using that c(2) by (force simp: awaits_def cids_below_def dest: map_of_SomeD)
    with that show ?thesis by (simp add: awaits_def pending)
  qed
  ultimately show ?thesis using b sess by blast
qed

lemma begin_requests_awaits:
  assumes "ready c" and "cl_sock c = s" and "cl_cfg c = cfg" and "unat (cl_next_app_cid c) + length reqs < 2 ^ 32"
    and "\<forall>(key, version, body)\<in>set reqs. cl_negotiated_frame_max c = 0 \<or> 8 + length body \<le> unat (cl_negotiated_frame_max c)"
  shows "\<exists>ps c1 w1. begin_requests os reqs (c, w) = Some (Ok ps, (c1, w1)) \<and> length ps = length reqs \<and>
    ready c1 \<and> same_session c c1 \<and> inp w1 = inp w \<and> out w1 = out w @ request_frames (cl_next_app_cid c) reqs \<and>
    (\<forall>i < length reqs. awaits os c1 (cl_next_app_cid c + of_nat i) (ps ! i)) \<and>
    (\<forall>cid q. awaits os c cid q \<longrightarrow> awaits os c1 cid q)"
  using assms
proof (induction reqs arbitrary: c w)
  case Nil
  then show ?case by (simp add: same_session_def)
next
  case (Cons req reqs)
  obtain key version body where req: "req = (key, version, body)" by (cases req)
  let ?cid = "cl_next_app_cid c"
  have no_wrap: "?cid \<noteq> -1" "unat (?cid + 1) = unat ?cid + 1"
    using Cons.prems(4) by (auto simp: unat_word_ariths unsigned_minus_1_eq_mask mask_eq_exp_minus_1)
  have "cl_negotiated_frame_max c = 0 \<or> 8 + length body \<le> unat (cl_negotiated_frame_max c)"
    using Cons.prems(5) by (simp add: req)
  from begin_request_awaits [OF Cons.prems(1-3) no_wrap(1) this, of key version w]
  obtain p c1 w1 where b: "begin_request os key version body (c, w) = Some (Ok p, (c1, w1))"
    "ready c1" "same_session c c1" "cl_next_app_cid c1 = ?cid + 1" "inp w1 = inp w"
    "out w1 = out w @ encode_request_frame key version ?cid body" "awaits os c1 ?cid p"
    "\<And>cid q. awaits os c cid q \<Longrightarrow> awaits os c1 cid q" by auto
  have "cl_sock c1 = s" "cl_cfg c1 = cfg" "cl_negotiated_frame_max c1 = cl_negotiated_frame_max c"
    using b(3) Cons.prems(2,3) by (simp_all add: same_session_def)
  with Cons.IH [OF b(2), of w1] Cons.prems(4,5) b(4) no_wrap(2)
  obtain ps c2 w2 where r: "begin_requests os reqs (c1, w1) = Some (Ok ps, (c2, w2))" "length ps = length reqs"
    "ready c2" "same_session c1 c2" "inp w2 = inp w1" "out w2 = out w1 @ request_frames (?cid + 1) reqs"
    "\<And>i. i < length reqs \<Longrightarrow> awaits os c2 (?cid + 1 + of_nat i) (ps ! i)"
    "\<And>cid q. awaits os c1 cid q \<Longrightarrow> awaits os c2 cid q" by auto
  have "awaits os c2 (?cid + of_nat i) ((p # ps) ! i)" if "i < length (req # reqs)" for i
    using r(7) [of "i - 1"] r(8) [OF b(7)] that by (cases i) (simp_all add: algebra_simps)
  moreover have "same_session c c2" using b(3) r(4) by (simp add: same_session_def)
  ultimately show ?case using b(1,5,6,8) r(1,2,3,5,6,8) by (auto simp: req)
qed

end

section \<open>The end of the stream\<close>

text \<open>When the peer has closed its side, \<open>recv\<close> returns 0 after the last byte.\<close>

definition recv_ends :: "'w os \<Rightarrow> int \<Rightarrow> ('w \<Rightarrow> bytes) \<Rightarrow> bool" where
  "recv_ends os fd inp \<longleftrightarrow>
     (\<forall>k w r bs en w'. 0 < k \<and> inp w = [] \<and> os_recv os fd k w = ((r, bs, en), w') \<longrightarrow>
        r = 0 \<or> r < 0 \<and> en = EINTR)"

text \<open>The stream may end anywhere in a frame.\<close>

definition cut_frame :: "bytes \<Rightarrow> bool" where
  "cut_frame bs \<longleftrightarrow> (\<exists>f rest. valid_frame f \<and> enc_frame f = bs @ rest \<and> rest \<noteq> [])"

definition peer_closed :: stream_error where
  "peer_closed = StreamError ConnectionClosed ''peer closed connection''"

lemma read_exact_loop_cut:
  assumes "interrupts_bounded os fd budget" and "recv_takes os fd inp" and "recv_delivers os fd inp"
    and "recv_ends os fd inp" and "length dst + length (inp w) < n"
  shows "\<exists>w'. read_exact_loop os fd n mode dst w = Some (Err peer_closed, w')"
  using assms(5)
proof (induction "(length (inp w), budget w)" arbitrary: dst w
    rule: wf_induct_rule [OF wf_lex_prod [OF wf_less_than wf_less_than]])
  case 1
  note IH = 1(1) and prem = 1(2)
  obtain r bs en w' where call: "os_recv os fd (n - length dst) w = ((r, bs, en), w')"
    by (metis prod.exhaust)
  note recv = recv_takesD [OF assms(2) call]
  have n: "length dst < n" "0 < n - length dst" using prem by simp_all
  consider "0 < r" | "r < 0 \<and> en = EINTR" | "r = 0 \<and> inp w = []"
    using assms(3,4) call n(2) unfolding recv_delivers_def recv_ends_def by blast
  then show ?case
  proof cases
    case 1
    with recv(1) have bs: "0 < length bs" "inp w = bs @ inp w'" by auto
    with prem have "\<exists>w''. read_exact_loop os fd n mode (dst @ bs) w' = Some (Err peer_closed, w'')"
      by (intro IH) simp_all
    with 1 n(1) call show ?thesis by (subst read_exact_loop.simps) simp
  next
    case 2
    with call assms(1) have "budget w' < budget w" unfolding interrupts_bounded_def by blast
    then have "\<exists>w''. read_exact_loop os fd n mode dst w' = Some (Err peer_closed, w'')"
      using 2 recv(2) prem by (intro IH) simp_all
    with 2 n(1) call show ?thesis by (subst read_exact_loop.simps) simp
  next
    case 3
    with n(1) call show ?thesis by (subst read_exact_loop.simps) (simp add: peer_closed_def)
  qed
qed

lemma read_frame_cut:
  assumes os: "interrupts_bounded os (sock_fd s) budget" "recv_takes os (sock_fd s) inp"
      "recv_delivers os (sock_fd s) inp" "recv_ends os (sock_fd s) inp"
    and cut: "cut_frame (inp w)"
  shows "\<exists>w'. read_frame os s w = Some (Err peer_closed, w')"
proof (cases "length (inp w) < 4")
  case True
  then have "\<exists>w'. read_exact os s 4 ReturnTimeout w = Some (Err peer_closed, w')"
    unfolding read_exact_def by (intro read_exact_loop_cut [OF os]) simp
  then show ?thesis by (auto simp: read_frame_def)
next
  case False
  from cut obtain f rest where f: "valid_frame f" "enc_frame f = inp w @ rest" "rest \<noteq> []"
    unfolding cut_frame_def by blast
  let ?d = "word_of_nat (frame_size f) :: u32"
  have d: "unat ?d = frame_size f" using f(1) by (simp add: valid_frame_def unat_of_nat)
  have "take 4 (enc_frame f) = be_split 4 ?d" by (simp add: enc_frame_def)
  then have "take 4 (inp w) = be_split 4 ?d" using f(2) False by simp
  then obtain bs where bs: "inp w = be_split 4 ?d @ bs" by (metis append_take_drop_id)
  have "length bs < frame_size f" using f(2,3) bs length_enc_frame [of f] by (cases rest) auto
  have "\<exists>w1. read_exact os s 4 ReturnTimeout w = Some (Ok (be_split 4 ?d), w1) \<and> inp w1 = bs"
    unfolding read_exact_def using read_exact_loop_delivers [OF os(1-3), of w "be_split 4 ?d" bs "[]" 4] bs by simp
  then obtain w1 where w1: "read_exact os s 4 ReturnTimeout w = Some (Ok (be_split 4 ?d), w1)" "inp w1 = bs" by blast
  have "\<exists>w2. read_exact os s (unat ?d) TreatAsError w1 = Some (Err peer_closed, w2)"
    unfolding read_exact_def using \<open>length bs < frame_size f\<close> w1(2) d by (intro read_exact_loop_cut [OF os]) simp
  then obtain w2 where "read_exact os s (unat ?d) TreatAsError w1 = Some (Err peer_closed, w2)" by blast
  moreover have "\<not> ?d < 4" using d by (simp add: word_less_nat_alt frame_size_def)
  ultimately show ?thesis
    using w1 size_buf_declared [of "be_split 4 ?d"] by (simp add: read_frame_def be_join_split Let_def)
qed

text \<open>
  The other threads do not read from the socket, and replace it only when the loop is told to stop.
\<close>

definition others_keep :: "'w env \<Rightarrow> ('w \<Rightarrow> bytes) \<Rightarrow> bool" where
  "others_keep env inp \<longleftrightarrow>
     (\<forall>st. inp (snd (env_others env st)) = inp (snd st) \<and>
        (cl_stop_io (fst (env_others env st)) \<or> cl_sock (fst (env_others env st)) = cl_sock (fst st)))"

text \<open>
  What the loop leaves behind, when \<open>n\<close> futures existed before: it was told to stop, or all of them have
  a value and the application was notified, unless it is closing the connection itself.
\<close>

definition io_ended :: "nat \<Rightarrow> 'w client \<Rightarrow> bool" where
  "io_ended n c \<longleftrightarrow> \<not> cl_io_thread c \<and> (cl_state c = Closing \<or> cl_state c = Closed) \<and>
     (cl_stop_io c \<or> unsettled (cl_dispatcher c) \<subseteq> {n..} \<and> (cl_closing c \<or> cl_unexpected_fired c))"

lemma io_ended_stop: "cl_stop_io c \<Longrightarrow> io_ended n (io_exit c)"
  by (simp add: io_ended_def io_exit_def Let_def)

lemma io_ended_mono: "io_ended m c \<Longrightarrow> n \<le> m \<Longrightarrow> io_ended n c"
  by (auto simp: io_ended_def)

text \<open>After the first \<open>fail_all_pending\<close>, whatever the other threads do.\<close>

lemma io_ended_failed:
  assumes "env_ok env" and ok: "client_ok c" and io: "cl_io_thread c" and "kind e \<noteq> RequestTimeout"
    and h: "io_handle os env (Err e) (c, w) = (go_on, (c2, w2))" and o: "env_others env (c2, w2) = (c3, w3)"
  shows "\<not> go_on" "io_ended (length (ds_shared (cl_dispatcher c))) (io_exit c3)"
proof -
  let ?c0 = "client_fail_all e c" and ?n = "length (ds_shared (cl_dispatcher c))"
  obtain ca wa where a: "env_others env (?c0, w) = (ca, wa)" by fastforce
  obtain cb wb where b: "env_others env (ca, wa) = (cb, wb)" by fastforce
  from h a b assms(4) show "\<not> go_on" by (auto simp: io_handle_def)
  have c2: "c2 = (if cl_closing ca then cb else notify_unexpected_close (read_failed e) cb)"
    using h a b assms(4) by (auto simp: io_handle_def split: if_splits)
  have ok0: "client_ok ?c0" by (rule client_step_ok [OF client_step.fail_all ok])
  have 0: "unsettled (cl_dispatcher ?c0) = {}" "length (ds_shared (cl_dispatcher ?c0)) = ?n"
    using fail_all_unsettled [of "cl_dispatcher c" e] ok
    by (simp_all add: client_ok_def client_fail_all_def fail_all_pending_def)
  have rank: "2 \<le> state_rank (cl_state ?c0)"
    using ok io by (cases "cl_state c") (auto simp: client_ok_def client_fail_all_def)
  have sa: "client_steps ?c0 ca" "cl_io_thread ca" and sb: "client_steps ca cb" "cl_io_thread cb"
    using env_others_steps [OF assms(1) a] env_others_steps [OF assms(1) b] io by (simp_all add: client_fail_all_def)
  have s2: "client_steps cb c2" using sb(2) client_step.notify [of cb] by (auto simp: c2)
  have s3: "client_steps c2 c3" using env_others_steps [OF assms(1) o] by simp
  have steps: "client_steps ?c0 c3" "client_steps ca c3" by (meson sa(1) sb(1) s2 s3 rtranclp_trans)+
  have ranks: "2 \<le> state_rank (cl_state ca)" "2 \<le> state_rank (cl_state c2)" "2 \<le> state_rank (cl_state c3)"
    using rank client_steps_rank [OF sa(1)] client_steps_rank [OF steps(1)]
      client_steps_rank [OF rtranclp_trans [OF sa(1) rtranclp_trans [OF sb(1) s2]]] by simp_all
  have "unsettled (cl_dispatcher c3) \<subseteq> {?n..}"
    using settled_stays [OF _ 0(1), of "cl_dispatcher c3"] client_steps_ok [OF steps(1) ok0] 0(2) by simp
  moreover have "cl_closing c3 \<or> cl_unexpected_fired c3"
    using client_steps_flags(1) [OF steps(2) ranks(1)] client_steps_flags(3) [OF s3 ranks(2)] c2 by (cases "cl_closing ca") simp_all
  ultimately show "io_ended ?n (io_exit c3)"
    using ranks(3) by (cases "cl_state c3") (auto simp: io_ended_def io_exit_def Let_def)
qed

lemma io_loop_round:
  assumes "\<not> cl_stop_io c" and "read_frame os (cl_sock c) w = Some (r, w1)" and "env_others env (c, w1) = (c1, w2)"
    and "io_handle os env r (c1, w2) = (go_on, (c2, w3))"
  shows "io_loop os env (c, w) = (if go_on then io_loop os env (c2, w3)
    else Some (io_exit (fst (env_others env (c2, w3))), snd (env_others env (c2, w3))))"
  using assms by (subst io_loop.simps) (simp add: Let_def)

lemma others_okD:
  assumes "env_ok env" and "others_keep env inp" and "client_ok c" and "env_others env (c, w) = (c1, w1)"
  shows "client_ok c1" "cl_io_thread c1 = cl_io_thread c" "inp w1 = inp w" "cl_stop_io c1 \<or> cl_sock c1 = cl_sock c"
proof -
  have "client_steps c c1" "cl_io_thread c1 = cl_io_thread c"
    using assms(1) assms(4) unfolding env_ok_def by (metis fst_conv)+
  then show "client_ok c1" "cl_io_thread c1 = cl_io_thread c" using client_steps_ok assms(3) by blast+
  show "inp w1 = inp w" "cl_stop_io c1 \<or> cl_sock c1 = cl_sock c"
    using assms(2,4) unfolding others_keep_def by (metis fst_conv snd_conv)+
qed

text \<open>What the reads of the loop need of the connection.\<close>

lemma connection_reads:
  assumes "connection os s out inp budget"
  shows "interrupts_bounded os (sock_fd s) budget" "recv_takes os (sock_fd s) inp" "recv_delivers os (sock_fd s) inp"
    "now_keeps os inp"
  using assms by (simp_all add: connection_def healthy_def tcp_stream_def)

text \<open>The last round, and a round that receives a frame.\<close>

lemma io_loop_cut:
  assumes conn: "connection os s out inp budget" "recv_ends os (sock_fd s) inp"
    and env: "env_ok env" "others_keep env inp"
    and c: "client_ok c" "cl_io_thread c" "cl_sock c = s" "\<not> cl_stop_io c" and cut: "cut_frame (inp w)"
  shows "\<exists>c' w'. io_loop os env (c, w) = Some (c', w') \<and> io_ended (length (ds_shared (cl_dispatcher c))) c'"
proof -
  obtain w1 where rd: "read_frame os (cl_sock c) w = Some (Err peer_closed, w1)"
    using read_frame_cut [OF connection_reads(1-3) [OF conn(1)] conn(2) cut] c(3) by auto
  obtain c1 w2 where o: "env_others env (c, w1) = (c1, w2)" by fastforce
  obtain go_on c2 w3 where h: "io_handle os env (Err peer_closed) (c1, w2) = (go_on, (c2, w3))" by (metis prod.exhaust)
  obtain c3 w4 where o3: "env_others env (c2, w3) = (c3, w4)" by fastforce
  note c1 = others_okD [OF env c(1) o]
  have "cl_io_thread c1" "kind peer_closed \<noteq> RequestTimeout" using c1(2) c(2) by (simp_all add: peer_closed_def)
  note ended = io_ended_failed [OF env(1) c1(1) this h o3]
  have "length (ds_shared (cl_dispatcher c)) \<le> length (ds_shared (cl_dispatcher c1))"
    using client_steps_ok [OF _ c(1), of c1] env_others_steps [OF env(1) o] by (auto simp: settles_once_def)
  with io_ended_mono [OF ended(2)] show ?thesis using io_loop_round [OF c(4) rd o h] ended(1) o3 by simp
qed

lemma io_loop_frame:
  assumes conn: "connection os s out inp budget" and env: "env_ok env" "others_keep env inp"
    and c: "client_ok c" "cl_io_thread c" "cl_sock c = s" "\<not> cl_stop_io c"
    and f: "valid_frame f" "inp w = enc_frame f @ t"
  shows "\<exists>c' w'. io_loop os env (c, w) = io_loop os env (c', w') \<and> client_ok c' \<and> cl_io_thread c' \<and>
    (cl_stop_io c' \<or> cl_sock c' = s) \<and> inp w' = t \<and>
    length (ds_shared (cl_dispatcher c)) \<le> length (ds_shared (cl_dispatcher c'))"
proof -
  note os = connection_reads [OF conn]
  obtain w1 where rd: "read_frame os (cl_sock c) w = Some (Ok f, w1)" "inp w1 = t"
    using read_frame_delivers [OF os(1-3) f] c(3) by auto
  obtain c1 w2 where o: "env_others env (c, w1) = (c1, w2)" by fastforce
  obtain go_on c2 w3 where h: "io_handle os env (Ok f) (c1, w2) = (go_on, (c2, w3))" by (metis prod.exhaust)
  note c1 = others_okD [OF env c(1) o]
  have go: "go_on" "cl_stop_io c2 = cl_stop_io c1"
    using h by (auto simp: io_handle_def Let_def case_prod_unfold section_defs)
  have steps: "client_steps c1 c2" "cl_io_thread c2" using io_handle_delivers [OF h] c1(2) c(2) by simp_all
  then have all: "client_steps c c2" using env_others_steps [OF env(1) o] by (meson rtranclp_trans)
  have "client_ok c2" "length (ds_shared (cl_dispatcher c)) \<le> length (ds_shared (cl_dispatcher c2))"
    using client_steps_ok [OF all c(1)] by (auto simp: settles_once_def)
  moreover have "cl_stop_io c2 \<or> cl_sock c2 = s"
    using io_handle_frame(1) [OF h] c1(4) go(2) c(3) by (simp add: same_session_def)
  moreover have "inp w3 = t" using io_handle_frame(4) [OF h os(4)] c1(3) rd(2) by simp
  ultimately show ?thesis using io_loop_round [OF c(4) rd(1) o h] go(1) steps(2) by auto
qed

lemma io_loop_ends:
  assumes conn: "connection os s out inp budget" "recv_ends os (sock_fd s) inp"
    and env: "env_ok env" "others_keep env inp"
    and c: "client_ok c" "cl_io_thread c" "cl_stop_io c \<or> cl_sock c = s"
    and fs: "\<forall>f\<in>set fs. valid_frame f" "inp w = concat (map enc_frame fs) @ bs" "cut_frame bs"
  shows "\<exists>c' w'. io_loop os env (c, w) = Some (c', w') \<and> io_ended (length (ds_shared (cl_dispatcher c))) c'"
  using c fs(1,2)
proof (induction fs arbitrary: c w)
  case Nil
  then show ?case
    using io_loop_cut [OF conn env Nil.prems(1,2), of w] fs(3)
    by (cases "cl_stop_io c") (simp_all add: io_loop_stopped io_ended_stop)
next
  case (Cons f fs)
  show ?case
  proof (cases "cl_stop_io c")
    case True
    then show ?thesis by (simp add: io_loop_stopped io_ended_stop)
  next
    case False
    with io_loop_frame [OF conn(1) env Cons.prems(1,2), of f w "concat (map enc_frame fs) @ bs"] Cons.prems(3-5)
    obtain c' w' where "io_loop os env (c, w) = io_loop os env (c', w')" "client_ok c'" "cl_io_thread c'"
      "cl_stop_io c' \<or> cl_sock c' = s" "inp w' = concat (map enc_frame fs) @ bs"
      and len: "length (ds_shared (cl_dispatcher c)) \<le> length (ds_shared (cl_dispatcher c'))" by auto
    with Cons.IH [of c' w'] Cons.prems(4) io_ended_mono [OF _ len] show ?thesis by fastforce
  qed
qed

section \<open>A lost connection\<close>

text \<open>What decides whether the end of the stream is reported; a frame does not change it.\<close>

definition watch :: "'w client \<Rightarrow> bool \<times> bool \<times> bool \<times> nat option" where
  "watch c = (cl_stop_io c, cl_closing c, cl_unexpected_fired c, cl_on_unexpected_close c)"

text \<open>When the other threads are idle, a round of the loop is a turn of the thread.\<close>

lemma io_loop_turn:
  assumes "\<And>st. env_others env st = st" and "\<not> cl_stop_io c" and "cl_io_thread c"
    and "read_frame os (cl_sock c) w = Some (Ok f, w1)"
  shows "io_loop os env (c, w) = io_loop os env (io_turn os (c, w))"
  using assms
  by (subst io_loop.simps) (simp add: io_turn_def io_finish_def io_handle_def Let_def case_prod_unfold)

lemma io_loop_lost:
  assumes "\<And>st. env_others env st = st" and "\<not> cl_stop_io c" and "\<not> cl_closing c"
    and "read_frame os (cl_sock c) w = Some (Err peer_closed, w1)"
  shows "io_loop os env (c, w) =
    Some (io_exit (notify_unexpected_close (read_failed peer_closed) (client_fail_all peer_closed c)), w1)"
  using assms
  by (subst io_loop.simps) (simp add: io_handle_def Let_def peer_closed_def client_fail_all_def)

text \<open>The end of the connection gives the error to a pending request, and a resolved one keeps its response.\<close>

lemma fail_all_futures:
  assumes "client_ok c"
  shows "awaits os c cid p \<Longrightarrow> ds_shared (fail_all_pending e (cl_dispatcher c)) ! p = Ready (Err e)"
    "resolved c p f \<Longrightarrow> ds_shared (fail_all_pending e (cl_dispatcher c)) ! p = Ready (Ok f)"
proof -
  have ok: "dispatcher_ok (cl_dispatcher c)" using assms by (simp add: client_ok_def)
  show "ds_shared (fail_all_pending e (cl_dispatcher c)) ! p = Ready (Err e)" if "awaits os c cid p"
    using that fail_all_resolves [OF ok] by (fastforce simp: awaits_def dest: map_of_SomeD)
  show "ds_shared (fail_all_pending e (cl_dispatcher c)) ! p = Ready (Ok f)" if "resolved c p f"
    using that fail_all_pending.settles [OF ok, of e] by (simp add: resolved_def settles_once_def)
qed

context answering_session
begin

lemma io_loop_turns:
  assumes idle: "\<And>st. env_others env st = st"
    and "cl_io_thread c" and "cl_sock c = s" and "\<not> cl_stop_io c"
    and "\<forall>f\<in>set fs. valid_frame f" and "inp w = concat (map enc_frame fs) @ rest"
  shows "io_loop os env (c, w) = io_loop os env ((io_turn os ^^ length fs) (c, w)) \<and>
    watch (fst ((io_turn os ^^ length fs) (c, w))) = watch c"
  using assms(2-)
proof (induction fs arbitrary: c w)
  case Nil
  show ?case by simp
next
  case (Cons f fs)
  let ?t = "concat (map enc_frame fs) @ rest"
  have f: "valid_frame f" "inp w = enc_frame f @ ?t" using Cons.prems(4,5) by simp_all
  obtain w' where "read_frame os (cl_sock c) w = Some (Ok f, w')"
    using read_frame_delivers [OF connection_reads(1-3) [OF conn] f] Cons.prems(2) by blast
  note round = io_loop_turn [OF idle Cons.prems(3,1) this]
  obtain c1 w1 where 1: "io_turn os (c, w) = (c1, w1)" "same_session c c1" "inp w1 = ?t"
    and c1: "\<exists>t u. start \<le> t \<and> c1 = client_dispatch f (client_reap (fst (os_now os u)) (c\<lparr>cl_last_inbound_at := t\<rparr>))"
    using turn [OF Cons.prems(1,3,2) f(2,1)] by blast
  from c1 have watch: "watch c1 = watch c" by (auto simp: watch_def section_defs)
  have "cl_io_thread c1" "cl_sock c1 = s" "\<not> cl_stop_io c1"
    using 1(2) watch Cons.prems(1-3) by (simp_all add: same_session_def watch_def)
  with Cons.IH [OF this _ 1(3)] Cons.prems(4) round 1(1) watch show ?case
    by (simp add: funpow_swap1)
qed

lemma connection_lost:
  assumes idle: "\<And>st. env_others env st = st" and ends: "recv_ends os (sock_fd s) inp"
    and c: "ready c" "cl_sock c = s" "\<not> cl_stop_io c" "\<not> cl_closing c" "\<not> cl_unexpected_fired c"
    and fs: "\<forall>f\<in>set fs. valid_frame f" "inp w = concat (map enc_frame fs) @ bs" "cut_frame bs"
  shows "\<exists>c' w'. io_loop os env (c, w) = Some (c', w') \<and> cl_state c' = Closed \<and> out w' = out w \<and>
    (\<forall>cid p. awaits os c cid p \<longrightarrow> future_get p (c', w') =
       Some (case find (answers cid) fs of Some f \<Rightarrow> Ok f | None \<Rightarrow> Err peer_closed, (c', w'))) \<and>
    cl_callbacks c' = cl_callbacks c @
      (case cl_on_unexpected_close c of None \<Rightarrow> [] | Some cb \<Rightarrow> [(cb, read_failed peer_closed)])"
proof -
  have io: "cl_io_thread c" using c(1) by (simp add: ready_def)
  from turns [OF c(1,2) fs(1,2)] obtain c1 w1 where 1: "(io_turn os ^^ length fs) (c, w) = (c1, w1)" "ready c1"
    "same_session c c1" "out w1 = out w" "inp w1 = bs"
    and pend: "\<And>cid p. awaits os c cid p \<Longrightarrow>
       case find (answers cid) fs of None \<Rightarrow> awaits os c1 cid p | Some f \<Rightarrow> resolved c1 p f" by auto
  from io_loop_turns [OF idle io c(2,3) fs(1,2)] 1(1)
  have run: "io_loop os env (c, w) = io_loop os env (c1, w1)" and w: "watch c1 = watch c" by simp_all
  have sock: "cl_sock c1 = s" "cl_callbacks c1 = cl_callbacks c" "cl_state c1 = Open" and ok: "client_ok c1"
    using 1(2,3) c(2) by (simp_all add: same_session_def ready_def)
  obtain w2 where rd: "read_frame os (cl_sock c1) w1 = Some (Err peer_closed, w2)"
    using read_frame_cut [OF connection_reads(1-3) [OF conn] ends, of w1] fs(3) 1(5) sock(1) by auto
  let ?c2 = "client_fail_all peer_closed c1"
  let ?c' = "io_exit (notify_unexpected_close (read_failed peer_closed) ?c2)"
  have "io_loop os env (c, w) = Some (?c', w2)"
    using io_loop_lost [OF idle _ _ rd] w c(3,4) run by (simp add: watch_def)
  moreover have "out w2 = out w"
    using tcp_read_frame(1) [OF rd, of out inp] conn sock(1) 1(4) by (simp add: connection_def)
  moreover have d: "cl_dispatcher ?c' = fail_all_pending peer_closed (cl_dispatcher c1)"
    by (simp add: io_exit_def notify_unexpected_close_def client_fail_all_def Let_def split: option.split)
  moreover have "cl_state ?c' = Closed"
    using sock(3) by (simp add: io_exit_def notify_unexpected_close_def client_fail_all_def Let_def split: option.split)
  moreover have "cl_callbacks ?c' = cl_callbacks c @
      (case cl_on_unexpected_close c of None \<Rightarrow> [] | Some cb \<Rightarrow> [(cb, read_failed peer_closed)])"
    using w c(5) sock(2)
    by (simp add: io_exit_def notify_unexpected_close_callbacks client_fail_all_def watch_def split: option.split)
  moreover have "future_get p (?c', w2) =
      Some (case find (answers cid) fs of Some f \<Rightarrow> Ok f | None \<Rightarrow> Err peer_closed, (?c', w2))"
    if "awaits os c cid p" for cid p
    using fail_all_futures [OF ok] pend [OF that] d by (auto simp: future_get_def split: option.splits)
  ultimately show ?thesis by blast
qed

end

end
