(* ===== verification/Keepalive.thy ===== *)
theory Keepalive
  imports IO_Thread Dispatcher_Spec
begin

text \<open>
  The two halves of the heartbeat protocol in \<open>client.cpp\<close>. The heartbeat thread keeps the connection
  alive: over any number of its rounds, the client is never silent for longer than the negotiated
  interval and one period of the thread. The I/O thread notices that the server is gone: when nothing
  arrives any more it gives up after two intervals and at most one more receive timeout.
\<close>

section \<open>The heartbeat thread\<close>

text \<open>\<open>n\<close> rounds of its loop: the sleep, during which the other threads run, and the check.\<close>

fun heartbeat_rounds :: "'w os \<Rightarrow> 'w env \<Rightarrow> nat \<Rightarrow> 'w st \<Rightarrow> 'w st option" where
  "heartbeat_rounds os env 0 st = Some st"
| "heartbeat_rounds os env (Suc n) st =
     (case heartbeat_tick os (env_sleep env st) of
        None \<Rightarrow> None
      | Some st' \<Rightarrow> heartbeat_rounds os env n st')"

text \<open>
  The other threads do not stop the client, leave the socket and the negotiated interval alone, and
  only move the time of the last outbound frame forward.
\<close>

definition others_send :: "'w env \<Rightarrow> bool" where
  "others_send env \<longleftrightarrow>
     (\<forall>c w c1 w1. env_sleep env (c, w) = (c1, w1) \<longrightarrow>
        (cl_stop_io c1 \<longrightarrow> cl_stop_io c) \<and> cl_sock c1 = cl_sock c \<and> (cl_writer c \<longrightarrow> cl_writer c1) \<and>
        cl_negotiated_heartbeat c1 = cl_negotiated_heartbeat c \<and> cl_last_outbound_at c \<le> cl_last_outbound_at c1)"

text \<open>From one check of the thread to the next (its sleep and its write) at most \<open>d\<close> passes.\<close>

definition paced :: "'w os \<Rightarrow> 'w env \<Rightarrow> int \<Rightarrow> bool" where
  "paced os env d \<longleftrightarrow>
     (\<forall>st st'. heartbeat_tick os st = Some st' \<longrightarrow>
        fst (os_now os (snd (env_sleep env st'))) \<le> fst (os_now os (snd st)) + d)"

text \<open>At the next check the last outbound frame is less than the interval and one period ago.\<close>

definition on_time :: "'w os \<Rightarrow> 'w env \<Rightarrow> int \<Rightarrow> 'w st \<Rightarrow> bool" where
  "on_time os env d st \<longleftrightarrow>
     fst (os_now os (snd (env_sleep env st))) - cl_last_outbound_at (fst st) <
       seconds (uint (cl_negotiated_heartbeat (fst st))) + d"

lemma heartbeat_frame_bytes: "heartbeat_frame = [0, 0, 0, 4, 0, 0x17, 0, 1]"
  by (simp add: heartbeat_frame_def hb.body_eq enc_Heartbeat_def encode_oneway_frame_enc enc_frame_def
      frame_size_def enc_cid_def wire_consts be_split_widths byte_at_def)

lemma heartbeat_tick_done:
  assumes "tcp_stream os (sock_fd (cl_sock c)) out inp" and "interrupts_bounded os (sock_fd (cl_sock c)) budget"
    and "send_accepts os (sock_fd (cl_sock c))" and "now_keeps os out" and "cl_writer c" and "os_now os w = (now, w1)"
  shows "\<exists>c' w'. heartbeat_tick os (c, w) = Some (c', w') \<and>
    (if cl_stop_io c then c' = c\<lparr>cl_heartbeat_thread := False\<rparr> \<and> w' = w
     else if now - cl_last_outbound_at c \<ge> seconds (uint (cl_negotiated_heartbeat c))
     then c' = c\<lparr>cl_last_outbound_at := now\<rparr> \<and> out w' = out w @ [0, 0, 0, 4, 0, 0x17, 0, 1]
     else c' = c \<and> out w' = out w)"
proof -
  obtain w2 where wr: "write_all os (cl_sock c) heartbeat_frame w1 = Some (Ok (), w2)"
    unfolding write_all_def using write_all_loop_succeeds [OF assms(2,3)] by blast
  have "out w1 = out w" by (rule now_keepsD [OF assms(4,6)])
  moreover have "out w2 = out w1 @ heartbeat_frame" using tcp_write(2) [OF wr assms(1)] by simp
  ultimately show ?thesis
    using wr assms(5,6) by (simp add: heartbeat_tick_def Let_def heartbeat_frame_bytes)
qed

lemma heartbeat_tick_world:
  assumes "heartbeat_tick os (c, w) = Some (c', w')"
  obtains "w' = w" | "w' = snd (os_now os w)"
  | r where "write_all os (cl_sock c) heartbeat_frame (snd (os_now os w)) = Some (r, w')"
  using assms by (auto simp: heartbeat_tick_def Let_def case_prod_unfold split: if_splits option.splits)

text \<open>What holds before each round.\<close>

definition beating :: "'w os \<Rightarrow> 'w env \<Rightarrow> socket \<Rightarrow> u32 \<Rightarrow> int \<Rightarrow> 'w st \<Rightarrow> bool" where
  "beating os env s hb d st \<longleftrightarrow>
     \<not> cl_stop_io (fst st) \<and> cl_sock (fst st) = s \<and> cl_writer (fst st) \<and>
     cl_negotiated_heartbeat (fst st) = hb \<and> on_time os env d st"

lemma heartbeat_round_on_time:
  assumes os: "tcp_stream os (sock_fd s) out inp" "interrupts_bounded os (sock_fd s) budget"
      "send_accepts os (sock_fd s)" "now_keeps os out"
    and env: "others_send env" "paced os env d" and "0 < hb" and st: "beating os env s hb d st"
    and others: "env_sleep env st = (c1, w1)"
  shows "\<exists>c2 w2. heartbeat_tick os (c1, w1) = Some (c2, w2) \<and> beating os env s hb d (c2, w2) \<and> \<not> cl_stop_io c1 \<and>
    fst (os_now os w1) - cl_last_outbound_at c1 < seconds (uint hb) + d \<and>
    fst (os_now os w1) - cl_last_outbound_at c2 < seconds (uint hb) \<and>
    out w2 = out w1 @ (if seconds (uint hb) \<le> fst (os_now os w1) - cl_last_outbound_at c1
      then [0, 0, 0, 4, 0, 0x17, 0, 1] else [])"
proof -
  let ?now = "fst (os_now os w1)"
  have "env_sleep env (fst st, snd st) = (c1, w1)" using others by simp
  then have c1: "\<not> cl_stop_io c1" "cl_sock c1 = s" "cl_writer c1" "cl_negotiated_heartbeat c1 = hb"
    "cl_last_outbound_at (fst st) \<le> cl_last_outbound_at c1"
    using env(1) st unfolding others_send_def beating_def by blast+
  have now: "os_now os w1 = (?now, snd (os_now os w1))" by simp
  from heartbeat_tick_done [OF _ _ _ os(4) c1(3) now, of inp budget] os c1(2) obtain c2 w2 where
    tick: "heartbeat_tick os (c1, w1) = Some (c2, w2)"
    and "if seconds (uint hb) \<le> ?now - cl_last_outbound_at c1
      then c2 = c1\<lparr>cl_last_outbound_at := ?now\<rparr> \<and> out w2 = out w1 @ [0, 0, 0, 4, 0, 0x17, 0, 1]
      else c2 = c1 \<and> out w2 = out w1"
    using c1(1,4) by auto
  moreover have "0 < seconds (uint hb)" using \<open>0 < hb\<close> by (simp add: seconds_def word_less_def)
  ultimately have c2: "?now - cl_last_outbound_at c2 < seconds (uint hb)" "\<not> cl_stop_io c2" "cl_sock c2 = s" "cl_writer c2"
      "cl_negotiated_heartbeat c2 = hb"
    and "out w2 = out w1 @ (if seconds (uint hb) \<le> ?now - cl_last_outbound_at c1
      then [0, 0, 0, 4, 0, 0x17, 0, 1] else [])"
    using c1 by (auto split: if_splits)
  moreover have "on_time os env d (c2, w2)"
    using env(2) tick c2(1,5) unfolding paced_def on_time_def by fastforce
  moreover have "?now - cl_last_outbound_at c1 < seconds (uint hb) + d"
    using st others c1(5) by (auto simp: beating_def on_time_def)
  ultimately show ?thesis using tick c1(1) by (auto simp: beating_def)
qed

lemma heartbeat_rounds_on_time:
  assumes "tcp_stream os (sock_fd s) out inp" "interrupts_bounded os (sock_fd s) budget"
    "send_accepts os (sock_fd s)" "now_keeps os out" "others_send env" "paced os env d" "0 < hb"
    and "beating os env s hb d st"
  shows "\<exists>st'. heartbeat_rounds os env n st = Some st' \<and> beating os env s hb d st' \<and>
    heartbeat_loop os env st = heartbeat_loop os env st'"
  using assms(8)
proof (induction n arbitrary: st)
  case 0
  then show ?case by simp
next
  case (Suc n)
  obtain c1 w1 where o: "env_sleep env st = (c1, w1)" by fastforce
  from heartbeat_round_on_time [OF assms(1-7) Suc.prems o] obtain c2 w2 where
    2: "heartbeat_tick os (c1, w1) = Some (c2, w2)" "beating os env s hb d (c2, w2)" "\<not> cl_stop_io c1" by blast
  have "\<not> cl_stop_io (fst st)" using Suc.prems by (simp add: beating_def)
  then have "heartbeat_loop os env st = heartbeat_loop os env (c2, w2)"
    using o 2(1,3) by (subst heartbeat_loop.simps) simp
  with Suc.IH [OF 2(2)] o 2(1) show ?case by simp
qed

section \<open>A server that has gone silent\<close>

text \<open>
  Every \<open>recv\<close> runs into its timeout. Between the reading of the clock before it and the next one at
  least \<open>lo\<close> and at most \<open>hi\<close> passes.
\<close>

definition silent :: "'w os \<Rightarrow> int \<Rightarrow> int \<Rightarrow> int \<Rightarrow> bool" where
  "silent os fd lo hi \<longleftrightarrow>
     (\<forall>k w r bs en w'. 0 < k \<and> os_recv os fd k (snd (os_now os w)) = ((r, bs, en), w') \<longrightarrow>
        r < 0 \<and> (en = EAGAIN \<or> en = EWOULDBLOCK) \<and>
        fst (os_now os w) + lo \<le> fst (os_now os w') \<and> fst (os_now os w') \<le> fst (os_now os w) + hi)"

lemma read_frame_silent:
  assumes "silent os (sock_fd s) lo hi"
  shows "\<exists>w'. read_frame os s (snd (os_now os w)) = Some (Err (StreamError RequestTimeout ''recv timeout''), w') \<and>
    fst (os_now os w) + lo \<le> fst (os_now os w') \<and> fst (os_now os w') \<le> fst (os_now os w) + hi"
proof -
  obtain r bs en w' where recv: "os_recv os (sock_fd s) 4 (snd (os_now os w)) = ((r, bs, en), w')"
    by (metis prod.exhaust)
  then have "r < 0" "en = EAGAIN \<or> en = EWOULDBLOCK"
    "fst (os_now os w) + lo \<le> fst (os_now os w')" "fst (os_now os w') \<le> fst (os_now os w) + hi"
    using assms unfolding silent_def by (meson zero_less_numeral)+
  moreover from this(1,2) recv
  have "read_exact os s 4 ReturnTimeout (snd (os_now os w)) =
      Some (Err (StreamError RequestTimeout ''recv timeout''), w')"
    unfolding read_exact_def by (subst read_exact_loop.simps) auto
  ultimately show ?thesis by (simp add: read_frame_def)
qed

text \<open>The last round of the loop, and a round within the two intervals.\<close>

lemma io_loop_silent_end:
  assumes "\<And>st. env_others env st = st" and "\<not> cl_stop_io c" and "0 < cl_negotiated_heartbeat c"
    and "read_frame os (cl_sock c) w = Some (Err (StreamError RequestTimeout msg), w1)"
    and "cl_last_inbound_at c + dead_interval c < fst (os_now os w1)"
  shows "io_loop os env (c, w) = Some (io_exit (notify_unexpected_close heartbeat_lost
    (client_fail_all heartbeat_timeout c)), snd (os_now os w1))"
  using assms by (subst io_loop.simps) (simp add: io_handle_def Let_def case_prod_unfold)

lemma io_loop_silent_round:
  assumes "\<And>st. env_others env st = st" and "\<not> cl_stop_io c"
    and "read_frame os (cl_sock c) w = Some (Err (StreamError RequestTimeout msg), w1)"
    and "fst (os_now os w1) \<le> cl_last_inbound_at c + dead_interval c"
  shows "io_loop os env (c, w) = io_loop os env (client_reap (fst (os_now os w1)) c, snd (os_now os w1))"
  using assms by (subst io_loop.simps) (simp add: io_handle_def Let_def case_prod_unfold)

lemma io_loop_silent:
  assumes silent: "silent os (sock_fd s) lo hi" "0 < lo" and idle: "\<And>st. env_others env st = st"
    and c: "\<not> cl_stop_io c" "0 < cl_negotiated_heartbeat c" "cl_sock c = s"
    and alive: "fst (os_now os w) \<le> cl_last_inbound_at c + dead_interval c"
  shows "\<exists>ns u. io_loop os env (c, snd (os_now os w)) = Some (io_exit (notify_unexpected_close heartbeat_lost
      (client_fail_all heartbeat_timeout (fold client_reap ns c))), snd (os_now os u)) \<and>
    (\<forall>n\<in>set ns. n \<le> cl_last_inbound_at c + dead_interval c) \<and>
    cl_last_inbound_at c + dead_interval c < fst (os_now os u) \<and>
    fst (os_now os u) \<le> cl_last_inbound_at c + dead_interval c + hi"
  using c alive
proof (induction "nat (cl_last_inbound_at c + dead_interval c - fst (os_now os w))" arbitrary: c w rule: less_induct)
  case less
  let ?limit = "cl_last_inbound_at c + dead_interval c"
  obtain w1 where rd: "read_frame os (cl_sock c) (snd (os_now os w)) = Some (Err (StreamError RequestTimeout ''recv timeout''), w1)"
    and t: "fst (os_now os w) + lo \<le> fst (os_now os w1)" "fst (os_now os w1) \<le> fst (os_now os w) + hi"
    using read_frame_silent [OF silent(1)] less.prems(3) by blast
  show ?case
  proof (cases "fst (os_now os w1) \<le> ?limit")
    case False
    then have "io_loop os env (c, snd (os_now os w)) = Some (io_exit (notify_unexpected_close heartbeat_lost
        (client_fail_all heartbeat_timeout (fold client_reap [] c))), snd (os_now os w1))"
      using io_loop_silent_end [OF idle less.prems(1,2) rd] by simp
    moreover have "?limit < fst (os_now os w1)" "fst (os_now os w1) \<le> ?limit + hi" using False t(2) less.prems(4) by simp_all
    ultimately show ?thesis by (intro exI [of _ "[]"] exI [of _ w1]) simp
  next
    case True
    let ?c1 = "client_reap (fst (os_now os w1)) c"
    have c1: "\<not> cl_stop_io ?c1" "0 < cl_negotiated_heartbeat ?c1" "cl_sock ?c1 = s"
      "cl_last_inbound_at ?c1 + dead_interval ?c1 = ?limit"
      using less.prems(1-3) by (simp_all add: client_reap_def dead_interval_def)
    have "nat (?limit - fst (os_now os w1)) < nat (?limit - fst (os_now os w))"
      using t(1) silent(2) less.prems(4) True by simp
    from less.hyps [of ?c1 w1, unfolded c1(4), OF this c1(1-3) True] obtain ns u where
      ns: "io_loop os env (?c1, snd (os_now os w1)) = Some (io_exit (notify_unexpected_close heartbeat_lost
        (client_fail_all heartbeat_timeout (fold client_reap ns ?c1))), snd (os_now os u))"
      "\<forall>n\<in>set ns. n \<le> ?limit" "?limit < fst (os_now os u)" "fst (os_now os u) \<le> ?limit + hi" by blast
    with io_loop_silent_round [OF idle less.prems(1) rd True] True show ?thesis
      by (intro exI [of _ "fst (os_now os w1) # ns"] exI [of _ u]) simp
  qed
qed

section \<open>What becomes of the requests\<close>

lemma fold_reap_fields [simp]:
  "cl_state (fold client_reap ns c) = cl_state c" "cl_callbacks (fold client_reap ns c) = cl_callbacks c"
  "cl_unexpected_fired (fold client_reap ns c) = cl_unexpected_fired c"
  "cl_on_unexpected_close (fold client_reap ns c) = cl_on_unexpected_close c"
  by (induction ns arbitrary: c) (simp_all add: client_reap_def)

lemma fold_reap_steps: "client_steps c (fold client_reap ns c)"
proof (induction ns arbitrary: c)
  case (Cons n ns)
  have "client_step c (client_reap n c)" by (rule client_step.reap)
  with Cons [of "client_reap n c"] show ?case by (simp add: converse_rtranclp_into_rtranclp)
qed simp

text \<open>A pending request is still pending after any number of rounds, or it has timed out.\<close>

lemma fold_reap_entry:
  assumes "client_ok c" and "(cid, e) \<in> set (ds_pending (cl_dispatcher c))"
  shows "if \<exists>n\<in>set ns. pe_deadline e \<le> n
    then ds_shared (cl_dispatcher (fold client_reap ns c)) ! pe_promise e = Ready (Err request_timed_out)
    else (cid, e) \<in> set (ds_pending (cl_dispatcher (fold client_reap ns c)))"
  using assms
proof (induction ns arbitrary: c)
  case Nil
  then show ?case by simp
next
  case (Cons n ns)
  let ?c1 = "client_reap n c"
  have ok: "dispatcher_ok (cl_dispatcher c)" using Cons.prems(1) by (simp add: client_ok_def)
  have ok1: "client_ok ?c1" using client_steps_ok [OF fold_reap_steps [of c "[n]"] Cons.prems(1)] by simp
  show ?case
  proof (cases "pe_deadline e \<le> n")
    case True
    have "pe_promise e < length (ds_shared (cl_dispatcher c))"
      using owned_pendingD [OF ok Cons.prems(2)] by (simp add: unsettled_def)
    then have p: "pe_promise e < length (ds_shared (cl_dispatcher ?c1))"
      by (simp add: client_reap_def reap_expired_eq Let_def)
    have "ds_shared (cl_dispatcher ?c1) ! pe_promise e = Ready (Err request_timed_out)"
      using reap_expired_resolves [OF ok Cons.prems(2), of n] True by (simp add: client_reap_def)
    then have "ds_shared (cl_dispatcher (fold client_reap ns ?c1)) ! pe_promise e = Ready (Err request_timed_out)"
      using client_steps_ok [OF fold_reap_steps [of ?c1 ns] ok1] p by (auto simp: settles_once_def)
    with True show ?thesis by simp
  next
    case False
    then have "(cid, e) \<in> set (ds_pending (cl_dispatcher ?c1))"
      using Cons.prems(2) by (simp add: client_reap_def reap_expired_pending)
    with Cons.IH [OF ok1] False show ?thesis by simp
  qed
qed

lemma silent_outcome:
  fixes c :: "'w client" and ns :: "int list"
  assumes ok: "client_ok c" and e: "(cid, e) \<in> set (ds_pending (cl_dispatcher c))"
  defines "c' \<equiv> io_exit (notify_unexpected_close heartbeat_lost (client_fail_all heartbeat_timeout (fold client_reap ns c)))"
  shows "ds_shared (cl_dispatcher c') ! pe_promise e =
    Ready (Err (if \<exists>n\<in>set ns. pe_deadline e \<le> n then request_timed_out else heartbeat_timeout))"
proof -
  let ?c1 = "fold client_reap ns c"
  have ok1: "dispatcher_ok (cl_dispatcher ?c1)" and once: "settles_once (cl_dispatcher c) (cl_dispatcher ?c1)"
    using client_steps_ok [OF fold_reap_steps [of c ns] ok] by (auto simp: client_ok_def)
  have d: "cl_dispatcher c' = fail_all_pending heartbeat_timeout (cl_dispatcher ?c1)"
    unfolding c'_def
    by (simp add: io_exit_def notify_unexpected_close_def client_fail_all_def Let_def split: option.split)
  have "pe_promise e < length (ds_shared (cl_dispatcher ?c1))"
    using owned_pendingD [OF _ e, of "[]"] ok once by (auto simp: client_ok_def unsettled_def settles_once_def)
  then show ?thesis
    using fold_reap_entry [OF ok e, of ns] fail_all_pending.ready_stays [OF ok1] fail_all_resolves [OF ok1]
    by (auto simp: d split: if_splits)
qed

end
