(* ===== verification/Simulation.thy ===== *)
theory Simulation
  imports Getting_Started Keepalive
begin

text \<open>
  A concrete operating system and a concrete schedule of the other threads, on which the
  definitions can be run. The calls behave badly within their contract: \<open>send\<close> accepts at most seven
  bytes and \<open>recv\<close> returns at most five, signals interrupt both, and the first addresses refuse the
  connection. The lemmas discharge the hypotheses of \<open>Socket\<close>, \<open>Handshake\<close> and \<open>Client\<close> for it, so no
  theorem that uses them is empty.
\<close>

section \<open>The world\<close>

record sim =
  sim_out :: bytes
  sim_in :: bytes
  sim_signals :: nat
  sim_fds :: "int list"
  sim_refuse :: nat
  sim_clock :: int
  sim_tty :: string

definition sim_start :: "bytes \<Rightarrow> sim" where
  "sim_start bs =
     \<lparr>sim_out = [], sim_in = bs, sim_signals = 2, sim_fds = [0, 1, 2], sim_refuse = 1, sim_clock = 0,
      sim_tty = []\<rparr>"

definition sim_fresh :: "int list \<Rightarrow> int" where
  "sim_fresh fds = 1 + foldr max fds 0"

definition sim_send :: "bytes \<Rightarrow> sim \<Rightarrow> (int \<times> errno) \<times> sim" where
  "sim_send data w =
     (if 0 < sim_signals w then ((-1, EINTR), w\<lparr>sim_signals := sim_signals w - 1\<rparr>)
      else ((int (length (take 7 data)), EOTHER 0), w\<lparr>sim_out := sim_out w @ take 7 data\<rparr>))"

definition sim_recv :: "nat \<Rightarrow> sim \<Rightarrow> (int \<times> bytes \<times> errno) \<times> sim" where
  "sim_recv k w =
     (if 0 < sim_signals w then ((-1, [], EINTR), w\<lparr>sim_signals := sim_signals w - 1\<rparr>)
      else let bs = take (min k 5) (sim_in w) in
        if bs = [] then ((-1, [], EAGAIN), w)
        else ((int (length bs), bs, EOTHER 0), w\<lparr>sim_in := drop (min k 5) (sim_in w)\<rparr>))"

definition sim_addr :: "int \<Rightarrow> ResolvedAddr" where
  "sim_addr family = \<lparr>ra_family = family, ra_socktype = 1, ra_protocol = 6, ra_sockaddr = [127, 0, 0, 1]\<rparr>"

definition sim_os :: "sim os" where
  "sim_os =
     \<lparr>os_getaddrinfo = (\<lambda>host port w. ((0, [sim_addr 10, sim_addr 2]), w)),
      os_gai_strerror = (\<lambda>rc. ''error''),
      os_socket = (\<lambda>f t p w. (sim_fresh (sim_fds w), w\<lparr>sim_fds := sim_fresh (sim_fds w) # sim_fds w\<rparr>)),
      os_fcntl_getfl = (\<lambda>fd w. (2, w)),
      os_fcntl_setfl = (\<lambda>fd fl w. (0, w)),
      os_O_NONBLOCK = 2048,
      os_connect = (\<lambda>fd a w.
        if 0 < sim_refuse w then ((-1, EOTHER 111), w\<lparr>sim_refuse := sim_refuse w - 1\<rparr>)
        else ((-1, EINPROGRESS), w)),
      os_poll_out = (\<lambda>fd ms w. (1, w)),
      os_getsockopt_error = (\<lambda>fd w. ((0, 0), w)),
      os_setsockopt_rcvtimeo = (\<lambda>fd s us w. (0, w)),
      os_close = (\<lambda>fd w. w\<lparr>sim_fds := removeAll fd (sim_fds w)\<rparr>),
      os_send = (\<lambda>fd. sim_send),
      os_recv = (\<lambda>fd. sim_recv),
      os_strerror = (\<lambda>en. ''error''),
      os_now = (\<lambda>w. (sim_clock w, w\<lparr>sim_clock := sim_clock w + 1000\<rparr>))\<rparr>"

text \<open>While an application thread waits, the I/O thread handles the next frame.\<close>

abbreviation sim_env :: "sim env" where
  "sim_env \<equiv> serving sim_os"

definition sim_socket :: socket where
  "sim_socket = \<lparr>sock_fd = 3\<rparr>"

text \<open>
  The same machine on a good day: the first address accepts, and the clock stops after nine seconds, so
  nothing times out. The terminal shows what is written to either stream.
\<close>

definition calm_os :: "sim os" where
  "calm_os = sim_os
     \<lparr>os_socket := (\<lambda>f t p w. (sock_fd sim_socket, w\<lparr>sim_fds := sock_fd sim_socket # sim_fds w\<rparr>)),
      os_connect := (\<lambda>fd a w. ((-1, EINPROGRESS), w)),
      os_now := (\<lambda>w. (max 0 (min (sim_clock w) 9000000000), w\<lparr>sim_clock := sim_clock w + 1000\<rparr>))\<rparr>"

text \<open>The same machine with a server that closes the connection after its last byte: \<open>recv\<close> then returns 0.\<close>

definition closing_os :: "sim os" where
  "closing_os = calm_os
     \<lparr>os_recv := (\<lambda>fd k w.
        if 0 < k \<and> sim_in w = [] \<and> sim_signals w = 0 then ((0, [], EOTHER 0), w) else sim_recv k w)\<rparr>"

text \<open>And with a server that has gone silent: \<open>recv\<close> times out after fifteen seconds, half the heartbeat interval.\<close>

definition silent_os :: "sim os" where
  "silent_os = sim_os\<lparr>os_recv := (\<lambda>fd k w. ((-1, [], EAGAIN), w\<lparr>sim_clock := sim_clock w + 15000000000\<rparr>))\<rparr>"

definition sim_stdio :: "sim stdio" where
  "sim_stdio =
     \<lparr>std_cout = (\<lambda>s w. w\<lparr>sim_tty := sim_tty w @ s\<rparr>), std_cerr = (\<lambda>s w. w\<lparr>sim_tty := sim_tty w @ s\<rparr>)\<rparr>"

section \<open>The hypotheses hold\<close>

lemma sim_start_fields [simp]:
  "sim_out (sim_start bs) = []" "sim_in (sim_start bs) = bs" "sim_fds (sim_start bs) = [0, 1, 2]"
  "sim_clock (sim_start bs) = 0"
  by (simp_all add: sim_start_def)

lemma sim_fresh_bound: "fd \<in> set fds \<Longrightarrow> fd < sim_fresh fds" "0 < sim_fresh fds"
proof -
  have "x \<in> set xs \<Longrightarrow> x \<le> foldr max xs 0" for x :: int and xs
    by (induction xs) auto
  then show "fd \<in> set fds \<Longrightarrow> fd < sim_fresh fds" by (fastforce simp: sim_fresh_def)
  have "0 \<le> foldr max xs (0 :: int)" for xs by (induction xs) auto
  then show "0 < sim_fresh fds" by (simp add: sim_fresh_def add_pos_nonneg)
qed

lemma sim_tcp_stream: "tcp_stream sim_os fd sim_out sim_in"
proof -
  have "take (min (length data) 7) data = take 7 data" for data :: bytes
    by (simp add: min_def)
  then have "send_appends sim_os fd sim_out" "send_keeps sim_os fd sim_in"
    by (auto simp: send_appends_def send_keeps_def sim_os_def sim_send_def split: if_splits)
  moreover have "recv_keeps sim_os fd sim_out"
    by (auto simp: recv_keeps_def sim_os_def sim_recv_def Let_def)
  moreover have "recv_takes sim_os fd sim_in"
    unfolding recv_takes_def
    by (auto simp: sim_os_def sim_recv_def Let_def split: if_splits)
  ultimately show ?thesis by (simp add: tcp_stream_def)
qed

lemma sim_interrupts_bounded: "interrupts_bounded sim_os fd sim_signals"
  by (auto simp: interrupts_bounded_def sim_os_def sim_send_def sim_recv_def Let_def split: if_splits)

lemma sim_recv_delivers: "recv_delivers sim_os fd sim_in"
  by (auto simp: recv_delivers_def sim_os_def sim_recv_def Let_def split: if_splits)

lemma sim_send_accepts: "send_accepts sim_os fd"
  by (auto simp: send_accepts_def sim_os_def sim_send_def split: if_splits)

lemma sim_fd_table: "fd_table sim_os (\<lambda>w. set (sim_fds w))"
proof -
  have "sim_fresh fds \<notin> set fds" "0 \<le> sim_fresh fds" for fds
    using sim_fresh_bound(1) [of "sim_fresh fds" fds] sim_fresh_bound(2) [of fds] by auto
  then show ?thesis by (simp add: fd_table_def sim_os_def)
qed

lemma sim_now_keeps: "now_keeps sim_os sim_out" "now_keeps sim_os sim_in"
  by (simp_all add: now_keeps_def sim_os_def)

lemma sim_session: "cfg_log cfg = null_logger \<Longrightarrow> session sim_os s cfg sim_out sim_in"
  by (simp add: session_def sim_tcp_stream log_keeps_def null_logger_def)

lemma sim_healthy: "healthy sim_os s sim_in sim_signals"
  by (simp add: healthy_def sim_interrupts_bounded sim_recv_delivers sim_send_accepts)

lemma calm_connection: "connection calm_os s sim_out sim_in sim_signals"
proof -
  have "tcp_stream calm_os fd out inp = tcp_stream sim_os fd out inp" for fd out inp
    by (simp add: tcp_stream_def send_appends_def recv_takes_def send_keeps_def recv_keeps_def calm_os_def)
  moreover have "healthy calm_os s inp budget = healthy sim_os s inp budget" for inp budget
    by (simp add: healthy_def interrupts_bounded_def recv_delivers_def send_accepts_def calm_os_def)
  moreover have "now_keeps calm_os sim_out" "now_keeps calm_os sim_in"
    by (simp_all add: now_keeps_def calm_os_def)
  ultimately show ?thesis by (simp add: connection_def sim_tcp_stream sim_healthy)
qed

lemma closing_connection: "connection closing_os s sim_out sim_in sim_signals"
proof -
  let ?fd = "sock_fd s"
  have calm: "tcp_stream calm_os ?fd sim_out sim_in" "healthy calm_os s sim_in sim_signals"
    "now_keeps calm_os sim_out" "now_keeps calm_os sim_in"
    using calm_connection by (auto simp: connection_def)
  have "send_appends closing_os ?fd sim_out" "send_keeps closing_os ?fd sim_in" "send_accepts closing_os ?fd"
    "now_keeps closing_os sim_out" "now_keeps closing_os sim_in"
    using calm by (simp_all add: tcp_stream_def healthy_def send_appends_def send_keeps_def send_accepts_def
        now_keeps_def closing_os_def)
  moreover have "recv_keeps closing_os ?fd sim_out"
    by (auto simp: recv_keeps_def closing_os_def sim_recv_def Let_def)
  moreover have "recv_takes closing_os ?fd sim_in"
    unfolding recv_takes_def by (auto simp: closing_os_def sim_recv_def Let_def split: if_splits)
  moreover have "recv_delivers closing_os ?fd sim_in"
    unfolding recv_delivers_def by (auto simp: closing_os_def sim_recv_def Let_def split: if_splits)
  moreover have "interrupts_bounded closing_os ?fd sim_signals"
    using calm(2) unfolding healthy_def interrupts_bounded_def
    by (auto simp: closing_os_def sim_recv_def Let_def split: if_splits)
  ultimately show ?thesis by (simp add: connection_def tcp_stream_def healthy_def)
qed

lemma silent_os_silent: "silent silent_os fd 15000001000 15000001000"
  by (simp add: silent_def silent_os_def sim_os_def)

lemma sim_clock_keeps: "send_keeps sim_os fd sim_clock" "recv_keeps sim_os fd sim_clock"
  by (auto simp: send_keeps_def recv_keeps_def sim_os_def sim_send_def sim_recv_def Let_def)

lemma sim_paced: "paced sim_os sim_env 1000"
  unfolding paced_def
proof (intro allI impI)
  fix st st'
  assume "heartbeat_tick sim_os st = Some st'"
  then have tick: "heartbeat_tick sim_os (fst st, snd st) = Some (fst st', snd st')" by simp
  have now: "sim_clock (snd (os_now sim_os w)) = sim_clock w + 1000" for w by (simp add: sim_os_def)
  from tick have "sim_clock (snd st') \<le> sim_clock (snd st) + 1000"
  proof (cases rule: heartbeat_tick_world)
    case (3 r)
    from write_all_keeps [OF 3 sim_clock_keeps(1)] now show ?thesis by simp
  qed (simp_all add: now)
  then show "fst (os_now sim_os (snd (env_sleep sim_env st'))) \<le> fst (os_now sim_os (snd st)) + 1000"
    by (simp add: sim_os_def)
qed

lemma closing_recv_ends: "recv_ends closing_os fd sim_in"
  by (auto simp: recv_ends_def closing_os_def sim_recv_def)

lemma calm_clock: "clock_within calm_os 0 (ms 10000)"
  by (simp add: clock_within_def calm_os_def ms_def min_def)

lemma calm_accepts: "accepts_connections calm_os sim_socket (\<lambda>w. (sim_out w, sim_in w))"
  by (simp add: accepts_connections_def calm_os_def sim_os_def sim_socket_def)

lemma sim_prints: "prints_keep sim_stdio (\<lambda>w. (sim_out w, sim_in w))"
  by (simp add: prints_keep_def sim_stdio_def)

lemma calm_close: "sim_out (os_close calm_os fd w) = sim_out w"
  by (simp add: calm_os_def sim_os_def)

text \<open>
  A busy schedule: the heartbeat thread checks three times in every wait, and \<open>join\<close> finds the I/O thread in
  a read that runs into its timeout.
\<close>

definition busy :: "sim schedule" where
  "busy = \<lparr>sc_checks = (\<lambda>st. 3), sc_blocked = (\<lambda>st. Some (Err (StreamError RequestTimeout ''recv timeout'')))\<rparr>"

lemma busy_window: "ms 10000 \<le> seconds 30"
  by (simp add: ms_def seconds_def)

interpretation calm: served_session calm_os sim_socket default_config sim_out sim_in sim_signals 0 busy 30
  by unfold_locales
    (simp_all add: calm_connection calm_clock calm_close log_keeps_def default_config_def null_logger_def busy_window)

interpretation calm_example: example_session calm_os sim_socket sim_stdio sim_out sim_in sim_signals 0 busy 30
  using sim_prints calm_clock calm_connection calm_close calm_accepts
  by unfold_locales
    (simp_all add: example_config_def log_keeps_def make_logger_def Let_def prints_keep_def busy_window)

end
