(* ===== verification/Server_Script.thy ===== *)
theory Server_Script
  imports Session
begin

text \<open>
  The frames of a server that follows the protocol, built from the values it wants to convey: every body
  is exactly the encoding of its message and every response carries the correlation id of its request. The
  specification of the handshake in \<open>Handshake\<close> gives such a script the result one reads off the values.
  The decoders accept more than these frames: bytes after the last field of a body are ignored.
\<close>

section \<open>A server that follows the protocol\<close>

record server_answers =
  sa_properties :: "key_value list"
  sa_mechanisms :: "string list"
  sa_challenges :: "bytes option list"
  sa_final :: "bytes option"
  sa_tune :: Tune
  sa_connection :: "key_value list"

definition sasl_answer :: "u32 \<Rightarrow> u16 \<Rightarrow> bytes option \<Rightarrow> incoming_frame" where
  "sasl_answer cid code data = response_frame SaslAuthenticateResponse_kKey cid
     (enc_SaslAuthenticateResponse \<lparr>sar_response_code = code, sar_sasl_opaque_data = data\<rparr>)"

fun challenge_frames :: "u32 \<Rightarrow> bytes option list \<Rightarrow> incoming_frame list" where
  "challenge_frames cid [] = []"
| "challenge_frames cid (d # ds) = sasl_answer cid rc_SaslChallenge d # challenge_frames (cid + 1) ds"

definition accepting_script :: "server_answers \<Rightarrow> server_script" where
  "accepting_script a =
     (let n = word_of_nat (length (sa_challenges a)) :: u32 in
      \<lparr>sv_peer_properties = response_frame PeerPropertiesResponse_kKey 1
         (enc_PeerPropertiesResponse \<lparr>ppr_response_code = rc_Ok, ppr_properties = sa_properties a\<rparr>),
       sv_sasl_handshake = response_frame SaslHandshakeResponse_kKey 2
         (enc_SaslHandshakeResponse \<lparr>shr_response_code = rc_Ok, shr_mechanisms = sa_mechanisms a\<rparr>),
       sv_challenges = challenge_frames 3 (sa_challenges a),
       sv_authenticated = sasl_answer (3 + n) rc_Ok (sa_final a),
       sv_tune = \<lparr>fr_key = Tune_kKey, fr_version = 1, fr_body = enc_Tune (sa_tune a), fr_cid = None\<rparr>,
       sv_open = response_frame OpenResponse_kKey (4 + n)
         (enc_OpenResponse \<lparr>opr_response_code = rc_Ok, opr_connection_properties = sa_connection a\<rparr>)\<rparr>)"

text \<open>The values can be encoded, the frames fit their size field, and \<open>PLAIN\<close> is offered.\<close>

definition answers_ok :: "server_answers \<Rightarrow> bool" where
  "answers_ok a \<longleftrightarrow>
     valid_kvs (sa_properties a) \<and> length (enc_kvs (sa_properties a)) < 2 ^ 31 \<and>
     valid_strings (sa_mechanisms a) \<and> length (enc_strings (sa_mechanisms a)) < 2 ^ 31 \<and>
     ''PLAIN'' \<in> set (sa_mechanisms a) \<and>
     (\<forall>d\<in>insert (sa_final a) (set (sa_challenges a)). valid_bytes d) \<and>
     valid_kvs (sa_connection a) \<and> length (enc_kvs (sa_connection a)) < 2 ^ 31"

text \<open>What the client makes of them.\<close>

definition accepted_result :: "'w ConnectionConfig \<Rightarrow> server_answers \<Rightarrow> HandshakeResult" where
  "accepted_result cfg a =
     \<lparr>hr_negotiated_frame_max =
        negotiate_frame_max (tune_frame_max (sa_tune a)) (cfg_requested_frame_max_bytes cfg),
      hr_negotiated_heartbeat =
        negotiate_heartbeat (tune_heartbeat (sa_tune a)) (cfg_requested_heartbeat_seconds cfg),
      hr_server_properties = sa_properties a, hr_connection_properties = sa_connection a\<rparr>"

context response_command
begin

lemma answer_of_response:
  assumes "valid x" and "8 + length (enc x) < 2 ^ 32"
  shows "answer_of (response_frame kKey cid (enc x)) kKey cid rd = Some x"
  using assms body_decodes [OF assms(1)] response_key
  by (simp add: answer_of_Some response_frame_def valid_frame_def frame_size_def enc_cid_def)

text \<open>Bytes after the last field of a body are not noticed.\<close>

lemma answer_of_longer:
  assumes "valid x" and "8 + length (enc x @ extra) < 2 ^ 32"
  shows "answer_of (response_frame kKey cid (enc x @ extra)) kKey cid rd = Some x"
  using assms rd_enc [OF assms(1), of "[]" extra] response_key
  by (simp add: answer_of_Some response_frame_def valid_frame_def frame_size_def enc_cid_def reader_of_at)

end

lemma sasl_answer_code:
  assumes "valid_bytes d"
  shows "sasl_code (sasl_answer cid code d) cid = Some code"
proof -
  have "8 + length (enc_SaslAuthenticateResponse \<lparr>sar_response_code = code, sar_sasl_opaque_data = d\<rparr>) < 2 ^ 32"
    using assms by (cases d) (simp_all add: enc_SaslAuthenticateResponse_def enc_bytes_def valid_bytes_def)
  with sar.answer_of_response [of "\<lparr>sar_response_code = code, sar_sasl_opaque_data = d\<rparr>" cid] assms show ?thesis
    by (simp add: sasl_code_def sasl_answer_def valid_SaslAuthenticateResponse_def)
qed

lemma challenge_frames_length [simp]: "length (challenge_frames cid ds) = length ds"
  by (induction ds arbitrary: cid) simp_all

lemma challenge_frames_challenged: "\<forall>d\<in>set ds. valid_bytes d \<Longrightarrow> challenged cid (challenge_frames cid ds)"
  by (induction ds arbitrary: cid) (simp_all add: sasl_answer_code)

lemma accepting_script_result:
  assumes "answers_ok a" and "open_fits cfg (hr_negotiated_frame_max (accepted_result cfg a))"
  shows "script_result cfg (accepting_script a) = Some (accepted_result cfg a)"
proof -
  let ?sv = "accepting_script a"
  have peer: "script_peer ?sv = Some (sa_properties a)"
    using ppr.answer_of_response [of "\<lparr>ppr_response_code = rc_Ok, ppr_properties = sa_properties a\<rparr>" 1] assms(1)
    by (simp add: script_peer_def accepting_script_def Let_def answers_ok_def valid_PeerPropertiesResponse_def
        enc_PeerPropertiesResponse_def)
  have plain: "script_plain ?sv"
    using shr.answer_of_response [of "\<lparr>shr_response_code = rc_Ok, shr_mechanisms = sa_mechanisms a\<rparr>" 2] assms(1)
    by (simp add: script_plain_def accepting_script_def Let_def answers_ok_def valid_SaslHandshakeResponse_def
        enc_SaslHandshakeResponse_def)
  have cid: "script_cid ?sv = 3 + word_of_nat (length (sa_challenges a))"
    by (simp add: script_cid_def accepting_script_def Let_def)
  have auth: "script_authenticated ?sv"
    using assms(1) unfolding script_authenticated_def cid
    by (simp add: accepting_script_def Let_def answers_ok_def sasl_answer_code challenge_frames_challenged)
  have "push_of (sv_tune ?sv) Tune_kKey Tune_decode_body = Some (sa_tune a)"
    using tune.body_decodes [of "sa_tune a"]
    by (simp add: push_of_Some accepting_script_def Let_def valid_frame_def frame_size_def enc_cid_def valid_Tune_def
        is_response_def wire_consts) (simp add: enc_Tune_def)
  then have tune: "script_tune cfg ?sv = Some (hr_negotiated_frame_max (accepted_result cfg a),
      hr_negotiated_heartbeat (accepted_result cfg a))"
    by (simp add: script_tune_def accepted_result_def)
  have "script_cid ?sv + 1 = 4 + word_of_nat (length (sa_challenges a))" unfolding cid by simp
  then have "script_open ?sv = Some (sa_connection a)"
    using opr.answer_of_response [of "\<lparr>opr_response_code = rc_Ok, opr_connection_properties = sa_connection a\<rparr>"
        "4 + word_of_nat (length (sa_challenges a))"] assms(1)
    by (simp add: script_open_def)
      (simp add: accepting_script_def Let_def answers_ok_def valid_OpenResponse_def enc_OpenResponse_def)
  with peer plain auth tune assms(2) show ?thesis by (simp add: script_result_def) (simp add: accepted_result_def)
qed

text \<open>
  The handshake also succeeds on a script whose last frame has extra bytes, although its size does not match
  what the command consumes.
\<close>

lemma longer_open_accepted:
  assumes "answers_ok a" and "open_fits cfg (hr_negotiated_frame_max (accepted_result cfg a))"
    and "length extra < 1000"
  shows "script_result cfg ((accepting_script a)\<lparr>sv_open := response_frame OpenResponse_kKey
      (4 + word_of_nat (length (sa_challenges a))) (enc_OpenResponse
        \<lparr>opr_response_code = rc_Ok, opr_connection_properties = sa_connection a\<rparr> @ extra)\<rparr>) =
    Some (accepted_result cfg a)" (is "script_result cfg ?sv = _")
proof -
  have same: "script_peer ?sv = script_peer (accepting_script a)" "script_plain ?sv = script_plain (accepting_script a)"
    "script_authenticated ?sv = script_authenticated (accepting_script a)"
    "script_tune cfg ?sv = script_tune cfg (accepting_script a)"
    by (simp_all add: script_peer_def script_plain_def script_authenticated_def script_tune_def script_cid_def)
  have "script_cid ?sv + 1 = 4 + word_of_nat (length (sa_challenges a))"
    by (simp add: script_cid_def accepting_script_def Let_def)
  then have "script_open ?sv = Some (sa_connection a)"
    using opr.answer_of_longer [of "\<lparr>opr_response_code = rc_Ok, opr_connection_properties = sa_connection a\<rparr>" extra
        "4 + word_of_nat (length (sa_challenges a))"] assms(1,3)
    by (simp add: script_open_def) (simp add: answers_ok_def valid_OpenResponse_def enc_OpenResponse_def)
  with accepting_script_result [OF assms(1,2)] show ?thesis
    by (auto simp: script_result_def accepted_result_def same split: option.splits if_splits)
qed

end
