(* ===== verification/Connection_Properties.thy ===== *)
theory Connection_Properties
  imports Simulation Server_Script "HOL-Library.Extended_Nat"
begin

text \<open>
  The properties of the byte stream and of the authentication sequence: the loops around \<open>send\<close> and
  \<open>recv\<close> return and lose no byte, frames stay in step, connecting leaks no descriptor, and
  \<open>run_handshake\<close> implements the specification \<open>script_result\<close> of the exchange in both directions.
  They are tried on \<open>sim_os\<close> and, for the handshake, on the server \<open>sim_script\<close>.
\<close>

section \<open>A server\<close>

text \<open>It asks for the credentials twice and offers smaller limits than the client.\<close>

definition sim_script :: "u16 \<Rightarrow> server_script" where
  "sim_script code =
     \<lparr>sv_peer_properties = response_frame PeerPropertiesResponse_kKey 1
        (enc_PeerPropertiesResponse \<lparr>ppr_response_code = rc_Ok, ppr_properties = []\<rparr>),
      sv_sasl_handshake = response_frame SaslHandshakeResponse_kKey 2
        (enc_SaslHandshakeResponse \<lparr>shr_response_code = rc_Ok, shr_mechanisms = [''PLAIN'']\<rparr>),
      sv_challenges = [response_frame SaslAuthenticateResponse_kKey 3
        (enc_SaslAuthenticateResponse \<lparr>sar_response_code = rc_SaslChallenge, sar_sasl_opaque_data = None\<rparr>)],
      sv_authenticated = response_frame SaslAuthenticateResponse_kKey 4
        (enc_SaslAuthenticateResponse \<lparr>sar_response_code = code, sar_sasl_opaque_data = None\<rparr>),
      sv_tune = \<lparr>fr_key = Tune_kKey, fr_version = 1,
        fr_body = enc_Tune \<lparr>tune_frame_max = 65536, tune_heartbeat = 30\<rparr>, fr_cid = None\<rparr>,
      sv_open = response_frame OpenResponse_kKey 5
        (enc_OpenResponse \<lparr>opr_response_code = rc_Ok, opr_connection_properties = []\<rparr>)\<rparr>"

definition sim_result :: HandshakeResult where
  "sim_result = \<lparr>hr_negotiated_frame_max = 65536, hr_negotiated_heartbeat = 30,
     hr_server_properties = [], hr_connection_properties = []\<rparr>"

lemma plain_valid: "valid_string ''PLAIN''"
  using is_valid_utf8_ascii [of "[80, 76, 65, 73, 78]"]
  by (simp add: valid_string_def INT16_MAX_def bytes_of_string_def byte_of_char_def)

lemma sim_script_answers:
  "script_peer (sim_script code) = Some []" "script_plain (sim_script code)"
  "challenged 3 (sv_challenges (sim_script code))" "script_cid (sim_script code) = 4"
  "sasl_code (sv_authenticated (sim_script code)) 4 = Some code"
proof -
  let ?pp = "\<lparr>ppr_response_code = rc_Ok, ppr_properties = []\<rparr>"
  have "answer_of (sv_peer_properties (sim_script code)) PeerPropertiesResponse_kKey 1
      PeerPropertiesResponse_decode_body = Some ?pp"
    using ppr.answer_of_response [of ?pp 1]
    by (simp add: sim_script_def valid_PeerPropertiesResponse_def valid_kvs_def
        enc_PeerPropertiesResponse_def enc_kvs_def)
  then show "script_peer (sim_script code) = Some []" by (simp add: script_peer_def)
  let ?sh = "\<lparr>shr_response_code = rc_Ok, shr_mechanisms = [''PLAIN'']\<rparr>"
  have "answer_of (sv_sasl_handshake (sim_script code)) SaslHandshakeResponse_kKey 2
      SaslHandshakeResponse_decode_body = Some ?sh"
    using shr.answer_of_response [of ?sh 2] plain_valid
    by (simp add: sim_script_def valid_SaslHandshakeResponse_def valid_strings_def
        enc_SaslHandshakeResponse_def enc_strings_def enc_string_def INT16_MAX_def)
  then show "script_plain (sim_script code)" by (simp add: script_plain_def)
  have sasl: "sasl_code (response_frame SaslAuthenticateResponse_kKey cid (enc_SaslAuthenticateResponse
      \<lparr>sar_response_code = rc, sar_sasl_opaque_data = None\<rparr>)) cid = Some rc" for rc cid
    using sar.answer_of_response [of "\<lparr>sar_response_code = rc, sar_sasl_opaque_data = None\<rparr>" cid]
    by (simp add: sasl_code_def valid_SaslAuthenticateResponse_def valid_bytes_def
        enc_SaslAuthenticateResponse_def enc_bytes_def)
  then show "challenged 3 (sv_challenges (sim_script code))" "script_cid (sim_script code) = 4"
    "sasl_code (sv_authenticated (sim_script code)) 4 = Some code"
    by (simp_all add: sim_script_def script_cid_def)
qed

lemma sim_script_accepted:
  assumes "cfg_virtual_host cfg = ''/''" and "cfg_requested_frame_max_bytes cfg = 1048576"
    and "cfg_requested_heartbeat_seconds cfg = 60"
  shows "script_result cfg (sim_script rc_Ok) = Some sim_result"
proof -
  let ?t = "\<lparr>tune_frame_max = 65536, tune_heartbeat = 30\<rparr> :: Tune"
  have "push_of (sv_tune (sim_script rc_Ok)) Tune_kKey Tune_decode_body = Some ?t"
    using tune.body_decodes [of ?t]
    by (simp add: push_of_Some sim_script_def valid_frame_def frame_size_def enc_cid_def valid_Tune_def
        is_response_def wire_consts) (simp add: enc_Tune_def)
  then have tune: "script_tune cfg (sim_script rc_Ok) = Some (65536, 30)"
    by (simp add: script_tune_def assms negotiate_frame_max_def negotiate_heartbeat_def)
  let ?op = "\<lparr>opr_response_code = rc_Ok, opr_connection_properties = []\<rparr>"
  have "answer_of (sv_open (sim_script rc_Ok)) OpenResponse_kKey 5 OpenResponse_decode_body = Some ?op"
    using opr.answer_of_response [of ?op 5]
    by (simp add: sim_script_def valid_OpenResponse_def valid_kvs_def enc_OpenResponse_def enc_kvs_def)
  then have "script_open (sim_script rc_Ok) = Some []"
    by (simp add: script_open_def sim_script_answers)
  moreover have "open_fits cfg 65536"
    by (simp add: open_fits_def enc_OpenRequest_def enc_string_def assms INT16_MAX_def)
  ultimately show ?thesis
    using tune sim_script_answers [of rc_Ok]
    by (simp add: script_result_def script_authenticated_def sim_result_def)
qed

lemma sim_script_result: "script_result (default_config :: 'w ConnectionConfig) (sim_script rc_Ok) = Some sim_result"
  by (rule sim_script_accepted) (simp_all add: default_config_def)

text \<open>The script with the code \<open>Ok\<close> is the one of these answers.\<close>

definition sim_answers :: server_answers where
  "sim_answers = \<lparr>sa_properties = [], sa_mechanisms = [''PLAIN''], sa_challenges = [None], sa_final = None,
     sa_tune = \<lparr>tune_frame_max = 65536, tune_heartbeat = 30\<rparr>, sa_connection = []\<rparr>"

lemma sim_answers_script: "accepting_script sim_answers = sim_script rc_Ok"
  by (simp add: accepting_script_def sim_answers_def sim_script_def sasl_answer_def Let_def)

lemma sim_answers_ok: "answers_ok sim_answers"
  using plain_valid
  by (simp add: answers_ok_def sim_answers_def valid_kvs_def valid_strings_def valid_bytes_def enc_kvs_def
      enc_strings_def enc_string_def INT16_MAX_def)

lemma sim_answers_result:
  assumes "cfg_requested_frame_max_bytes cfg = 1048576" and "cfg_requested_heartbeat_seconds cfg = 60"
  shows "accepted_result cfg sim_answers = sim_result"
  by (simp add: accepted_result_def sim_answers_def sim_result_def assms negotiate_frame_max_def
      negotiate_heartbeat_def)

lemma sim_default_session: "session sim_os s default_config sim_out sim_in"
  by (rule sim_session) (simp add: default_config_def)

section \<open>The byte stream\<close>

text \<open>
  C21. \<open>write_all\<close> returns, whatever \<open>send\<close> does short of being interrupted for ever: either every
  byte was accepted, in order, or it reports an error after a proper prefix.
\<close>

theorem write_all_total:
  assumes "send_appends os (sock_fd s) out" and "interrupts_bounded os (sock_fd s) budget"
  shows "\<exists>r w'. write_all os s data w = Some (r, w') \<and>
    (case r of
       Inr _ \<Rightarrow> out w' = out w @ data
     | Inl e \<Rightarrow> kind e \<in> {IoError, ConnectionClosed} \<and> (\<exists>k < length data. out w' = out w @ take k data))"
proof -
  obtain r w' where run: "write_all os s data w = Some (r, w')"
    using write_all_loop_returns [OF assms(2), of data 0 w] by (auto simp: write_all_def)
  from write_all_wrote [OF run assms(1)] run show ?thesis
    by (auto simp: wrote_def split: sum.splits)
qed

theorem write_all_total_witness:
  "\<exists>r w'. write_all sim_os sim_socket heartbeat_frame (sim_start []) = Some (r, w') \<and>
    (case r of
       Inr _ \<Rightarrow> sim_out w' = [] @ heartbeat_frame
     | Inl e \<Rightarrow> kind e \<in> {IoError, ConnectionClosed} \<and>
         (\<exists>k < length heartbeat_frame. sim_out w' = [] @ take k heartbeat_frame))"
proof -
  have "send_appends sim_os (sock_fd sim_socket) sim_out"
    using sim_tcp_stream by (auto simp: tcp_stream_def)
  from write_all_total [OF this sim_interrupts_bounded, of heartbeat_frame "sim_start []"] show ?thesis
    unfolding sim_start_fields .
qed

lemma read_frame_error_kinds:
  assumes "read_frame os s w = Some (Err e, w')" and "recv_takes os (sock_fd s) inp"
  shows "kind e \<in> {RequestTimeout, IoError, ConnectionClosed, ProtocolViolation, DecodeError}"
  using assms
proof (cases rule: read_frame_cases)
  case (parsed size_buf body)
  then obtain r' where "read_frame_auto (reader_of (size_buf @ body)) = (Err e, r')"
    by (metis prod.collapse)
  from read_frame_errors [OF this] show ?thesis by (auto simp: frame_too_small_def)
qed (auto simp: got_def frame_too_small_def)

text \<open>
  C9. \<open>read_frame\<close> returns and stays in step with the stream: a frame it returns is exactly the next
  bytes of the stream, and a timeout has consumed nothing, so the I/O loop can go on after it.
\<close>

theorem read_frame_in_step:
  assumes "recv_takes os (sock_fd s) inp" and "interrupts_bounded os (sock_fd s) budget"
  shows "\<exists>r w'. read_frame os s w = Some (r, w') \<and>
    (case r of
       Inr f \<Rightarrow> valid_frame f \<and> inp w = enc_frame f @ inp w'
     | Inl e \<Rightarrow> kind e \<in> {RequestTimeout, IoError, ConnectionClosed, ProtocolViolation, DecodeError} \<and>
         (kind e = RequestTimeout \<longrightarrow> inp w' = inp w))"
proof -
  obtain r w' where run: "read_frame os s w = Some (r, w')"
    using read_frame_returns [OF assms(2,1)] unfolding io_returns_def by force
  show ?thesis
  proof (cases r)
    case (Inl e)
    with run read_frame_timeout [of os s w e w' inp] read_frame_error_kinds [of os s w e w' inp] assms(1)
    show ?thesis by simp
  next
    case (Inr f)
    with run read_frame_socket_sound [of os s w f w' inp] assms(1) show ?thesis by simp
  qed
qed

theorem read_frame_in_step_witness:
  "\<exists>r w'. read_frame sim_os sim_socket (sim_start [0, 0, 0, 1, 7]) = Some (r, w') \<and>
    (case r of
       Inr f \<Rightarrow> valid_frame f \<and> [0, 0, 0, 1, 7] = enc_frame f @ sim_in w'
     | Inl e \<Rightarrow> kind e \<in> {RequestTimeout, IoError, ConnectionClosed, ProtocolViolation, DecodeError})"
proof -
  have "recv_takes sim_os (sock_fd sim_socket) sim_in"
    using sim_tcp_stream by (auto simp: tcp_stream_def)
  from read_frame_in_step [OF this sim_interrupts_bounded, of "sim_start [0, 0, 0, 1, 7]"] show ?thesis
    by (auto split: sum.splits)
qed

text \<open>What \<open>n\<close> calls of \<open>read_frame\<close> in a row return.\<close>

fun read_frames :: "'w os \<Rightarrow> socket \<Rightarrow> nat \<Rightarrow> ('w, incoming_frame list) io" where
  "read_frames os s 0 = io_return []"
| "read_frames os s (Suc n) =
     io_bind (read_frame os s) (\<lambda>f. io_bind (read_frames os s n) (\<lambda>fs. io_return (f # fs)))"

text \<open>
  C22. The frames that the peer sends arrive: however their bytes are split over the calls of \<open>recv\<close> and
  however often a signal interrupts them, one call of \<open>read_frame\<close> after the other returns them, in
  order and unchanged, and leaves the stream after the last one.
\<close>

theorem sent_frames_are_read:
  assumes "tcp_stream os (sock_fd s) out inp" and "interrupts_bounded os (sock_fd s) budget"
    and "recv_delivers os (sock_fd s) inp" and "list_all valid_frame fs" and "inp w = concat (map enc_frame fs) @ t"
  shows "\<exists>w'. read_frames os s (length fs) w = Some (Ok fs, w') \<and> inp w' = t \<and> out w' = out w"
  using assms(4,5)
proof (induction fs arbitrary: w)
  case Nil
  then show ?case by (simp add: io_return_def)
next
  case (Cons f fs)
  have "recv_takes os (sock_fd s) inp" using assms(1) by (simp add: tcp_stream_def)
  with read_frame_delivers [OF assms(2) _ assms(3), of f w "concat (map enc_frame fs) @ t"] Cons.prems obtain w1
    where 1: "read_frame os s w = Some (Ok f, w1)" "inp w1 = concat (map enc_frame fs) @ t" by auto
  moreover have "out w1 = out w" using tcp_read_frame(1) [OF 1(1) assms(1)] .
  moreover obtain w2 where "read_frames os s (length fs) w1 = Some (Ok fs, w2)" "inp w2 = t" "out w2 = out w1"
    using Cons.IH [OF _ 1(2)] Cons.prems(1) by auto
  ultimately show ?case by (simp add: io_return_def)
qed

theorem sent_frames_are_read_witness:
  "\<exists>w'. read_frames sim_os sim_socket 2 (sim_start (enc_frame (sv_tune (sim_script rc_Ok)) @
        enc_frame (sv_tune (sim_script rc_Ok)) @ [1, 2])) =
      Some (Ok [sv_tune (sim_script rc_Ok), sv_tune (sim_script rc_Ok)], w') \<and> sim_in w' = [1, 2] \<and> sim_out w' = []"
proof -
  have "valid_frame (sv_tune (sim_script rc_Ok))"
    by (simp add: sim_script_def valid_frame_def frame_size_def enc_cid_def enc_Tune_def is_response_def
        wire_consts)
  then show ?thesis
    using sent_frames_are_read [OF sim_tcp_stream sim_interrupts_bounded sim_recv_delivers, of
        "[sv_tune (sim_script rc_Ok), sv_tune (sim_script rc_Ok)]"
        "sim_start (enc_frame (sv_tune (sim_script rc_Ok)) @ enc_frame (sv_tune (sim_script rc_Ok)) @ [1, 2])" "[1, 2]" sim_socket]
    by (simp add: numeral_2_eq_2)
qed

text \<open>
  C32. Connecting leaks no descriptor: on success exactly one new descriptor is open, the one of the
  returned socket; on every failure (resolution, refusal, timeout) the table is as before and the
  error is \<open>ConnectFailed\<close>.
\<close>

theorem connect_leaks_nothing:
  assumes "fd_table os fds" and "\<And>host port w. fds (snd (os_getaddrinfo os host port w)) = fds w"
  shows "case connect_with_timeout os host port timeout (default_resolve_host os) w of
      (Inr s, w') \<Rightarrow> 0 \<le> sock_fd s \<and> sock_fd s \<notin> fds w \<and> fds w' = insert (sock_fd s) (fds w)
    | (Inl e, w') \<Rightarrow> kind e = ConnectFailed \<and> fds w' = fds w"
proof -
  have "connect_outcome fds w (connect_with_timeout os host port timeout (default_resolve_host os) w)"
    by (rule connect_with_timeout_fds [OF assms])
  then show ?thesis by (simp add: connect_outcome_def case_prod_unfold)
qed

theorem connect_leaks_nothing_witness:
  "case connect_with_timeout sim_os ''localhost'' 5552 1000 (default_resolve_host sim_os) (sim_start []) of
      (Inr s, w') \<Rightarrow> 0 \<le> sock_fd s \<and> sock_fd s \<notin> {0, 1, 2} \<and> set (sim_fds w') = insert (sock_fd s) {0, 1, 2}
    | (Inl e, w') \<Rightarrow> kind e = ConnectFailed \<and> set (sim_fds w') = {0, 1, 2}"
proof -
  have "set (sim_fds (snd (os_getaddrinfo sim_os host port w))) = set (sim_fds w)" for host port w
    by (simp add: sim_os_def)
  from connect_leaks_nothing [where host = "''localhost''" and port = 5552 and timeout = 1000
      and w = "sim_start []", OF sim_fd_table this]
  have "case connect_with_timeout sim_os ''localhost'' 5552 1000 (default_resolve_host sim_os) (sim_start []) of
      (Inr s, w') \<Rightarrow> 0 \<le> sock_fd s \<and> sock_fd s \<notin> set [0, 1, 2] \<and>
        set (sim_fds w') = insert (sock_fd s) (set [0, 1, 2])
    | (Inl e, w') \<Rightarrow> kind e = ConnectFailed \<and> set (sim_fds w') = set [0, 1, 2]"
    unfolding sim_start_fields .
  then show ?thesis by (simp only: list.set)
qed

section \<open>The handshake\<close>

text \<open>
  C3. When \<open>run_handshake\<close> succeeds, the server has sent the frames of an accepting script, in this
  order and nothing else was consumed; the client has sent exactly the requests of the protocol, with
  consecutive correlation ids and one authentication per challenge; and the result is the one the
  script prescribes.
\<close>

theorem handshake_sound:
  assumes "run_handshake os s cfg w = Some (Ok hr, w')" and "session os s cfg out inp"
  shows "\<exists>sv. script_result cfg sv = Some hr \<and>
    out w' = out w @ handshake_bytes cfg (length (sv_challenges sv)) hr \<and>
    inp w = script_bytes sv @ inp w'"
  using run_handshake_sound [OF assms] by (simp add: exchanged_def)

text \<open>
  C4. The handshake succeeds with every server that follows the protocol, for any properties, mechanisms
  (\<open>PLAIN\<close> among them), number of challenges and limits: when its frames carry exactly the encodings of
  these values and the ids of the requests, \<open>run_handshake\<close> returns the properties of the server and the
  negotiated limits, whatever the splits and interruptions; it has sent exactly the requests of the protocol
  and consumed exactly these frames. The \<open>Open\<close> request must fit the frame size that was negotiated.
\<close>

theorem handshake_complete:
  assumes "session os s cfg out inp" and "healthy os s inp budget"
    and "answers_ok a" and "open_fits cfg (hr_negotiated_frame_max (accepted_result cfg a))"
    and "inp w = script_bytes (accepting_script a) @ t"
  shows "\<exists>w'. run_handshake os s cfg w = Some (Ok (accepted_result cfg a), w') \<and>
    out w' = out w @ handshake_bytes cfg (length (sa_challenges a)) (accepted_result cfg a) \<and> inp w' = t"
proof -
  have n: "length (sv_challenges (accepting_script a)) = length (sa_challenges a)"
    by (simp add: accepting_script_def Let_def)
  from runsE [OF run_handshake_complete [OF assms(1,2) accepting_script_result [OF assms(3,4)]] assms(5)] assms(5)
  show ?thesis unfolding n by (metis exchanged_def same_append_eq)
qed

theorem handshake_complete_witness:
  "\<exists>w'. run_handshake sim_os sim_socket default_config (sim_start (script_bytes (accepting_script sim_answers) @ [9])) =
      Some (Ok sim_result, w') \<and> sim_in w' = [9]"
proof -
  let ?cfg = "default_config :: sim ConnectionConfig"
  have res: "accepted_result ?cfg sim_answers = sim_result"
    by (rule sim_answers_result) (simp_all add: default_config_def)
  have "open_fits ?cfg (hr_negotiated_frame_max (accepted_result ?cfg sim_answers))"
    unfolding res by (simp add: open_fits_def enc_OpenRequest_def enc_string_def sim_result_def default_config_def
        INT16_MAX_def)
  from handshake_complete [OF sim_default_session sim_healthy sim_answers_ok this, of
      "sim_start (script_bytes (accepting_script sim_answers) @ [9])" "[9]" sim_socket]
  show ?thesis unfolding res by auto
qed

theorem handshake_sound_witness:
  "\<exists>sv. script_result (default_config :: sim ConnectionConfig) sv = Some sim_result"
proof -
  obtain w' where "run_handshake sim_os sim_socket default_config
      (sim_start (script_bytes (sim_script rc_Ok))) = Some (Ok sim_result, w')"
    using runsE [OF run_handshake_complete [OF sim_default_session sim_healthy sim_script_result],
        of "sim_start (script_bytes (sim_script rc_Ok))" "[]" sim_socket]
    by auto
  from handshake_sound [OF this sim_default_session] show ?thesis by blast
qed

text \<open>
  C33. A server that refuses the credentials, after any number of challenges: the client reports the
  error that its code stands for and has sent nothing beyond the authentication.
\<close>

theorem handshake_refused:
  assumes "session os s cfg out inp" and "healthy os s inp budget"
    and "script_peer sv = Some props" and "script_plain sv" and "challenged 3 (sv_challenges sv)"
    and "sasl_code (sv_authenticated sv) (script_cid sv) = Some code"
    and "code \<noteq> rc_Ok" "code \<noteq> rc_SaslChallenge"
    and "inp w = enc_frame (sv_peer_properties sv) @ enc_frame (sv_sasl_handshake sv) @
       concat (map enc_frame (sv_challenges sv @ [sv_authenticated sv])) @ t"
  shows "\<exists>w'. run_handshake os s cfg w = Some (Err (map_response_code code ''SaslAuthenticate''), w') \<and>
    out w' = out w @ peer_properties_frame cfg @ sasl_handshake_frame @
       authenticate_frames cfg 3 (Suc (length (sv_challenges sv))) \<and> inp w' = t"
proof -
  let ?rcvd = "enc_frame (sv_peer_properties sv) @ enc_frame (sv_sasl_handshake sv) @
       concat (map enc_frame (sv_challenges sv @ [sv_authenticated sv]))"
  have "inp w = ?rcvd @ t" using assms(9) by simp
  from runsE [OF run_handshake_refused [OF assms(1-8)] this] obtain w' where
    "run_handshake os s cfg w = Some (Err (map_response_code code ''SaslAuthenticate''), w')"
    "exchanged out inp w w' (peer_properties_frame cfg @ sasl_handshake_frame @
       authenticate_frames cfg 3 (Suc (length (sv_challenges sv)))) ?rcvd" by blast
  with \<open>inp w = ?rcvd @ t\<close> show ?thesis
    by (intro exI [of _ w']) (simp add: exchanged_def)
qed

theorem handshake_refused_witness:
  "\<exists>w' e. run_handshake sim_os sim_socket default_config (sim_start
      (enc_frame (sv_peer_properties (sim_script rc_AuthenticationFailure)) @
       enc_frame (sv_sasl_handshake (sim_script rc_AuthenticationFailure)) @
       concat (map enc_frame (sv_challenges (sim_script rc_AuthenticationFailure) @
         [sv_authenticated (sim_script rc_AuthenticationFailure)])))) = Some (Err e, w') \<and>
     kind e = AuthenticationFailed"
proof -
  let ?sv = "sim_script rc_AuthenticationFailure"
  have "sasl_code (sv_authenticated ?sv) (script_cid ?sv) = Some rc_AuthenticationFailure"
    by (simp only: sim_script_answers)
  from handshake_refused [OF sim_default_session sim_healthy sim_script_answers(1-3) this,
      of "sim_start (enc_frame (sv_peer_properties ?sv) @ enc_frame (sv_sasl_handshake ?sv) @
       concat (map enc_frame (sv_challenges ?sv @ [sv_authenticated ?sv])))" "[]" sim_socket]
  show ?thesis by (auto simp: map_response_code_def wire_consts)
qed

text \<open>
  A server that never decides. It answers the first two requests as it should and every authentication with
  one more challenge; \<open>send\<close> takes all bytes at once and the answer is there when it returns.
\<close>

definition challenger_reply :: "u16 \<Rightarrow> u32 \<Rightarrow> incoming_frame" where
  "challenger_reply key cid =
     (if key = PeerPropertiesRequest_kKey then sv_peer_properties (sim_script rc_Ok)
      else if key = SaslHandshakeRequest_kKey then sv_sasl_handshake (sim_script rc_Ok)
      else sasl_answer cid rc_SaslChallenge None)"

definition challenger_os :: "sim os" where
  "challenger_os = calm_os
     \<lparr>os_send := (\<lambda>fd data w. ((int (length data), EOTHER 0),
        w\<lparr>sim_in := sim_in w @
          enc_frame (challenger_reply (be_join (take 2 (drop 4 data))) (be_join (take 4 (drop 8 data))))\<rparr>))\<rparr>"

lemma challenger_recv:
  "interrupts_bounded challenger_os fd sim_signals" "recv_takes challenger_os fd sim_in"
  "recv_delivers challenger_os fd sim_in"
  unfolding interrupts_bounded_def recv_takes_def recv_delivers_def
  by (auto simp: challenger_os_def calm_os_def sim_os_def sim_recv_def Let_def split: if_splits)

lemma write_all_at_once:
  assumes "os_send os (sock_fd s) data w = ((int (length data), en), w')" and "data \<noteq> []"
  shows "write_all os s data w = Some (Ok (), w')"
proof -
  have "write_all_loop os (sock_fd s) data (length data) w' = Some (Ok (), w')"
    by (subst write_all_loop.simps) simp
  with assms show ?thesis unfolding write_all_def by (subst write_all_loop.simps) simp
qed

lemma challenger_answers:
  assumes "answer_of (challenger_reply k cid) key cid dec = Some x" and "sim_in w = []"
  obtains w1 w2 where "send_request challenger_os s encode_body k v cmd cid 0 w = Some (Ok (), w1)"
    "recv_response challenger_os s key dec cid w1 = Some (Ok x, w2)" "sim_in w2 = []"
proof -
  let ?frame = "encode_request_frame k v cid (bw_data (encode_body empty_writer cmd))"
  let ?w1 = "w\<lparr>sim_in := enc_frame (challenger_reply k cid)\<rparr>"
  have "be_join (take 2 (drop 4 ?frame)) = k" "be_join (take 4 (drop 8 ?frame)) = cid"
    by (simp_all add: encode_request_frame_eq be_join_split)
  with assms(2) have "os_send challenger_os (sock_fd s) ?frame w = ((int (length ?frame), EOTHER 0), ?w1)"
    by (simp add: challenger_os_def)
  then have "write_all challenger_os s ?frame w = Some (Ok (), ?w1)"
    by (rule write_all_at_once) (metis length_encode_request_frame list.size(3) add_is_0 zero_neq_numeral)
  then have send: "send_request challenger_os s encode_body k v cmd cid 0 w = Some (Ok (), ?w1)"
    by (simp add: send_request_def check_outbound_frame_size_def Let_def)
  have f: "valid_frame (challenger_reply k cid)" using assms(1) by (simp add: answer_of_Some)
  have "sim_in ?w1 = enc_frame (challenger_reply k cid) @ []" by simp
  from read_frame_delivers [OF challenger_recv f this] obtain w2 where
    "read_frame challenger_os s ?w1 = Some (Ok (challenger_reply k cid), w2)" "sim_in w2 = []" by blast
  with that [OF send] assms(1) show thesis by (auto simp: recv_response_def answer_of_Some)
qed

lemma default_quiet [simp]: "cfg_log default_config level msg w = w"
  by (simp add: default_config_def null_logger_def)

lemma challenger_peer_properties:
  assumes "sim_in w = []"
  obtains w' where "hs_peer_properties challenger_os s default_config 1 0 w = Some (Ok [], w')" "sim_in w' = []"
proof -
  from sim_script_answers(1) [of rc_Ok] obtain pp where
    pp: "answer_of (challenger_reply PeerPropertiesRequest_kKey 1) PeerPropertiesResponse_kKey 1 PeerPropertiesResponse_decode_body = Some pp"
    "ppr_response_code pp = rc_Ok" "ppr_properties pp = []"
    by (auto simp: script_peer_def challenger_reply_def split: option.splits if_splits)
  show thesis
    by (rule challenger_answers [OF pp(1) assms, of s PeerPropertiesRequest_encode_body
          kVersion "\<lparr>ppq_properties = client_properties (default_config :: sim ConnectionConfig)\<rparr>"], rule that)
      (use pp(2,3) in \<open>auto simp: hs_peer_properties_def hs_log_def log_failure_def io_bind_def io_return_def\<close>)
qed

lemma challenger_sasl_handshake:
  assumes "sim_in w = []"
  obtains w' where "hs_sasl_handshake challenger_os s default_config 2 0 w = Some (Ok (), w')" "sim_in w' = []"
proof -
  from sim_script_answers(2) [of rc_Ok] obtain sh where
    sh: "answer_of (challenger_reply SaslHandshakeRequest_kKey 2) SaslHandshakeResponse_kKey 2 SaslHandshakeResponse_decode_body = Some sh"
    "shr_response_code sh = rc_Ok" "''PLAIN'' \<in> set (shr_mechanisms sh)"
    by (auto simp: script_plain_def challenger_reply_def wire_consts split: option.splits)
  show thesis
    by (rule challenger_answers [OF sh(1) assms, of s SaslHandshakeRequest_encode_body
          kVersion SaslHandshakeRequest], rule that)
      (use sh(2,3) in \<open>auto simp: hs_sasl_handshake_def hs_log_def log_failure_def io_bind_def list_ex_iff\<close>)
qed

lemma challenger_round:
  assumes "sim_in w = []"
  shows "\<exists>resp w'. sasl_round challenger_os s default_config cid 0 w = Some (Ok resp, w') \<and>
    sar_response_code resp = rc_SaslChallenge \<and> sim_in w' = []"
proof -
  have "valid_bytes None" by (simp add: valid_bytes_def)
  from sasl_answer_code [OF this, of cid rc_SaslChallenge] obtain resp where
    resp: "answer_of (challenger_reply SaslAuthenticateRequest_kKey cid) SaslAuthenticateResponse_kKey cid
      SaslAuthenticateResponse_decode_body = Some resp" "sar_response_code resp = rc_SaslChallenge"
    by (auto simp: sasl_code_def challenger_reply_def wire_consts)
  show ?thesis
    by (rule challenger_answers [OF resp(1) assms, of s SaslAuthenticateRequest_encode_body
          kVersion "plain_request (default_config :: sim ConnectionConfig)"])
      (use resp(2) in \<open>auto simp: sasl_round_def log_failure_def io_bind_def\<close>)
qed

lemma challenged_for_ever: "run_handshake challenger_os sim_socket default_config (sim_start []) = None"
proof -
  let ?os = challenger_os and ?s = sim_socket and ?cfg = "default_config :: sim ConnectionConfig"
  obtain w1 where 1: "hs_peer_properties ?os ?s ?cfg 1 0 (sim_start []) = Some (Ok [], w1)" "sim_in w1 = []"
    using challenger_peer_properties [of "sim_start []"] by auto
  obtain w2 where 2: "hs_sasl_handshake ?os ?s ?cfg 2 0 w1 = Some (Ok (), w2)" "sim_in w2 = []"
    using challenger_sasl_handshake [OF 1(2)] by auto
  have "sasl_loop ?os ?s ?cfg 0 3 w2 = None"
    by (rule sasl_loop_endless [where Q = "\<lambda>cid w. sim_in w = []", OF challenger_round 2(2)])
  then have "hs_sasl_authenticate ?os ?s ?cfg 3 0 w2 = None"
    by (simp add: hs_sasl_authenticate_def hs_log_def io_bind_def)
  with 1 2 show ?thesis by (simp add: run_handshake_def io_bind_def)
qed

text \<open>
  C34. The handshake returns when the server sends finitely many bytes, whatever they are, also when they
  are any number of challenges: every round consumes a frame. The loop has no bound of its own: with the
  server above, which answers every authentication with a challenge, \<open>run_handshake\<close> never returns.
\<close>

theorem handshake_terminates:
  assumes "session os s cfg out inp" and "interrupts_bounded os (sock_fd s) budget"
  shows "(\<exists>r w'. run_handshake os s cfg w = Some (r, w')) \<and>
    run_handshake challenger_os sim_socket default_config (sim_start []) = None"
  using run_handshake_returns [OF assms(2,1)] challenged_for_ever unfolding io_returns_def by force

theorem handshake_terminates_witness:
  "\<exists>r w'. run_handshake sim_os sim_socket default_config (sim_start [1, 2, 3]) = Some (r, w')"
  by (rule handshake_terminates [OF sim_default_session sim_interrupts_bounded, THEN conjunct1])

text \<open>A limit of 0 means none.\<close>

definition limit :: "u32 \<Rightarrow> enat" where
  "limit n = (if n = 0 then \<infinity> else enat (unat n))"

text \<open>
  C38. The negotiated maximum frame size is the stricter of the two limits, where 0 is no limit. The
  negotiated heartbeat never exceeds the value of the server, nor a value the client asked for; it is
  off exactly when the server's value is 0, so a client that asks for 0 gets the interval of the
  server.
\<close>

theorem negotiated_limits:
  "limit (negotiate_frame_max server requested) = min (limit server) (limit requested) \<and>
   negotiate_heartbeat server requested \<le> server \<and>
   (requested = 0 \<or> negotiate_heartbeat server requested \<le> requested) \<and>
   (negotiate_heartbeat server requested = 0 \<longleftrightarrow> server = 0)"
  by (auto simp: limit_def negotiate_frame_max_def negotiate_heartbeat_def min_def word_le_nat_alt)

end
