(* ===== verification/Typed_Values.thy ===== *)
theory Typed_Values
  imports Client Wire_Properties
begin

text \<open>
  The types of what comes from the server. Its bytes are arbitrary; every value that a decoder returns
  is nevertheless well formed (its strings are UTF-8 of at most 32767 bytes, its arrays have at most
  \<open>2\<^sup>3\<^sup>1 - 1\<close> elements), and so are the properties that \<open>connect\<close> stores in the client. Nothing is assumed
  of the operating system or of the server.
\<close>

section \<open>Decoders\<close>

definition reads_typed :: "('a \<Rightarrow> bool) \<Rightarrow> 'a read_op \<Rightarrow> bool" where
  "reads_typed valid m \<longleftrightarrow> (\<forall>r. reader_ok r \<longrightarrow> (case fst (m r) of Inl _ \<Rightarrow> True | Inr x \<Rightarrow> valid x))"

lemma reads_typedI:
  assumes "\<And>pre suf x r'. m (reader_at pre suf) = (Ok x, r') \<Longrightarrow> valid x"
  shows "reads_typed valid m"
  unfolding reads_typed_def
proof (intro allI impI)
  fix r
  assume "reader_ok r"
  then obtain pre suf where r: "r = reader_at pre suf" by (rule reader_ok_cases)
  show "case fst (m r) of Inl _ \<Rightarrow> True | Inr x \<Rightarrow> valid x"
    using assms [of pre suf] by (cases "m r") (auto simp: r split: sum.splits)
qed

lemma reads_typedD: "reads_typed valid m \<Longrightarrow> m (reader_at pre suf) = (Ok x, r') \<Longrightarrow> valid x"
  unfolding reads_typed_def by (drule spec [of _ "reader_at pre suf"]) simp

context canonical_codec
begin

lemma rd_typed: "reads_typed valid rd"
  by (rule reads_typedI) (use rd_sound in blast)

end

text \<open>A reader that has moved forward is again at a position of its buffer.\<close>

lemma forward_at:
  assumes "reads_forward m" and "m (reader_at pre suf) = (x, r')"
  obtains pre' suf' where "r' = reader_at pre' suf'"
  using reads_forward_ok [OF assms(1) reader_ok_at, of pre suf] assms(2) by (auto elim: reader_ok_cases)

lemma typed_bind:
  assumes "reads_forward m" and "reads_typed P m" and "\<And>x. P x \<Longrightarrow> reads_typed Q (f x)"
  shows "reads_typed Q (rbind m f)"
proof (rule reads_typedI)
  fix pre suf y r'
  assume run: "rbind m f (reader_at pre suf) = (Ok y, r')"
  then obtain x r1 where x: "m (reader_at pre suf) = (Ok x, r1)" "f x r1 = (Ok y, r')"
    by (auto simp: rbind_def split: prod.splits sum.splits)
  from forward_at [OF assms(1) x(1)] obtain pre1 suf1 where r1: "r1 = reader_at pre1 suf1" by blast
  have "P x" using reads_typedD [OF assms(2) x(1)] .
  from reads_typedD [OF assms(3) [OF this] x(2) [unfolded r1]] show "Q y" .
qed

lemma typed_return: "P x \<Longrightarrow> reads_typed P (rreturn x)"
  by (rule reads_typedI) (simp add: rreturn_def)

lemma typed_if: "reads_typed P m \<Longrightarrow> reads_typed P n \<Longrightarrow> reads_typed P (\<lambda>r. if b r then m r else n r)"
  unfolding reads_typed_def by simp

lemmas typed_intros = typed_if typed_return
  typed_bind [OF string_codec.rd_forward string_codec.rd_typed] typed_bind [OF bytes_codec.rd_forward bytes_codec.rd_typed]
  typed_bind [OF u16_codec.rd_forward u16_codec.rd_typed] typed_bind [OF kvs_codec.rd_forward kvs_codec.rd_typed]

text \<open>The decoders that accept more than their encoder writes.\<close>

lemma saq_typed: "reads_typed valid_SaslAuthenticateRequest SaslAuthenticateRequest_decode_body"
  unfolding SaslAuthenticateRequest_decode_body_def
  by (intro typed_intros) (auto simp: valid_SaslAuthenticateRequest_def valid_bytes_def split: option.splits)

lemma sar_typed: "reads_typed valid_SaslAuthenticateResponse SaslAuthenticateResponse_decode_body"
  unfolding SaslAuthenticateResponse_decode_body_def
  by (intro typed_intros) (auto simp: valid_SaslAuthenticateResponse_def valid_bytes_def)

lemma opr_typed: "reads_typed valid_OpenResponse OpenResponse_decode_body"
  unfolding OpenResponse_decode_body_def
  by (intro typed_intros) (auto simp: valid_OpenResponse_def valid_kvs_def)

text \<open>
  Whatever bytes a buffer holds, a value that a decoder returns from it is well formed: strings are
  UTF-8 and have at most 32767 bytes, byte arrays and arrays have at most \<open>2\<^sup>3\<^sup>1 - 1\<close> elements, in every
  field of every command struct.
\<close>

lemma decoded_values_typed:
  "reads_typed valid_string read_string_required \<and> reads_typed valid_string_opt read_string \<and>
   reads_typed valid_bytes read_bytes \<and> reads_typed valid_count read_array_prefix \<and> reads_typed valid_kvs decode_kv_array \<and>
   reads_typed valid_PeerPropertiesRequest PeerPropertiesRequest_decode_body \<and>
   reads_typed valid_PeerPropertiesResponse PeerPropertiesResponse_decode_body \<and>
   reads_typed valid_SaslHandshakeResponse SaslHandshakeResponse_decode_body \<and>
   reads_typed valid_SaslAuthenticateRequest SaslAuthenticateRequest_decode_body \<and>
   reads_typed valid_SaslAuthenticateResponse SaslAuthenticateResponse_decode_body \<and>
   reads_typed valid_OpenRequest OpenRequest_decode_body \<and> reads_typed valid_OpenResponse OpenResponse_decode_body \<and>
   reads_typed valid_CloseRequest CloseRequest_decode_body \<and> reads_typed valid_CreateRequest CreateRequest_decode_body \<and>
   reads_typed valid_DeleteRequest DeleteRequest_decode_body \<and> reads_typed valid_StoreOffset StoreOffset_decode_body \<and>
   reads_typed valid_QueryOffsetRequest QueryOffsetRequest_decode_body \<and>
   reads_typed valid_QueryPublisherRequest QueryPublisherRequest_decode_body"
  by (intro conjI string_codec.rd_typed string_opt_codec.rd_typed bytes_codec.rd_typed count_codec.rd_typed
      kvs_codec.rd_typed saq_typed sar_typed opr_typed canonical_codec.rd_typed [OF ppq_canonical]
      canonical_codec.rd_typed [OF ppr_canonical] canonical_codec.rd_typed [OF shr_canonical]
      canonical_codec.rd_typed [OF opq_canonical] canonical_codec.rd_typed [OF clq_canonical]
      canonical_codec.rd_typed [OF crq_canonical] canonical_codec.rd_typed [OF dlq_canonical]
      canonical_codec.rd_typed [OF so_canonical] canonical_codec.rd_typed [OF qoq_canonical]
      canonical_codec.rd_typed [OF qpq_canonical])

section \<open>The connection\<close>

text \<open>Every successful result of \<open>m\<close> satisfies \<open>P\<close>.\<close>

definition yields :: "('a \<Rightarrow> bool) \<Rightarrow> ('w, 'a) io \<Rightarrow> bool" where
  "yields P m \<longleftrightarrow> (\<forall>w x w'. m w = Some (Ok x, w') \<longrightarrow> P x)"

lemma yieldsD: "yields P m \<Longrightarrow> m w = Some (Ok x, w') \<Longrightarrow> P x"
  unfolding yields_def by blast

lemma yields_True: "yields (\<lambda>_. True) m"
  by (simp add: yields_def)

lemma yields_bind: "yields P m \<Longrightarrow> (\<And>x. P x \<Longrightarrow> yields Q (f x)) \<Longrightarrow> yields Q (io_bind m f)"
  unfolding yields_def by (blast elim: io_bind_SomeE)

lemma yields_return: "P x \<Longrightarrow> yields P (io_return x)"
  by (simp add: yields_def io_return_def)

lemma yields_fail: "yields P (io_fail e)"
  by (simp add: yields_def io_fail_def)

lemma yields_if: "(b \<Longrightarrow> yields P m) \<Longrightarrow> (\<not> b \<Longrightarrow> yields P n) \<Longrightarrow> yields P (if b then m else n)"
  by simp

lemma yields_lift:
  assumes "reads_typed P dec"
  shows "yields P (io_lift (fst (dec (reader_of bs))))"
  using spec [OF assms [unfolded reads_typed_def], of "reader_at [] bs"]
  by (auto simp: yields_def io_lift_def reader_of_at split: sum.splits)

lemma yields_log_failure: "yields P m \<Longrightarrow> yields P (log_failure cfg msg m)"
  by (auto simp: yields_def log_failure_def split: option.splits sum.splits prod.splits)

lemma yields_recv_response: "reads_typed P dec \<Longrightarrow> yields P (recv_response os s key dec cid)"
  unfolding recv_response_def by (intro yields_bind [OF yields_True] yields_if yields_fail yields_lift)

lemma hs_properties_typed:
  "yields valid_kvs (hs_peer_properties os s cfg cid fm)" "yields valid_kvs (hs_open os s cfg cid fm)"
proof -
  have ppr: "yields (\<lambda>x. valid_kvs (ppr_properties x)) (log_failure cfg msg
      (recv_response os s PeerPropertiesResponse_kKey PeerPropertiesResponse_decode_body cid))" for msg
    using canonical_codec.rd_typed [OF ppr_canonical] unfolding valid_PeerPropertiesResponse_def
    by (intro yields_log_failure yields_recv_response)
  show "yields valid_kvs (hs_peer_properties os s cfg cid fm)"
    unfolding hs_peer_properties_def
    by (rule yields_bind [OF ppr] yields_bind [OF yields_True] yields_if yields_fail yields_return)+
  have opr: "yields (\<lambda>x. valid_kvs (opr_connection_properties x)) (log_failure cfg msg
      (recv_response os s OpenResponse_kKey OpenResponse_decode_body cid))" for msg
    using opr_typed unfolding valid_OpenResponse_def by (intro yields_log_failure yields_recv_response)
  show "yields valid_kvs (hs_open os s cfg cid fm)"
    unfolding hs_open_def
    by (rule yields_bind [OF opr] yields_bind [OF yields_True] yields_if yields_fail yields_return)+
qed

lemma run_handshake_typed:
  "yields (\<lambda>hr. valid_kvs (hr_server_properties hr) \<and> valid_kvs (hr_connection_properties hr)) (run_handshake os s cfg)"
proof -
  have rest: "yields (\<lambda>hr. valid_kvs (hr_server_properties hr) \<and> valid_kvs (hr_connection_properties hr))
      (io_bind (hs_open os s cfg cid fm) (\<lambda>props. io_return \<lparr>hr_negotiated_frame_max = fm, hr_negotiated_heartbeat = hb,
         hr_server_properties = sp, hr_connection_properties = props\<rparr>))" if "valid_kvs sp" for cid fm hb sp
    using that by (intro yields_bind [OF hs_properties_typed(2)] yields_return) simp
  show ?thesis
    unfolding run_handshake_def
    by (intro yields_bind [OF hs_properties_typed(1)]) (intro yields_bind [OF yields_True], clarsimp, rule rest)
qed

definition properties_typed :: "'w client \<Rightarrow> bool" where
  "properties_typed c \<longleftrightarrow> valid_kvs (server_properties c) \<and> valid_kvs (connection_properties c)"

lemma connect_session_typed:
  assumes "connect_session os sock (c, w) = Some (r, (c', w'))" and "properties_typed c"
  shows "properties_typed c'"
  using assms(1)
proof (cases rule: connect_session_cases)
  case (refused e s so s' w1 w2 w3)
  then show ?thesis
    using assms(2) by (simp add: properties_typed_def server_properties_def connection_properties_def set_state_def)
next
  case (opened hr s so w1 w2 w3 t1 t2 msg)
  then show ?thesis
    using yieldsD [OF run_handshake_typed opened(4)]
    by (simp add: properties_typed_def server_properties_def connection_properties_def become_open_def store_handshake_def)
qed

lemma connect_typed:
  assumes "connect os (c, w) = Some (r, (c', w'))" and "properties_typed c"
  shows "properties_typed c'"
  using assms(1)
proof (cases rule: connect_cases)
  case (connected sock w1)
  have "properties_typed (set_state Connecting c)"
    using assms(2) by (simp add: properties_typed_def server_properties_def connection_properties_def set_state_def)
  with connected(4) show ?thesis by (rule connect_session_typed)
qed (use assms(2) in \<open>simp_all add: properties_typed_def server_properties_def connection_properties_def set_state_def\<close>)

end
