(* ===== verification/Writer.thy ===== *)
theory Writer
  imports Socket
begin

text \<open>
  \<open>SocketWriter\<close> of \<open>socket.hpp\<close> as several threads use it: \<open>write_all\<close> holds the mutex \<open>mu_\<close> while it loops
  around \<open>send\<close>. Between two calls of \<open>send\<close> any other thread may run, so the interleaving is a step
  relation on the state of all threads; that the mutex keeps the frames apart is an invariant of it.
  The last section shows that the loop of \<open>Socket\<close>, run by one thread, is a run of these steps.
\<close>

section \<open>Threads at a writer\<close>

text \<open>Where a thread is in \<open>write_all\<close>: before the mutex, or in the loop with its variable \<open>sent\<close>.\<close>

datatype writer_call = Outside | Blocked bytes | Sending bytes nat

text \<open>\<open>ws_log\<close> records the finished calls: the thread, its data and how many bytes of it were accepted.\<close>

record socket_writer =
  ws_out :: bytes
  ws_mutex :: "nat option"
  ws_threads :: "nat \<Rightarrow> writer_call"
  ws_log :: "(nat \<times> bytes \<times> nat) list"

definition new_writer :: "bytes \<Rightarrow> socket_writer" where
  "new_writer out = \<lparr>ws_out = out, ws_mutex = None, ws_threads = (\<lambda>_. Outside), ws_log = []\<rparr>"

definition set_thread :: "nat \<Rightarrow> writer_call \<Rightarrow> socket_writer \<Rightarrow> socket_writer" where
  "set_thread t call s = s\<lparr>ws_threads := (ws_threads s)(t := call)\<rparr>"

text \<open>Leaving \<open>write_all\<close>, on either path, releases the mutex.\<close>

definition writer_leave :: "nat \<Rightarrow> bytes \<Rightarrow> nat \<Rightarrow> socket_writer \<Rightarrow> socket_writer" where
  "writer_leave t data sent s =
     (set_thread t Outside s)\<lparr>ws_mutex := None, ws_log := ws_log s @ [(t, data, sent)]\<rparr>"

definition writer_lock :: "nat \<Rightarrow> bytes \<Rightarrow> socket_writer \<Rightarrow> socket_writer option" where
  "writer_lock t data s =
     (if ws_mutex s = None then Some ((set_thread t (Sending data 0) s)\<lparr>ws_mutex := Some t\<rparr>) else None)"

definition writer_accept :: "nat \<Rightarrow> bytes \<Rightarrow> nat \<Rightarrow> nat \<Rightarrow> socket_writer \<Rightarrow> socket_writer" where
  "writer_accept t data sent n s =
     (set_thread t (Sending data (sent + n)) s)\<lparr>ws_out := ws_out s @ take n (drop sent data)\<rparr>"

inductive writer_step :: "socket_writer \<Rightarrow> socket_writer \<Rightarrow> bool" where
  call: "ws_threads s t = Outside \<Longrightarrow> writer_step s (set_thread t (Blocked data) s)"
| lock: "ws_threads s t = Blocked data \<Longrightarrow> writer_lock t data s = Some s' \<Longrightarrow> writer_step s s'"
| accepted: "ws_threads s t = Sending data sent \<Longrightarrow> sent < length data \<Longrightarrow> 0 < n \<Longrightarrow> sent + n \<le> length data \<Longrightarrow>
    writer_step s (writer_accept t data sent n s)"
| interrupted: "ws_threads s t = Sending data sent \<Longrightarrow> sent < length data \<Longrightarrow> writer_step s s"
| failed: "ws_threads s t = Sending data sent \<Longrightarrow> sent < length data \<Longrightarrow>
    writer_step s (writer_leave t data sent s)"
| written: "ws_threads s t = Sending data sent \<Longrightarrow> \<not> sent < length data \<Longrightarrow>
    writer_step s (writer_leave t data sent s)"

abbreviation writer_steps :: "socket_writer \<Rightarrow> socket_writer \<Rightarrow> bool" where
  "writer_steps \<equiv> writer_step\<^sup>*\<^sup>*"

section \<open>One frame at a time\<close>

definition in_flight :: "socket_writer \<Rightarrow> bytes" where
  "in_flight s =
     (case ws_mutex s of
        None \<Rightarrow> []
      | Some t \<Rightarrow> (case ws_threads s t of Sending data sent \<Rightarrow> take sent data | _ \<Rightarrow> []))"

definition accepted_bytes :: "(nat \<times> bytes \<times> nat) list \<Rightarrow> bytes" where
  "accepted_bytes log = concat (map (\<lambda>(t, data, sent). take sent data) log)"

fun is_sending :: "writer_call \<Rightarrow> bool" where
  "is_sending Outside \<longleftrightarrow> False"
| "is_sending (Blocked data) \<longleftrightarrow> False"
| "is_sending (Sending data sent) \<longleftrightarrow> True"

text \<open>Exactly the owner of the mutex is in the loop, and every byte belongs to one call.\<close>

definition writer_ok :: "bytes \<Rightarrow> socket_writer \<Rightarrow> bool" where
  "writer_ok start s \<longleftrightarrow>
     (\<forall>t. is_sending (ws_threads s t) \<longleftrightarrow> ws_mutex s = Some t) \<and>
     ws_out s = start @ accepted_bytes (ws_log s) @ in_flight s"

lemma writer_ok_new: "writer_ok out (new_writer out)"
  by (simp add: writer_ok_def new_writer_def in_flight_def accepted_bytes_def)

lemma sending_iff: "writer_ok start s \<Longrightarrow> is_sending (ws_threads s t) \<longleftrightarrow> ws_mutex s = Some t"
  unfolding writer_ok_def by blast

lemma sending_owner: "writer_ok start s \<Longrightarrow> ws_threads s t = Sending data sent \<Longrightarrow> ws_mutex s = Some t"
  using sending_iff [of start s t] by simp

lemma writer_ok_accept:
  assumes "writer_ok start s" and "ws_threads s t = Sending data sent"
  shows "writer_ok start (writer_accept t data sent n s)"
proof -
  have m: "ws_mutex s = Some t" by (rule sending_owner [OF assms])
  with assms show ?thesis
    by (auto simp: writer_ok_def writer_accept_def set_thread_def in_flight_def take_add)
qed

lemma writer_ok_leave:
  assumes "writer_ok start s" and "ws_threads s t = Sending data sent"
  shows "writer_ok start (writer_leave t data sent s)"
proof -
  have m: "ws_mutex s = Some t" by (rule sending_owner [OF assms])
  with assms show ?thesis
    by (auto simp: writer_ok_def writer_leave_def set_thread_def in_flight_def accepted_bytes_def)
qed

lemma writer_step_ok: "writer_step s s' \<Longrightarrow> writer_ok start s \<Longrightarrow> writer_ok start s'"
proof (induction rule: writer_step.induct)
  case (call s t data)
  then have "ws_mutex s \<noteq> Some t" using sending_iff [of start s t] by simp
  with call show ?case
    by (auto simp: writer_ok_def set_thread_def in_flight_def split: option.splits)
next
  case (lock s t data s')
  then show ?case
    by (auto simp: writer_ok_def writer_lock_def set_thread_def in_flight_def split: if_splits)
qed (simp_all add: writer_ok_accept writer_ok_leave)

lemma writer_steps_ok: "writer_steps s s' \<Longrightarrow> writer_ok start s \<Longrightarrow> writer_ok start s'"
  by (induction rule: rtranclp_induct) (auto intro: writer_step_ok)

section \<open>write_all is a run\<close>

text \<open>What one thread does with \<open>write_all\<close> while the others wait, up to the end of the call.\<close>

lemma write_all_is_run:
  assumes run: "write_all os sock data w = Some (r, w')" and app: "send_appends os (sock_fd sock) out"
    and free: "ws_out s = out w" "ws_mutex s = None" "ws_threads s t = Outside"
  shows "\<exists>k s'. writer_steps s s' \<and> ws_out s' = out w' \<and> ws_mutex s' = None \<and> ws_threads s' = ws_threads s \<and>
    ws_log s' = ws_log s @ [(t, data, k)] \<and> (k = length data \<longleftrightarrow> r = Ok ())"
proof -
  have "\<exists>k \<le> length data. out w' = out w @ take k data \<and> (k = length data \<longleftrightarrow> r = Ok ())"
    using write_all_wrote [OF run app]
    by (cases r) (auto simp: wrote_def intro: exI [of _ "length data"] dest: less_imp_le)
  then obtain k where k: "k \<le> length data" "out w' = out w @ take k data" "k = length data \<longleftrightarrow> r = Ok ()"
    by blast
  let ?s1 = "set_thread t (Blocked data) s"
  let ?s2 = "(set_thread t (Sending data 0) ?s1)\<lparr>ws_mutex := Some t\<rparr>"
  let ?s3 = "writer_accept t data 0 k ?s2"
  let ?s4 = "writer_leave t data k ?s3"
  have "writer_step s ?s1" using free(3) by (rule writer_step.call)
  moreover have "writer_step ?s1 ?s2"
    by (rule writer_step.lock [where t = t and data = data]) (simp_all add: writer_lock_def set_thread_def free)
  moreover have "writer_steps ?s2 ?s3"
  proof (cases "k = 0")
    case True
    then have "?s3 = ?s2" by (cases s) (simp add: writer_accept_def set_thread_def)
    then show ?thesis by simp
  next
    case False
    then have "writer_step ?s2 ?s3"
      using k(1) by (intro writer_step.accepted) (auto simp: set_thread_def)
    then show ?thesis by (rule r_into_rtranclp)
  qed
  moreover have "writer_step ?s3 ?s4"
  proof -
    have "ws_threads ?s3 t = Sending data k" by (simp add: writer_accept_def set_thread_def)
    then show ?thesis by (cases "k < length data") (rule writer_step.failed writer_step.written; assumption)+
  qed
  ultimately have "writer_steps s ?s4"
    by (meson converse_rtranclp_into_rtranclp rtranclp.rtrancl_into_rtrancl)
  moreover have "ws_out ?s4 = out w'" "ws_mutex ?s4 = None" "ws_log ?s4 = ws_log s @ [(t, data, k)]"
    "ws_threads ?s4 = ws_threads s"
    using free k(2) by (auto simp: writer_leave_def writer_accept_def set_thread_def fun_eq_iff)
  ultimately show ?thesis using k(3) by blast
qed

end
