(* ===== verification/Unit_Tests.thy ===== *)
theory Unit_Tests
  imports Simulation
begin

text \<open>
  The unit tests of the repository (\<open>tests/unit\<close>), replayed on the model: every vector and every
  expectation that needs no network is a lemma named after its test, evaluated by the simplifier. They
  tie the definitions to the behaviour that the authors of the code have fixed. The tests of the sockets
  run on the simulated machine of \<open>Simulation\<close> instead of a socket pair.
\<close>

section \<open>test_buffer.cpp\<close>

lemma test_reader_remaining_advances:
  "remaining (reader_of [1, 2, 3, 4]) = 4" "rd_pos (reader_of [1, 2, 3, 4]) = 0"
  "fst (read_byte (reader_of [1, 2, 3, 4])) = Ok 1" "rd_pos (snd (read_byte (reader_of [1, 2, 3, 4]))) = 1"
  "remaining (snd (read_byte (reader_of [1, 2, 3, 4]))) = 3"
  by code_simp+

lemma test_reader_truncated:
  "is_err (fst (read_raw 2 (reader_of [0xAA])))" "rd_pos (snd (read_raw 2 (reader_of [0xAA]))) = 0"
  by code_simp+

lemma test_reader_borrow:
  "fst (borrow 4 (reader_of [0xDE, 0xAD, 0xBE, 0xEF])) = Ok [0xDE, 0xAD, 0xBE, 0xEF]"
  "remaining (snd (borrow 4 (reader_of [0xDE, 0xAD, 0xBE, 0xEF]))) = 0"
  by code_simp+

lemma test_writer_appends: "bw_data (write_byte (write_raw empty_writer [1, 2, 3] 3) 4) = [1, 2, 3, 4]"
  by code_simp

section \<open>test_codec.cpp\<close>

lemma test_u32_cafebabe:
  "bw_data (write_u32 empty_writer 0xCAFEBABE) = [0xCA, 0xFE, 0xBA, 0xBE]"
  "fst (read_u32 (reader_of [0xCA, 0xFE, 0xBA, 0xBE])) = Ok 0xCAFEBABE"
  by code_simp+

lemma test_i64_minus_one:
  "bw_data (write_i64 empty_writer (-1)) = [0xFF, 0xFF, 0xFF, 0xFF, 0xFF, 0xFF, 0xFF, 0xFF]"
  "fst (read_i64 (reader_of [0xFF, 0xFF, 0xFF, 0xFF, 0xFF, 0xFF, 0xFF, 0xFF])) = Ok (-1)"
  by code_simp+

lemma test_u32_truncated:
  "is_err (fst (read_u32 (reader_of [1, 2, 3])))" "rd_pos (snd (read_u32 (reader_of [1, 2, 3]))) = 0"
  by code_simp+

lemma test_string_guest:
  "bw_data (write_string empty_writer ''guest'') = [0, 5, 103, 117, 101, 115, 116]"
  "fst (read_string (reader_of [0, 5, 103, 117, 101, 115, 116])) = Ok (Some ''guest'')"
  by code_simp+

lemma test_all_primitives:
  "bw_data (write_i64 (write_u64 (write_i32 (write_u32 (write_i16 (write_u16 (write_i8 (write_u8 empty_writer
     0xAB) (-42)) 0x1234) (-123)) 0xDEADBEEF) (-1000000)) 0x0102030405060708) (- 0x8000000000000000)) =
   [0xAB, 0xD6, 0x12, 0x34, 0xFF, 0x85, 0xDE, 0xAD, 0xBE, 0xEF, 0xFF, 0xF0, 0xBD, 0xC0,
    1, 2, 3, 4, 5, 6, 7, 8, 0x80, 0, 0, 0, 0, 0, 0, 0]"
  "rbind read_u8 (\<lambda>a. rbind read_i8 (\<lambda>b. rbind read_u16 (\<lambda>c. rbind read_i16 (\<lambda>d.
     rbind read_u32 (\<lambda>e. rbind read_i32 (\<lambda>f. rbind read_u64 (\<lambda>g. rbind read_i64 (\<lambda>h.
       rreturn (a, b, c, d, e, f, g, h)))))))))
     (reader_of [0xAB, 0xD6, 0x12, 0x34, 0xFF, 0x85, 0xDE, 0xAD, 0xBE, 0xEF, 0xFF, 0xF0, 0xBD, 0xC0,
        1, 2, 3, 4, 5, 6, 7, 8, 0x80, 0, 0, 0, 0, 0, 0, 0]) =
   (Ok (0xAB, -42, 0x1234, -123, 0xDEADBEEF, -1000000, 0x0102030405060708, - 0x8000000000000000),
    reader_at [0xAB, 0xD6, 0x12, 0x34, 0xFF, 0x85, 0xDE, 0xAD, 0xBE, 0xEF, 0xFF, 0xF0, 0xBD, 0xC0,
      1, 2, 3, 4, 5, 6, 7, 8, 0x80, 0, 0, 0, 0, 0, 0, 0] [])"
  by code_simp+

lemma test_string_null:
  "bw_data (write_string_opt empty_writer None) = [0xFF, 0xFF]"
  "read_string (reader_of [0xFF, 0xFF]) = (Ok None, reader_at [0xFF, 0xFF] [])"
  by code_simp+

lemma test_string_empty:
  "bw_data (write_string empty_writer []) = [0, 0]" "fst (read_string (reader_of [0, 0])) = Ok (Some [])"
  by code_simp+

lemma test_string_invalid_utf8: "is_err (fst (read_string (reader_of [0, 2, 0xC0, 0xC0])))"
  by code_simp

lemma test_bytes_three:
  "bw_data (write_bytes empty_writer (Some [1, 2, 3])) = [0, 0, 0, 3, 1, 2, 3]"
  "fst (read_bytes (reader_of [0, 0, 0, 3, 1, 2, 3])) = Ok (Some [1, 2, 3])"
  by code_simp+

lemma test_bytes_null:
  "read_bytes (reader_of [0xFF, 0xFF, 0xFF, 0xFF]) = (Ok None, reader_at [0xFF, 0xFF, 0xFF, 0xFF] [])"
  by code_simp

lemma test_array_of_two_strings:
  "bw_data (write_string (write_string (write_array_prefix empty_writer 2) ''a'') ''bc'') =
     [0, 0, 0, 2, 0, 1, 97, 0, 2, 98, 99]"
  by code_simp

lemma test_array_empty: "read_array_prefix (reader_of [0, 0, 0, 0]) = (Ok 0, reader_at [0, 0, 0, 0] [])"
  by code_simp

lemma test_array_negative: "is_err (fst (read_array_prefix (reader_of (bw_data (write_i32 empty_writer (-1))))))"
  by code_simp

section \<open>test_frame.cpp\<close>

lemma test_request_empty_body: "encode_request_frame 0x0012 1 42 [] = [0, 0, 0, 8, 0, 0x12, 0, 1, 0, 0, 0, 0x2A]"
  by code_simp

lemma test_oneway_heartbeat: "encode_oneway_frame 0x0017 1 [] = [0, 0, 0, 4, 0, 0x17, 0, 1]"
  by code_simp

lemma test_read_frame_request:
  "fst (read_frame_auto (reader_of (encode_request_frame 0x000D 1 7 [0xAA, 0xBB]))) =
     Ok \<lparr>fr_key = 0x000D, fr_version = 1, fr_body = [0, 0, 0, 7, 0xAA, 0xBB], fr_cid = None\<rparr>"
  by code_simp

lemma test_read_frame_response:
  "fst (read_frame_auto (reader_of [0, 0, 0, 10, 0x80, 0x0D, 0, 1, 0xCA, 0xFE, 0xBA, 0xBE, 0, 1])) =
     Ok \<lparr>fr_key = 0x800D, fr_version = 1, fr_body = [0, 1], fr_cid = Some 0xCAFEBABE\<rparr>"
  by code_simp

lemma test_read_frame_rejects:
  "is_err (fst (read_frame_auto (reader_of [0, 0])))"
  "map_sum kind id (fst (read_frame_auto (reader_of [0, 0, 0, 1, 0xAA]))) = Inl ProtocolViolation"
  "is_err (fst (read_frame_auto (reader_of [0, 0, 0, 0x10, 0, 0x12, 0, 1])))"
  by code_simp+

lemma test_key_helpers:
  "is_response 0x800D" "\<not> is_response 0x000D" "response_of 0x000D = 0x800D" "request_of 0x800D = 0x000D"
  "request_of 0x000D = 0x000D"
  by code_simp+

lemma test_outbound_frame_size:
  "is_ok (check_outbound_frame_size 33554432 0)"
  "map_sum kind id (check_outbound_frame_size 2048 1024) = Inl ProtocolViolation"
  by (simp_all add: check_outbound_frame_size_def is_ok_def)

section \<open>test_commands.cpp\<close>

lemma test_command_keys:
  "PeerPropertiesRequest_kKey = 0x0011" "PeerPropertiesResponse_kKey = 0x8011" "SaslHandshakeRequest_kKey = 0x0012"
  "SaslHandshakeResponse_kKey = 0x8012" "SaslAuthenticateRequest_kKey = 0x0013"
  "SaslAuthenticateResponse_kKey = 0x8013" "Tune_kKey = 0x0014" "OpenRequest_kKey = 0x0015" "OpenResponse_kKey = 0x8015"
  "CloseRequest_kKey = 0x0016" "CloseResponse_kKey = 0x8016" "Heartbeat_kKey = 0x0017" "CreateRequest_kKey = 0x000D"
  "CreateResponse_kKey = 0x800D" "DeleteRequest_kKey = 0x000E" "DeleteResponse_kKey = 0x800E" "StoreOffset_kKey = 0x000A"
  "QueryOffsetRequest_kKey = 0x000B" "QueryOffsetResponse_kKey = 0x800B" "QueryPublisherRequest_kKey = 0x0005"
  "QueryPublisherResponse_kKey = 0x8005"
  by code_simp+

text \<open>The round trips are instances of the contract of the command; their strings are ASCII.\<close>

lemmas valid_structs =
  valid_PeerPropertiesRequest_def valid_PeerPropertiesResponse_def valid_SaslHandshakeResponse_def
  valid_SaslAuthenticateResponse_def valid_OpenRequest_def valid_OpenResponse_def valid_CloseRequest_def
  valid_CloseResponse_def valid_CreateRequest_def valid_CreateResponse_def valid_DeleteRequest_def
  valid_DeleteResponse_def valid_StoreOffset_def valid_QueryOffsetRequest_def valid_QueryOffsetResponse_def
  valid_QueryPublisherRequest_def valid_QueryPublisherResponse_def valid_kvs_def valid_kv_def valid_strings_def
  valid_bytes_def valid_string_ascii

lemma test_peer_properties:
  "fst (PeerPropertiesRequest_decode_body (reader_of (bw_data (PeerPropertiesRequest_encode_body empty_writer
     \<lparr>ppq_properties = [(''product'', ''test''), (''version'', ''0.1'')]\<rparr>)))) =
   Ok \<lparr>ppq_properties = [(''product'', ''test''), (''version'', ''0.1'')]\<rparr>"
  "fst (PeerPropertiesResponse_decode_body (reader_of (bw_data (PeerPropertiesResponse_encode_body empty_writer
     \<lparr>ppr_response_code = 1, ppr_properties = [(''version'', ''4.0'')]\<rparr>)))) =
   Ok \<lparr>ppr_response_code = 1, ppr_properties = [(''version'', ''4.0'')]\<rparr>"
  by (simp_all add: ppq.body_eq ppq.body_decodes ppr.body_eq ppr.body_decodes valid_structs)

lemma test_sasl_handshake:
  "bw_data (SaslHandshakeRequest_encode_body empty_writer SaslHandshakeRequest) = []"
  "fst (SaslHandshakeResponse_decode_body (reader_of (bw_data (SaslHandshakeResponse_encode_body empty_writer
     \<lparr>shr_response_code = 1, shr_mechanisms = [''PLAIN'', ''EXTERNAL'']\<rparr>)))) =
   Ok \<lparr>shr_response_code = 1, shr_mechanisms = [''PLAIN'', ''EXTERNAL'']\<rparr>"
  by (simp_all add: shq.body_eq enc_SaslHandshakeRequest_def shr.body_eq shr.body_decodes valid_structs)

lemma test_sasl_plain_payload:
  "bw_data (SaslAuthenticateRequest_encode_body empty_writer \<lparr>saq_mechanism = ''PLAIN'',
     saq_sasl_opaque_data = [0, 103, 117, 101, 115, 116, 0, 103, 117, 101, 115, 116]\<rparr>) =
   [0, 5, 80, 76, 65, 73, 78, 0, 0, 0, 12, 0, 103, 117, 101, 115, 116, 0, 103, 117, 101, 115, 116]"
  "plain_payload (default_config :: unit ConnectionConfig) = [0, 103, 117, 101, 115, 116, 0, 103, 117, 101, 115, 116]"
  by code_simp+

lemma test_sasl_challenge:
  "fst (SaslAuthenticateResponse_decode_body (reader_of (bw_data (SaslAuthenticateResponse_encode_body empty_writer
     \<lparr>sar_response_code = 0x0A, sar_sasl_opaque_data = Some [0xDE, 0xAD]\<rparr>)))) =
   Ok \<lparr>sar_response_code = 0x0A, sar_sasl_opaque_data = Some [0xDE, 0xAD]\<rparr>"
  by (simp add: sar.body_eq sar.body_decodes valid_structs)

lemma test_tune:
  "bw_data (Tune_encode_body empty_writer \<lparr>tune_frame_max = 1048576, tune_heartbeat = 60\<rparr>) =
     [0, 0x10, 0, 0, 0, 0, 0, 0x3C]"
  "fst (Tune_decode_body (reader_of [0, 0x10, 0, 0, 0, 0, 0, 0x3C])) =
     Ok \<lparr>tune_frame_max = 1048576, tune_heartbeat = 60\<rparr>"
  by code_simp+

lemma test_open_close:
  "fst (OpenRequest_decode_body (reader_of (bw_data (OpenRequest_encode_body empty_writer \<lparr>opq_virtual_host = ''/''\<rparr>)))) =
     Ok \<lparr>opq_virtual_host = ''/''\<rparr>"
  "fst (OpenResponse_decode_body (reader_of (bw_data (OpenResponse_encode_body empty_writer
     \<lparr>opr_response_code = 1, opr_connection_properties = []\<rparr>)))) = Ok \<lparr>opr_response_code = 1, opr_connection_properties = []\<rparr>"
  "fst (CloseRequest_decode_body (reader_of (bw_data (CloseRequest_encode_body empty_writer
     \<lparr>clq_closing_code = 1, clq_closing_reason = ''user requested''\<rparr>)))) =
   Ok \<lparr>clq_closing_code = 1, clq_closing_reason = ''user requested''\<rparr>"
  "fst (CloseResponse_decode_body (reader_of (bw_data (CloseResponse_encode_body empty_writer \<lparr>clr_response_code = 1\<rparr>)))) =
   Ok \<lparr>clr_response_code = 1\<rparr>"
  "bw_data (Heartbeat_encode_body empty_writer Heartbeat) = []"
  by (simp_all add: opq.body_eq opq.body_decodes opr.body_eq opr.body_decodes clq.body_eq clq.body_decodes
      clr.body_eq clr.body_decodes hb.body_eq enc_Heartbeat_def valid_structs)

lemma test_create_delete:
  "fst (CreateRequest_decode_body (reader_of (bw_data (CreateRequest_encode_body empty_writer \<lparr>crq_stream = ''logs'',
     crq_arguments = [(''max-length-bytes'', ''1000000000''), (''max-age'', ''12h'')]\<rparr>)))) =
   Ok \<lparr>crq_stream = ''logs'', crq_arguments = [(''max-length-bytes'', ''1000000000''), (''max-age'', ''12h'')]\<rparr>"
  "fst (CreateResponse_decode_body (reader_of (bw_data (CreateResponse_encode_body empty_writer \<lparr>crr_response_code = 5\<rparr>)))) =
   Ok \<lparr>crr_response_code = 5\<rparr>"
  "fst (DeleteRequest_decode_body (reader_of (bw_data (DeleteRequest_encode_body empty_writer \<lparr>dlq_stream = ''invoices''\<rparr>)))) =
   Ok \<lparr>dlq_stream = ''invoices''\<rparr>"
  "fst (DeleteResponse_decode_body (reader_of (bw_data (DeleteResponse_encode_body empty_writer \<lparr>dlr_response_code = 2\<rparr>)))) =
   Ok \<lparr>dlr_response_code = 2\<rparr>"
  by (simp_all add: crq.body_eq crq.body_decodes crr.body_eq crr.body_decodes dlq.body_eq dlq.body_decodes
      dlr.body_eq dlr.body_decodes valid_structs)

lemma test_offsets:
  "fst (StoreOffset_decode_body (reader_of (bw_data (StoreOffset_encode_body empty_writer
     \<lparr>so_reference = ''consumer-1'', so_stream = ''invoices'', so_offset = 12345\<rparr>)))) =
   Ok \<lparr>so_reference = ''consumer-1'', so_stream = ''invoices'', so_offset = 12345\<rparr>"
  "fst (QueryOffsetRequest_decode_body (reader_of (bw_data (QueryOffsetRequest_encode_body empty_writer
     \<lparr>qoq_reference = ''consumer-1'', qoq_stream = ''invoices''\<rparr>)))) =
   Ok \<lparr>qoq_reference = ''consumer-1'', qoq_stream = ''invoices''\<rparr>"
  "fst (QueryOffsetResponse_decode_body (reader_of (bw_data (QueryOffsetResponse_encode_body empty_writer
     \<lparr>qor_response_code = 1, qor_offset = 42\<rparr>)))) = Ok \<lparr>qor_response_code = 1, qor_offset = 42\<rparr>"
  "fst (QueryPublisherRequest_decode_body (reader_of (bw_data (QueryPublisherRequest_encode_body empty_writer
     \<lparr>qpq_publisher_reference = ''publisher-A'', qpq_stream = ''invoices''\<rparr>)))) =
   Ok \<lparr>qpq_publisher_reference = ''publisher-A'', qpq_stream = ''invoices''\<rparr>"
  "fst (QueryPublisherResponse_decode_body (reader_of (bw_data (QueryPublisherResponse_encode_body empty_writer
     \<lparr>qpr_response_code = 1, qpr_sequence = 999\<rparr>)))) = Ok \<lparr>qpr_response_code = 1, qpr_sequence = 999\<rparr>"
  by (simp_all add: so.body_eq so.body_decodes qoq.body_eq qoq.body_decodes qor.body_eq qor.body_decodes
      qpq.body_eq qpq.body_decodes qpr.body_eq qpr.body_decodes valid_structs)

section \<open>test_dispatcher.cpp\<close>

text \<open>The response of the tests, and a dispatcher with one pending request.\<close>

definition make_response_frame :: "u16 \<Rightarrow> u32 \<Rightarrow> incoming_frame" where
  "make_response_frame k cid = \<lparr>fr_key = response_of k, fr_version = 1, fr_body = [], fr_cid = Some cid\<rparr>"

definition one_pending :: "int \<Rightarrow> dispatcher" where
  "one_pending deadline =
     (let (cid, d) = next_correlation_id new_dispatcher in snd (register_pending cid deadline d))"

lemma test_correlation_ids_unique:
  "distinct (map (\<lambda>i. fst (next_correlation_id (((snd \<circ> next_correlation_id) ^^ i) new_dispatcher))) [0..<100])"
proof -
  have "fst (next_correlation_id (((snd \<circ> next_correlation_id) ^^ i) new_dispatcher)) = 1 + of_nat i" for i
  proof -
    have "ds_next_id (((snd \<circ> next_correlation_id) ^^ i) d) = ds_next_id d + of_nat i" for d
      by (induction i) (simp_all add: next_correlation_id_def algebra_simps)
    then show ?thesis by (simp add: next_correlation_id_def new_dispatcher_def)
  qed
  then show ?thesis by (auto simp: distinct_map inj_on_def word_of_nat_eq_iff take_bit_nat_eq_self)
qed

lemma test_resolves_pending_request:
  "fst (dispatch (make_response_frame 0x000D 1) (one_pending 5))"
  "ds_shared (snd (dispatch (make_response_frame 0x000D 1) (one_pending 5))) = [Ready (Ok (make_response_frame 0x000D 1))]"
  by code_simp+

lemma test_unknown_response: "\<not> fst (dispatch (make_response_frame 0x000D 999) new_dispatcher)"
  by code_simp

lemma test_fail_all_pending:
  "let (a, d) = next_correlation_id new_dispatcher; (b, d) = next_correlation_id d;
       (fa, d) = register_pending a 5 d; (fb, d) = register_pending b 5 d;
       bye = StreamError ConnectionClosed ''bye'';
       d = fail_all_pending bye d
   in ds_shared d ! fa = Ready (Err bye) \<and> ds_shared d ! fb = Ready (Err bye)"
  by code_simp

lemma test_reap_expired:
  "fst (reap_expired 0 (one_pending (-1))) = 1"
  "ds_shared (snd (reap_expired 0 (one_pending (-1)))) = [Ready (Err request_timed_out)]"
  by code_simp+

lemma test_heartbeat_handler:
  "let f = \<lparr>fr_key = key_Heartbeat, fr_version = 1, fr_body = [], fr_cid = None\<rparr>;
       (matched, d) = dispatch f (on_heartbeat (Some 7) new_dispatcher)
   in matched \<and> ds_calls d = [(7, f)]"
  by code_simp

lemma test_response_after_reap:
  "let d = snd (reap_expired 0 (one_pending (-1))); (matched, d) = dispatch (make_response_frame 0x000D 1) d
   in \<not> matched \<and> ds_shared d = [Ready (Err request_timed_out)]"
  by code_simp

section \<open>test_client.cpp\<close>

lemma test_default_values:
  "cfg_host default_config = ''localhost''" "cfg_port default_config = 5552" "cfg_virtual_host default_config = ''/''"
  "cfg_username default_config = ''guest''" "cfg_password default_config = ''guest''"
  "cfg_requested_heartbeat_seconds default_config = 60" "cfg_requested_frame_max_bytes default_config = 1048576"
  by (simp_all add: default_config_def)

lemma test_configuration_errors:
  "map_sum kind id (validate (default_config\<lparr>cfg_host := []\<rparr>)) = Inl ConfigurationError"
  "map_sum kind id (validate (default_config\<lparr>cfg_port := 0\<rparr>)) = Inl ConfigurationError"
  "map_sum kind id (validate (default_config\<lparr>cfg_virtual_host := []\<rparr>)) = Inl ConfigurationError"
  by (simp_all add: validate_def default_config_def)

lemma test_initial_state: "state_of (StreamClient cfg) = Disconnected"
  by (simp add: state_of_def StreamClient_def)

lemma test_operations_before_connect:
  fixes cfg :: "'w ConnectionConfig" and os :: "'w os"
  defines "st w \<equiv> (StreamClient cfg, w :: 'w)"
  shows "create_stream os env ''x'' [] False (st w) = Some (Err not_open, st w)"
    "delete_stream os env ''x'' False (st w) = Some (Err not_open, st w)"
    "store_offset os ''ref'' ''stream'' 0 (st w) = Some (Err not_open, st w)"
    "query_offset os env ''ref'' ''stream'' (st w) = Some (Err not_open, st w)"
    "query_publisher_sequence os env ''ref'' ''stream'' (st w) = Some (Err not_open, st w)"
    "kind not_open = ConnectionNotOpen"
  by (simp_all add: st_def StreamClient_def create_stream_def delete_stream_def store_offset_def query_offset_def
      query_publisher_sequence_def require_open_def io_bind_def not_open_def)

text \<open>Every address of the host refuses.\<close>

definition refusing :: sim where
  "refusing = (sim_start [])\<lparr>sim_refuse := 2\<rparr>"

lemma test_unreachable_host:
  "connect_with_timeout sim_os h p t (default_resolve_host sim_os) refusing =
     (Err (StreamError ConnectFailed (''could not connect to '' @ h @ '':'' @ decimal_digits (unat p))),
      refusing\<lparr>sim_refuse := 0\<rparr>)"
  "validate cfg = Ok () \<Longrightarrow> cfg_log cfg = null_logger \<Longrightarrow> \<exists>e c w. connect sim_os (StreamClient cfg, refusing) = Some (Err e, (c, w)) \<and>
     kind e = ConnectFailed \<and> state_of c = Closed"
proof -
  show refused: "connect_with_timeout sim_os h p t (default_resolve_host sim_os) refusing =
     (Err (StreamError ConnectFailed (''could not connect to '' @ h @ '':'' @ decimal_digits (unat p))),
      refusing\<lparr>sim_refuse := 0\<rparr>)" for h p t
    by (simp add: connect_with_timeout_def default_resolve_host_def sim_os_def refusing_def sim_start_def sim_fresh_def)
  show "validate cfg = Ok () \<Longrightarrow> cfg_log cfg = null_logger \<Longrightarrow> \<exists>e c w. connect sim_os (StreamClient cfg, refusing) = Some (Err e, (c, w)) \<and>
     kind e = ConnectFailed \<and> state_of c = Closed"
    by (simp add: connect_def Let_def StreamClient_def connecting_to_def null_logger_def refused state_of_def set_state_def)
qed

lemma test_null_logger: "null_logger level msg w = w"
  by (simp add: null_logger_def)

section \<open>test_socket.cpp\<close>

text \<open>
  The signals of the simulated machine interrupt the calls, and the transfers are split. That writes of
  several threads are serialized is a property of \<open>Writer\<close>.
\<close>

lemma test_write_all_loopback:
  "map_option (\<lambda>(r, w). (r, sim_out w)) (write_all sim_os sim_socket [1, 2, 3, 4, 5] (sim_start [])) =
     Some (Ok (), [1, 2, 3, 4, 5])"
  by (simp add: write_all_def write_all_loop.simps sim_os_def sim_send_def sim_start_def)

lemma test_read_exact_loopback:
  "map_option fst (read_exact closing_os sim_socket 4 TreatAsError (sim_start [0xDE, 0xAD, 0xBE, 0xEF])) =
     Some (Ok [0xDE, 0xAD, 0xBE, 0xEF])"
  by (simp add: read_exact_def read_exact_loop.simps closing_os_def sim_recv_def sim_start_def)

lemma test_peer_close_detected:
  "map_option fst (read_exact closing_os sim_socket 4 TreatAsError (sim_start [])) = Some (Err peer_closed)"
  "kind peer_closed = ConnectionClosed"
  by (simp_all add: read_exact_def read_exact_loop.simps closing_os_def sim_recv_def sim_start_def peer_closed_def)

lemma test_tls_scaffold:
  "map_sum kind id (fst (TlsSocket_connect ''localhost'' 5551 100 new_TlsSocket)) = Inl ConnectFailed"
  "\<not> socket_valid (fst (take_socket (snd (TlsSocket_connect ''localhost'' 5551 100 new_TlsSocket))))"
  by code_simp+

end
