(* ===== verification/Spec2Isabelle.thy ===== *)
theory Spec2Isabelle
  imports Wire_Properties Dispatcher_Properties Connection_Properties Typed_Values Writer Unit_Tests
begin

text \<open>
  A verification development for the C++ client of the RabbitMQ stream protocol
  (\<open>src/cpp_rabbitmq_client_stream\<close>; the paths below are relative to it).

  \<^bold>\<open>The program.\<close> \<open>StreamClient\<close> (\<open>src/client.cpp\<close>) owns one TCP connection to a broker. \<open>connect\<close> resolves
  the host, connects with a timeout (\<open>src/socket.cpp\<close>) and runs the five-step handshake
  (\<open>src/handshake.cpp\<close>); it then starts an I/O thread, which reads frames and hands them to the
  dispatcher, and a heartbeat thread. A lifecycle command takes a correlation id, registers a promise
  with the dispatcher (\<open>src/dispatcher.cpp\<close>), writes its request frame and waits for the future. The
  frames (\<open>src/frame.cpp\<close>) and the bodies of the commands (\<open>include/stream/commands\<close>) are built from the
  primitive codec (\<open>src/codec.cpp\<close>) over byte buffers (\<open>include/stream/buffer.hpp\<close>); strings are checked
  by \<open>src/utf8.cpp\<close>. Every operation that can fail returns a result or a typed error
  (\<open>include/stream/errors.hpp\<close>, \<open>third_party/rmqstream/expected_like.hpp\<close>).

  \<^bold>\<open>The theories\<close>, each importing the ones it builds on:
  \<^item> \<open>Stream_Prelude\<close>: machine types, \<open>size_t\<close> subtraction, strings as bytes, big-endian split and join
    with their two round trips, and the rule collections.
  \<^item> \<open>Errors\<close>, \<open>Config\<close>: error kinds, results as sums, the configuration with its validation.
  \<^item> \<open>Buffer\<close>: writer and reader. A reader operation returns its result and the reader after it; \<open>rbind\<close>
    is the early return of the code. The locales \<open>wire_codec\<close> and \<open>canonical_codec\<close> are the contract of
    a wire type: what its writer appends, that its reader returns the value from these bytes, and that
    it accepts nothing else.
  \<^item> \<open>Utf8\<close>: the validator as an index loop on words, and UTF-8 as the encoding of scalar values.
  \<^item> \<open>Codec\<close>: integers, strings, byte arrays, counts; every one interprets the contract, and the locale
    \<open>codec_array\<close> gives the contract of arrays from that of their elements.
  \<^item> \<open>Frame\<close>, \<open>Commands\<close>: frames and the 21 command structs; the locales \<open>request_command\<close> and
    \<open>response_command\<close> combine the contract of a body with that of a frame and are interpreted for
    every struct.
  \<^item> \<open>Dispatcher\<close>: the pending map, the shared states of promises and futures, the contract
    \<open>dispatcher_operation\<close> that every operation of the class interprets, and \<open>disp_step\<close>, in which the
    critical sections and the \<open>set_value\<close> calls of all threads interleave. \<open>Dispatcher_Spec\<close>: an abstract board
    of waiting requests and outcomes, which the operations implement.
  \<^item> \<open>Socket\<close>: descriptors, resolution, connecting, the loops around \<open>send\<close> and \<open>recv\<close>, \<open>read_frame\<close>.
  \<^item> \<open>Writer\<close>: \<open>SocketWriter\<close> with its mutex, run by several threads; \<open>write_all\<close> of \<open>Socket\<close> is a run of it.
  \<^item> \<open>Handshake\<close>: the steps of \<open>run_handshake\<close>, and the specification of the exchange: \<open>script_result\<close>
    says what a client must make of the frames of a server, \<open>handshake_bytes\<close> what it must send.
  \<^item> \<open>Client\<close>: the members of \<open>StreamClient\<close> as a record, its operations and threads, and \<open>client_step\<close>,
    one rule per critical section or atomic access of any thread.
  \<^item> \<open>Schedule\<close>: schedules of the two threads of a client as instances of \<open>env\<close>. In \<open>scheduled\<close> the heartbeat thread
    makes any number of checks in a wait before the I/O thread takes a turn of its loop, and \<open>join\<close> runs both
    loops to their end, also when the I/O thread is inside a read; \<open>serving\<close> is the schedule of the I/O thread alone.
  \<^item> \<open>Session\<close>: the client under a schedule. The locales \<open>answering_session\<close>, \<open>scheduled_session\<close>, \<open>served_session\<close>
    and \<open>reachable_session\<close> are the contract of a working connection, and every operation of the client is
    shown in them to complete, with the bytes it exchanges. \<open>Server_Script\<close>: the frames of a server that follows
    the protocol in the handshake, built from the values it conveys, and the result they have.
  \<^item> \<open>IO_Thread\<close>: the I/O thread over a whole stream of frames: several requests pending at once, and the
    end of the stream. \<open>Keepalive\<close>: the rounds of the heartbeat thread, and the I/O thread when the server
    has gone silent.
  \<^item> \<open>Getting_Started\<close>: the example program, one definition per section of its \<open>main\<close>, and its run in a
    session.
  \<^item> \<open>Simulation\<close>: a concrete operating system and schedule on which the definitions are run; it
    interprets the sessions, with a busy schedule. Two more machines have a server that closes the
    connection and one that goes silent; \<open>Connection_Properties\<close> has one whose server challenges for ever.
  \<^item> \<open>Typed_Values\<close>: the types of everything that is decoded from the bytes of the server.
  \<^item> \<open>Unit_Tests\<close>: the unit tests of the repository, replayed on the definitions.
  \<^item> \<open>Wire_Properties\<close>, \<open>Dispatcher_Properties\<close>, \<open>Connection_Properties\<close> and this theory: the
    properties, with an instance of each on concrete data.

  \<^bold>\<open>State and effects.\<close> The operating system is a parameter, the record \<open>os\<close> with one field per system
  call over a world of any type; what the code relies on is stated as named hypotheses
  (\<open>tcp_stream\<close>, \<open>interrupts_bounded\<close>, \<open>recv_delivers\<close>, \<open>recv_ends\<close>, \<open>silent\<close>, \<open>send_accepts\<close>, \<open>fd_table\<close>,
  \<open>calls_keep_fds\<close>), which \<open>Simulation\<close> discharges for a system that splits and interrupts every transfer. The log sink is
  a callback of the application, a function on the world. An operation of a client runs on the pair of
  its record and the world. The parameter \<open>env\<close> says what the other threads do where an operation waits for a
  future, joins threads (None: they never end), sleeps, or is between two of its critical sections;
  \<open>env_ok\<close> says that they take steps of \<open>client_step\<close>, that joined threads have ended, and that only the I/O thread
  ends itself while it runs. Loops that may not end (the retries after a signal,
  the challenge loop, the I/O and heartbeat loops) are partial functions whose value None means that
  they do not return; that they do return is a theorem (\<open>write_all_total\<close>, \<open>read_frame_in_step\<close>,
  \<open>handshake_terminates\<close>, \<open>close_completes\<close>, \<open>peer_close_handled\<close>, \<open>silent_server_detected\<close>), with no fuel
  anywhere. None also stands for the exception of \<open>future::get\<close> on a broken promise. Clock values are integers in nanoseconds.

  \<^bold>\<open>What is shown.\<close>
  \<^item> Wire format: the UTF-8 validator accepts exactly UTF-8; every codec, frame and command is read back
    from its bytes and the canonical ones accept nothing else; decoders stay inside their buffer; a
    frame too short for its correlation id is refused although a subtraction wraps; every decoded value
    is well typed, whatever the server sends.
  \<^item> Dispatcher: in every interleaving no promise is set twice and no future is lost; the operations
    implement the abstract board.
  \<^item> Byte stream: \<open>write_all\<close> and \<open>read_frame\<close> return, lose no byte and keep the frame boundary; a
    receive timeout consumes nothing; connecting leaks no descriptor; frames of concurrent writers stay
    in one piece.
  \<^item> Handshake: it succeeds with every server that follows the protocol, and its success implies a script of
    the server with this result, with exactly the prescribed bytes in both directions. (The scripts allow
    bytes after the last field of a body, which the decoders do not notice: \<open>longer_open_accepted\<close>.) Refusals are
    mapped; the handshake returns if the server stops sending and may run for ever otherwise; the
    negotiated limits are bounded.
  \<^item> Client: invariants of every run (at most one callback, monotone state, no lost future); every
    operation is a run of the steps; requests, their responses and the result for every response code; when
    commands are refused; every result of \<open>connect\<close>; \<open>close\<close> with an answering server and whatever else happens;
    the heartbeat.
  \<^item> I/O thread: the responses to requests that are pending together reach their own futures in any order;
    when the server closes the connection, also in the middle of a frame, the thread ends, every future
    that existed has a value (its response, or \<open>ConnectionClosed\<close>) and the application is told once.
  \<^item> Heartbeats: the client is never silent for longer than the negotiated interval and one period of its
    thread; a silent server is noticed after two intervals and at most one receive timeout.
  \<^item> Progress: on a working connection a request is answered, and the example program runs to its end
    with status 0 and exactly the prescribed bytes. The hypothesis on the clock (\<open>clock_within\<close>) is that
    less than the request timeout passes. Where the heartbeat thread is scheduled, the heartbeat interval is
    0 or not shorter than that time, so that no heartbeat is due.

  \<^bold>\<open>Granularity.\<close> The assignments of \<open>connect\<close> between the change of the state to \<open>Open\<close> and the start of
  the threads are one step, as no other thread of the client exists before. At the level of the client
  the operations of the dispatcher are single steps; \<open>Dispatcher\<close> refines them to critical sections and
  single \<open>set_value\<close> calls. \<open>write_all\<close> is one step of a client; \<open>Writer\<close> refines it to the calls of \<open>send\<close>
  and shows that the mutex makes this sound. A check of the heartbeat thread is one step on the time of the
  last outbound frame, and what the other threads do while it sleeps is one step of \<open>env\<close>. In the error
  branches of the I/O thread and at the end of \<open>close\<close>, other threads may run between \<open>fail_all_pending\<close>, the test of
  \<open>closing_\<close>, the notification and the last change of the state; a request registered in such a gap keeps
  waiting until its own timeout, and the statements say so. Storing the inbound time, reaping and dispatching
  a frame that was read follow each other without a step of another thread.

  \<^bold>\<open>Not modelled.\<close> The tests that need a broker (\<open>tests/integration\<close>) and the test driver; the unit tests are
  replayed as lemmas. Move semantics, reserved capacity and memory exhaustion (a declared array count or
  frame size is allocated before its bytes arrive); data races of members that the code reads without a
  lock; a system call that blocks for ever, as \<open>recv\<close> may when heartbeats are off and no receive timeout is
  set; the TLS socket beyond its only behaviour, the refusal to connect.
\<close>

section \<open>An open connection\<close>

text \<open>
  The client after \<open>connect\<close> with the default configuration to the server of \<open>Connection_Properties\<close>,
  on the descriptor 3; the statements are tried on it.
\<close>

definition sim_client :: "sim client" where
  "sim_client = become_open 0 0 (store_handshake sim_result
     ((set_state Connecting (StreamClient default_config))\<lparr>cl_sock := sim_socket, cl_writer := True, cl_reader := True\<rparr>))"

lemma sim_client_steps: "client_steps (StreamClient default_config) sim_client"
proof -
  let ?c = "StreamClient default_config :: sim client"
  have "client_step ?c (set_state Connecting ?c)"
    by (rule client_step.start_connect) (simp add: StreamClient_def)
  moreover have "client_steps (set_state Connecting ?c) sim_client"
    unfolding sim_client_def by (rule connect_session_steps(2)) (simp add: set_state_def)
  ultimately show ?thesis by (rule converse_rtranclp_into_rtranclp)
qed

lemma sim_client_ok: "client_ok sim_client"
  using client_steps_ok [OF sim_client_steps client_ok_new] by blast

lemma sim_client_fields [simp]:
  "cl_state sim_client = Open" "cl_sock sim_client = sim_socket" "cl_io_thread sim_client"
  "cl_cfg sim_client = default_config" "cl_next_app_cid sim_client = 100"
  "cl_negotiated_frame_max sim_client = 65536" "cl_dispatcher sim_client = new_dispatcher"
  "cl_writer sim_client" "cl_negotiated_heartbeat sim_client = 30" "\<not> cl_stop_io sim_client"
  "cl_last_outbound_at sim_client = 0" "\<not> cl_closing sim_client" "\<not> cl_unexpected_fired sim_client"
  "cl_callbacks sim_client = []" "cl_heartbeat_thread sim_client" "cl_last_inbound_at sim_client = 0"
  by (simp_all add: sim_client_def become_open_def store_handshake_def set_state_def StreamClient_def sim_result_def)

lemma sim_client_cids: "cids_below sim_client"
  by (simp add: cids_below_def new_dispatcher_def)

text \<open>The same client with two pending requests and a registered handler.\<close>

definition two_waiting :: "sim client" where
  "two_waiting =
     (let c = on_unexpected_close (Some 7) sim_client;
          (cid, c) = next_app_cid c;
          (_, c) = client_register cid 10000000000 c;
          (cid, c) = next_app_cid c;
          (_, c) = client_register cid 10000000000 c
      in c)"

lemma two_waiting_steps: "client_steps sim_client two_waiting"
proof -
  let ?c1 = "on_unexpected_close (Some 7) sim_client"
  let ?c2 = "snd (next_app_cid ?c1)"
  let ?c3 = "snd (client_register (fst (next_app_cid ?c1)) 10000000000 ?c2)"
  let ?c4 = "snd (next_app_cid ?c3)"
  have "client_step ?c4 (snd (client_register (fst (next_app_cid ?c3)) 10000000000 ?c4))"
    by (rule client_step.register_request)
  then have "client_step ?c4 two_waiting"
    by (simp only: two_waiting_def case_prod_unfold Let_def)
  moreover have "client_step sim_client ?c1" "client_step ?c1 ?c2" "client_step ?c2 ?c3" "client_step ?c3 ?c4"
    by (rule client_step.set_callback client_step.next_cid client_step.register_request)+
  ultimately show ?thesis by (meson converse_rtranclp_into_rtranclp rtranclp.rtrancl_refl)
qed

lemma two_waiting_fields:
  "cl_state two_waiting = Open" "cl_sock two_waiting = sim_socket" "cl_cfg two_waiting = default_config"
  "cl_io_thread two_waiting" "cl_writer two_waiting" "\<not> cl_stop_io two_waiting" "\<not> cl_closing two_waiting"
  "\<not> cl_unexpected_fired two_waiting" "cl_callbacks two_waiting = []" "cl_on_unexpected_close two_waiting = Some 7"
  "cl_next_app_cid two_waiting = 102"
  "ds_pending (cl_dispatcher two_waiting) = [(101, \<lparr>pe_promise = 1, pe_deadline = 10000000000\<rparr>),
     (100, \<lparr>pe_promise = 0, pe_deadline = 10000000000\<rparr>)]"
  by (simp_all add: two_waiting_def case_prod_unfold Let_def on_unexpected_close_def next_app_cid_def client_register_def
      register_pending_def new_dispatcher_def)

lemma two_waiting_ready: "ready two_waiting"
  using client_steps_ok [OF two_waiting_steps sim_client_ok]
  by (simp add: ready_def cids_below_def two_waiting_fields)

lemma sim_now: "os_now sim_os w = (sim_clock w, w\<lparr>sim_clock := sim_clock w + 1000\<rparr>)"
  by (simp add: sim_os_def)

text \<open>A request on it whose response is the next frame of the server.\<close>

lemma sim_request:
  assumes "valid_frame f" and "is_response (fr_key f)" and "fr_cid f = Some 100" and "length body \<le> 65528"
  obtains c1 w1 w2 c2 w3 where
    "begin_request sim_os key version body (sim_client, sim_start (enc_frame f)) = Some (Ok 0, (c1, w1))"
    "io_handle sim_os sim_env (Ok f) (c1, w2) = (True, (c2, w3))" "sim_clock w2 = 2000"
    "env_wait_for sim_env 0 (cfg_request_timeout (cl_cfg c1)) (c1, w1) = (True, (c2, w3))"
proof -
  obtain c1 w1 where b: "begin_request sim_os key version body (sim_client, sim_start (enc_frame f)) =
      Some (Ok 0, (c1, w1))"
    using begin_request_succeeds [OF sim_interrupts_bounded sim_send_accepts, of sim_client body key version
        "sim_start (enc_frame f)"] assms(4)
    by (auto simp: new_dispatcher_def)
  from b have "sim_in w1 = enc_frame f \<and> cl_sock c1 = sim_socket \<and> cl_io_thread c1 \<and> \<not> cl_stop_io c1 \<and> sim_clock w1 = 2000"
  proof (cases rule: begin_request_cases)
    case (written now w' t w'' wr)
    from written(1,2) have w: "sim_clock w'' = 2000" "sim_in w'' = enc_frame f" by (auto simp: sim_now)
    have "send_keeps sim_os (sock_fd (cl_sock sim_client)) sim_in"
      using sim_tcp_stream by (auto simp: tcp_stream_def)
    from write_all_keeps [OF written(3) this] write_all_keeps [OF written(3) sim_clock_keeps(1)] w written(5)
    show ?thesis by (simp add: registered_def section_defs)
  qed simp_all
  then have 1: "sim_in w1 = enc_frame f" "cl_sock c1 = sim_socket" "cl_io_thread c1" "\<not> cl_stop_io c1" "sim_clock w1 = 2000"
    by simp_all
  have "recv_takes sim_os (sock_fd sim_socket) sim_in"
    using sim_tcp_stream by (auto simp: tcp_stream_def)
  from read_frame_delivers [OF sim_interrupts_bounded this sim_recv_delivers assms(1), of w1 "[]"] 1(1)
  obtain w2 where w2: "read_frame sim_os sim_socket w1 = Some (Ok f, w2)" by auto
  then have clock: "sim_clock w2 = 2000"
    using read_frame_keeps [OF w2 sim_clock_keeps(2)] 1(5) by simp
  obtain go_on c2 w3 where h: "io_handle sim_os sim_env (Ok f) (c1, w2) = (go_on, (c2, w3))" by (metis prod.exhaust)
  have res: "go_on" "ds_shared (cl_dispatcher c2) ! 0 = Ready (Ok f)"
    using request_resolved [OF b sim_client_ok sim_client_cids _ assms(2) _ h] assms(3) clock
    by (simp_all add: sim_now ms_def default_config_def)
  have "io_turn sim_os (c1, w1) = (c2, w3)" by (rule io_turn_frame [OF 1(3,4) _ h]) (use w2 1(2) in simp)
  with res have "env_wait_for sim_env 0 (cfg_request_timeout (cl_cfg c1)) (c1, w1) = (True, (c2, w3))"
    by (simp add: serving_wait)
  then show thesis using that [OF b _ clock] h res(1) by simp
qed

lemma sim_answered:
  assumes "valid_frame f" and "is_response (fr_key f)" and "fr_cid f = Some 100" and "length body \<le> 65528"
  shows "\<exists>st. send_and_wait sim_os sim_env key version body (sim_client, sim_start (enc_frame f)) =
    Some (Ok f, st)"
proof -
  obtain c1 w1 w2 c2 w3 where r:
    "begin_request sim_os key version body (sim_client, sim_start (enc_frame f)) = Some (Ok 0, (c1, w1))"
    "io_handle sim_os sim_env (Ok f) (c1, w2) = (True, (c2, w3))" "sim_clock w2 = 2000"
    "env_wait_for sim_env 0 (cfg_request_timeout (cl_cfg c1)) (c1, w1) = (True, (c2, w3))"
    by (rule sim_request [OF assms])
  have "client_ok c2 \<and> 0 < length (ds_shared (cl_dispatcher c2)) \<and> ds_shared (cl_dispatcher c2) ! 0 = Ready (Ok f)"
    using request_resolved [OF r(1) sim_client_ok sim_client_cids _ assms(2) _ r(2)] assms(3) r(3)
    by (simp add: sim_now ms_def default_config_def)
  then have "await_response sim_env 0 (c1, w1) = Some (Ok f, (c2, w3))"
    by (intro await_response_answered [OF _ _ _ _ r(4)]) auto
  from send_and_wait_eq [OF r(1) this] show ?thesis by blast
qed

section \<open>The connection as a whole\<close>

text \<open>
  C1. In every run of the steps of all threads of a client: no promise is set twice, a future keeps
  its value, every future without a value still has its entry (so the response, the reaper or the end
  of the connection will settle it), the unexpected-close callback is started at most once, and the
  connection state only moves forward; \<open>Closed\<close> is final.
\<close>

theorem client_always_ok:
  assumes "client_steps (StreamClient cfg) c" and "client_steps c c'"
  shows "\<not> ds_terminated (cl_dispatcher c') \<and> settles_once (cl_dispatcher c) (cl_dispatcher c') \<and>
    unsettled (cl_dispatcher c') = set (promises (ds_pending (cl_dispatcher c'))) \<and>
    length (cl_callbacks c') \<le> 1 \<and> state_rank (cl_state c) \<le> state_rank (cl_state c')"
proof -
  have "client_ok c" using client_steps_ok [OF assms(1) client_ok_new] by blast
  from client_steps_ok [OF assms(2) this] show ?thesis by (simp add: client_ok_def owned_ok_def)
qed

theorem client_always_ok_witness:
  "\<not> ds_terminated (cl_dispatcher (begin_closing sim_client)) \<and>
   length (cl_callbacks (begin_closing sim_client)) \<le> 1 \<and>
   state_rank (cl_state sim_client) \<le> state_rank (cl_state (begin_closing sim_client))"
proof -
  have "client_step sim_client (begin_closing sim_client)" by (rule client_step.closing) simp
  from client_always_ok [OF sim_client_steps r_into_rtranclp, OF this] show ?thesis by blast
qed

text \<open>
  C17. Every operation of the class, the two threads and the destructor, as the code has them, are
  runs of these steps, if the other threads take such steps while the operation blocks. So what holds
  in every run of the steps holds at the end of every operation.
\<close>

theorem operations_are_client_steps:
  assumes "env_ok env"
  shows "stepwise (connect os) \<and> stepwise (client_close os env) \<and>
    stepwise (create_stream os env stream args idempotent) \<and>
    stepwise (delete_stream os env stream idempotent) \<and>
    stepwise (store_offset os reference stream offset) \<and>
    stepwise (query_offset os env reference stream) \<and>
    stepwise (query_publisher_sequence os env reference stream) \<and>
    (io_loop os env (c, w) = Some (c1, w1) \<and> cl_io_thread c \<longrightarrow> client_steps c c1) \<and>
    (heartbeat_loop os env (c, w) = Some (c2, w2) \<longrightarrow> client_steps c c2 \<and> cl_stop_io c2) \<and>
    (destroy os env (c, w) = Some (c3, w3) \<longrightarrow> client_steps c c3)"
proof -
  have "client_steps c c1" if "io_loop os env (c, w) = Some (c1, w1)" "cl_io_thread c"
    using io_loop_steps [OF that(1)] that(2) assms by simp
  moreover have "client_steps c c2 \<and> cl_stop_io c2" if "heartbeat_loop os env (c, w) = Some (c2, w2)"
    using heartbeat_loop_steps [OF that] assms by simp
  moreover have "client_steps c c3" if "destroy os env (c, w) = Some (c3, w3)"
    by (rule destroy_steps [OF that assms])
  ultimately show ?thesis
    by (intro conjI impI stepwise_lifecycle [OF assms] stepwise_connect stepwise_close [OF assms]
        stepwise_store_offset) auto
qed

theorem operations_are_client_steps_witness:
  "stepwise (client_close sim_os sim_env) \<and> stepwise (create_stream sim_os sim_env ''s1'' [] True)"
  using operations_are_client_steps [OF serving_ok [of sim_os]] by blast






section \<open>Requests\<close>

text \<open>
  C18. A request that \<open>send_and_wait\<close> has sent: exactly the bytes of its frame went out and nothing was
  read; the frame respects the negotiated maximum; and the future it waits for is unset and is
  registered under the correlation id of the frame, which no other pending request has.
\<close>

theorem request_sent:
  assumes "begin_request os key version body (c, w) = Some (Ok p, (c1, w1))"
    and "tcp_stream os (sock_fd (cl_sock c)) out inp" and "now_keeps os out" "now_keeps os inp"
    and "cids_below c"
  shows "out w1 = out w @ encode_request_frame key version (cl_next_app_cid c) body \<and> inp w1 = inp w \<and>
    (cl_negotiated_frame_max c = 0 \<or> 8 + length body \<le> unat (cl_negotiated_frame_max c)) \<and>
    map_of (ds_pending (cl_dispatcher c)) (cl_next_app_cid c) = None \<and>
    (\<exists>deadline. (cl_next_app_cid c, \<lparr>pe_promise = p, pe_deadline = deadline\<rparr>)
       \<in> set (ds_pending (cl_dispatcher c1))) \<and>
    p < length (ds_shared (cl_dispatcher c1)) \<and> ds_shared (cl_dispatcher c1) ! p = Unset"
proof -
  have "cl_next_app_cid c \<notin> fst ` set (ds_pending (cl_dispatcher c))"
    using assms(5) by (auto simp: cids_below_def)
  then have "map_of (ds_pending (cl_dispatcher c)) (cl_next_app_cid c) = None"
    by (simp add: map_of_eq_None_iff)
  with begin_request_ok [OF assms] show ?thesis by (simp add: exchanged_def)
qed

theorem request_sent_witness:
  "\<exists>c1 w1. begin_request sim_os CreateRequest_kKey 1 [0, 1, 65] (sim_client, sim_start []) = Some (Ok 0, (c1, w1)) \<and>
     sim_out w1 = encode_request_frame CreateRequest_kKey 1 100 [0, 1, 65] \<and>
     ds_shared (cl_dispatcher c1) ! 0 = Unset"
proof -
  obtain c1 w1 where b: "begin_request sim_os CreateRequest_kKey 1 [0, 1, 65] (sim_client, sim_start []) =
      Some (Ok 0, (c1, w1))"
    using begin_request_succeeds [OF sim_interrupts_bounded sim_send_accepts, of sim_client "[0, 1, 65]"
        CreateRequest_kKey 1 "sim_start []"]
    by (auto simp: new_dispatcher_def)
  from request_sent [OF b sim_tcp_stream sim_now_keeps sim_client_cids] b show ?thesis by auto
qed

text \<open>
  C5. The response finds its request: when the I/O thread handles a response with the correlation id
  of a request before its deadline, \<open>send_and_wait\<close> returns this response, whatever the other threads
  do between that moment and the return of \<open>wait_for\<close>.
\<close>

theorem request_answered:
  assumes "begin_request os key version body (c, w) = Some (Ok p, (c1, w1))"
    and "client_ok c" and "cids_below c" and "cl_io_thread c"
    and "is_response (fr_key f)" and "fr_cid f = Some (cl_next_app_cid c)"
    and "io_handle os env (Ok f) (c1, w2) = (go_on, (c2, w3))"
    and "fst (os_now os (snd (os_now os w2))) < fst (os_now os w) + ms (cfg_request_timeout (cl_cfg c))"
    and "client_steps c2 c3"
    and "env_wait_for env p (cfg_request_timeout (cl_cfg c1)) (c1, w1) = (True, (c3, w4))"
  shows "send_and_wait os env key version body (c, w) = Some (Ok f, (c3, w4)) \<and> go_on \<and>
    cl_callbacks c2 = cl_callbacks c1"
proof -
  note res = request_resolved [OF assms(1-8)]
  have "await_response env p (c1, w1) = Some (Ok f, (c3, w4))"
    using res by (intro await_response_answered [OF _ _ _ assms(9,10)]) blast+
  moreover have "cl_callbacks c2 = cl_callbacks c1"
    using assms(7) by (auto simp: io_handle_def Let_def case_prod_unfold section_defs)
  ultimately show ?thesis using res send_and_wait_eq [OF assms(1)] by blast
qed

lemma answer_100_frame: "valid_frame answer_100" "is_response (fr_key answer_100)" "fr_cid answer_100 = Some 100"
  by (simp_all add: answer_100_def valid_frame_def frame_size_def enc_cid_def)

theorem request_answered_witness:
  "\<exists>st. send_and_wait sim_os sim_env CreateRequest_kKey 1 [0, 1, 65] (sim_client, sim_start (enc_frame answer_100)) =
     Some (Ok answer_100, st)"
proof -
  obtain c1 w1 w2 c2 w3 where r:
    "begin_request sim_os CreateRequest_kKey 1 [0, 1, 65] (sim_client, sim_start (enc_frame answer_100)) =
      Some (Ok 0, (c1, w1))"
    "io_handle sim_os sim_env (Ok answer_100) (c1, w2) = (True, (c2, w3))" "sim_clock w2 = 2000"
    "env_wait_for sim_env 0 (cfg_request_timeout (cl_cfg c1)) (c1, w1) = (True, (c2, w3))"
    by (rule sim_request [OF answer_100_frame, of "[0, 1, 65]" CreateRequest_kKey 1]) simp
  have "fst (os_now sim_os (snd (os_now sim_os w2))) <
      fst (os_now sim_os (sim_start (enc_frame answer_100))) + ms (cfg_request_timeout (cl_cfg sim_client))"
    using r(3) by (simp add: sim_now ms_def default_config_def)
  from request_answered [OF r(1) sim_client_ok sim_client_cids _ answer_100_frame(2) _ r(2) this _ r(4)]
  show ?thesis using answer_100_frame(3) by auto
qed

text \<open>
  C13. What the application is told, for every response code: success, the value of a query, the absence of
  an offset, or the error that the code stands for. With \<open>idempotent\<close>, creating a stream that exists and
  deleting one that does not are successes like any other: the response code is not passed on, so the
  application cannot tell them from a creation or a deletion.
\<close>

theorem command_results:
  assumes "cl_state c = Open" and "length reference \<le> 256"
    and "send_and_wait os env CreateRequest_kKey kVersion
      (enc_CreateRequest \<lparr>crq_stream = stream, crq_arguments = args\<rparr>) (c, w1) = Some (Ok f1, st1)"
    and "fr_body f1 = enc_CreateResponse \<lparr>crr_response_code = rc1\<rparr>"
    and "send_and_wait os env DeleteRequest_kKey kVersion
      (enc_DeleteRequest \<lparr>dlq_stream = stream\<rparr>) (c, w2) = Some (Ok f2, st2)"
    and "fr_body f2 = enc_DeleteResponse \<lparr>dlr_response_code = rc2\<rparr>"
    and "send_and_wait os env QueryOffsetRequest_kKey kVersion
      (enc_QueryOffsetRequest \<lparr>qoq_reference = reference, qoq_stream = stream\<rparr>) (c, w3) = Some (Ok f3, st3)"
    and "fr_body f3 = enc_QueryOffsetResponse \<lparr>qor_response_code = rc3, qor_offset = offset\<rparr>"
    and "send_and_wait os env QueryPublisherRequest_kKey kVersion
      (enc_QueryPublisherRequest \<lparr>qpq_publisher_reference = reference, qpq_stream = stream\<rparr>) (c, w4) =
        Some (Ok f4, st4)"
    and "fr_body f4 = enc_QueryPublisherResponse \<lparr>qpr_response_code = rc4, qpr_sequence = seq\<rparr>"
  shows "create_stream os env stream args idempotent (c, w1) =
      Some (if rc1 = 0x01 \<or> rc1 = 0x05 \<and> idempotent then Ok ()
            else if rc1 = 0x05 then Err (StreamError StreamAlreadyExists (''stream already exists: '' @ stream))
            else Err (StreamErrorCode ServerError ''create_stream failed'' rc1), st1) \<and>
    delete_stream os env stream idempotent (c, w2) =
      Some (if rc2 = 0x01 \<or> rc2 = 0x02 \<and> idempotent then Ok ()
            else if rc2 = 0x02 then Err (StreamError StreamDoesNotExist (''stream does not exist: '' @ stream))
            else Err (StreamErrorCode ServerError ''delete_stream failed'' rc2), st2) \<and>
    query_offset os env reference stream (c, w3) =
      Some (if rc3 = 0x01 then Ok (Some offset) else if rc3 = 0x13 then Ok None
            else if rc3 = 0x02 then Err (StreamError StreamDoesNotExist (''stream does not exist: '' @ stream))
            else Err (StreamErrorCode ServerError ''query_offset failed'' rc3), st3) \<and>
    query_publisher_sequence os env reference stream (c, w4) =
      Some (if rc4 = 0x01 then Ok seq
            else if rc4 = 0x02 then Err (StreamError StreamDoesNotExist (''stream does not exist: '' @ stream))
            else Err (StreamErrorCode ServerError ''query_publisher_sequence failed'' rc4), st4)"
proof -
  note results = create_stream_result [OF assms(1,3,4)] delete_stream_result [OF assms(1,5,6)]
    query_offset_result [OF assms(1,7,8)] query_publisher_sequence_result [OF assms(1,2,9,10)]
  show ?thesis
    by (intro conjI) (rule results)+
qed

lemma sim_response:
  assumes "is_response key" and "length body \<le> 100" and "length req \<le> 65528"
  shows "\<exists>f st. send_and_wait sim_os sim_env k kVersion req (sim_client, sim_start (enc_frame (response_frame key 100 body))) =
    Some (Ok f, st) \<and> fr_body f = body"
proof -
  let ?f = "response_frame key 100 body"
  have "valid_frame ?f" "is_response (fr_key ?f)" "fr_cid ?f = Some 100" "fr_body ?f = body"
    using assms(1,2) by (simp_all add: response_frame_def valid_frame_def frame_size_def enc_cid_def)
  with sim_answered [OF _ _ _ assms(3), of ?f k kVersion] show ?thesis by blast
qed

theorem command_results_witness:
  "\<exists>st1 st2 st3.
     create_stream sim_os sim_env ''s1'' [] True (sim_client, sim_start (enc_frame
       (response_frame CreateResponse_kKey 100 (enc_CreateResponse \<lparr>crr_response_code = 0x05\<rparr>)))) = Some (Ok (), st1) \<and>
     delete_stream sim_os sim_env ''s1'' True (sim_client, sim_start (enc_frame
       (response_frame DeleteResponse_kKey 100 (enc_DeleteResponse \<lparr>dlr_response_code = 0x01\<rparr>)))) = Some (Ok (), st2) \<and>
     query_offset sim_os sim_env ''r'' ''s1'' (sim_client, sim_start (enc_frame
       (response_frame QueryOffsetResponse_kKey 100
          (enc_QueryOffsetResponse \<lparr>qor_response_code = 0x13, qor_offset = 0\<rparr>)))) = Some (Ok None, st3)"
proof -
  let ?b1 = "enc_CreateResponse \<lparr>crr_response_code = 0x05\<rparr>" and ?b2 = "enc_DeleteResponse \<lparr>dlr_response_code = 0x01\<rparr>"
    and ?b3 = "enc_QueryOffsetResponse \<lparr>qor_response_code = 0x13, qor_offset = 0\<rparr>"
    and ?b4 = "enc_QueryPublisherResponse \<lparr>qpr_response_code = 0x01, qpr_sequence = 9\<rparr>"
  have len: "length ?b1 \<le> 100" "length ?b2 \<le> 100" "length ?b3 \<le> 100" "length ?b4 \<le> 100"
    by (simp_all add: enc_CreateResponse_def enc_DeleteResponse_def enc_QueryOffsetResponse_def
        enc_QueryPublisherResponse_def)
  have req: "length (enc_CreateRequest \<lparr>crq_stream = ''s1'', crq_arguments = []\<rparr>) \<le> 65528"
    "length (enc_DeleteRequest \<lparr>dlq_stream = ''s1''\<rparr>) \<le> 65528"
    "length (enc_QueryOffsetRequest \<lparr>qoq_reference = ''r'', qoq_stream = ''s1''\<rparr>) \<le> 65528"
    "length (enc_QueryPublisherRequest \<lparr>qpq_publisher_reference = ''r'', qpq_stream = ''s1''\<rparr>) \<le> 65528"
    by (simp_all add: enc_CreateRequest_def enc_DeleteRequest_def enc_QueryOffsetRequest_def
        enc_QueryPublisherRequest_def enc_kvs_def enc_string_def INT16_MAX_def)
  from sim_response [OF crr.response_key len(1) req(1), of CreateRequest_kKey]
    sim_response [OF dlr.response_key len(2) req(2), of DeleteRequest_kKey]
    sim_response [OF qor.response_key len(3) req(3), of QueryOffsetRequest_kKey]
    sim_response [OF qpr.response_key len(4) req(4), of QueryPublisherRequest_kKey]
  obtain f1 st1 f2 st2 f3 st3 f4 st4 where runs:
    "send_and_wait sim_os sim_env CreateRequest_kKey kVersion (enc_CreateRequest \<lparr>crq_stream = ''s1'', crq_arguments = []\<rparr>)
       (sim_client, sim_start (enc_frame (response_frame CreateResponse_kKey 100 ?b1))) = Some (Ok f1, st1)"
    "fr_body f1 = ?b1"
    "send_and_wait sim_os sim_env DeleteRequest_kKey kVersion (enc_DeleteRequest \<lparr>dlq_stream = ''s1''\<rparr>)
       (sim_client, sim_start (enc_frame (response_frame DeleteResponse_kKey 100 ?b2))) = Some (Ok f2, st2)"
    "fr_body f2 = ?b2"
    "send_and_wait sim_os sim_env QueryOffsetRequest_kKey kVersion
       (enc_QueryOffsetRequest \<lparr>qoq_reference = ''r'', qoq_stream = ''s1''\<rparr>)
       (sim_client, sim_start (enc_frame (response_frame QueryOffsetResponse_kKey 100 ?b3))) = Some (Ok f3, st3)"
    "fr_body f3 = ?b3"
    "send_and_wait sim_os sim_env QueryPublisherRequest_kKey kVersion
       (enc_QueryPublisherRequest \<lparr>qpq_publisher_reference = ''r'', qpq_stream = ''s1''\<rparr>)
       (sim_client, sim_start (enc_frame (response_frame QueryPublisherResponse_kKey 100 ?b4))) = Some (Ok f4, st4)"
    "fr_body f4 = ?b4"
    by blast
  have "length ''r'' \<le> 256" by simp
  from command_results [OF sim_client_fields(1) this runs, of True] show ?thesis by simp
qed

section \<open>The end of a connection\<close>

lemma sim_calls_keep_fds: "calls_keep_fds sim_os default_config (\<lambda>w. set (sim_fds w))"
proof -
  have "send_keeps sim_os fd (\<lambda>w. set (sim_fds w))" "recv_keeps sim_os fd (\<lambda>w. set (sim_fds w))" for fd
    by (auto simp: send_keeps_def recv_keeps_def sim_os_def sim_send_def sim_recv_def Let_def)
  then show ?thesis
    by (simp add: calls_keep_fds_def log_keeps_def default_config_def null_logger_def)
      (simp add: sim_os_def)
qed







text \<open>
  C23. \<open>close\<close> whatever the network and the other threads do: the server may not answer, writing may fail, other
  threads may send requests and read at the same time. If the threads end once they are told to stop, \<open>close\<close>
  returns success with the state \<open>Closed\<close>, and it has joined them (they had ended in a state \<open>c3\<close> on the way). No
  future loses its value, and every request registered before that point has one. A request that another
  thread registers later, after \<open>fail_all_pending\<close>, is not covered by the code: its thread waits for its own
  timeout.
\<close>

theorem close_leaves_no_waiter:
  assumes "cl_state c = Open" and "client_ok c" and "env_ok env"
    and "interrupts_bounded os (sock_fd (cl_sock c)) budget"
    and "\<And>st. cl_stop_io (fst st) \<Longrightarrow> env_join env st \<noteq> None"
  shows "\<exists>c' w' c3. client_close os env (c, w) = Some (Ok (), (c', w')) \<and> cl_state c' = Closed \<and>
    cl_closing c' \<and> cl_stop_io c' \<and> \<not> cl_io_thread c' \<and>
    settles_once (cl_dispatcher c) (cl_dispatcher c') \<and>
    client_steps c c3 \<and> \<not> cl_io_thread c3 \<and> \<not> cl_heartbeat_thread c3 \<and> client_steps c3 c' \<and>
    unsettled (cl_dispatcher c') \<subseteq> {length (ds_shared (cl_dispatcher c3))..}"
proof -
  obtain r c' w' where run: "client_close os env (c, w) = Some (r, (c', w'))"
    using client_close_returns [OF assms(4,5), of w] by fastforce
  from client_close_done [OF run assms(1,3,2)] run show ?thesis by blast
qed

text \<open>Two requests are pending and the server never answers.\<close>

theorem close_leaves_no_waiter_witness:
  "\<exists>c' w'. client_close silent_os (serving silent_os) (two_waiting, sim_start []) = Some (Ok (), (c', w')) \<and>
     cl_state c' = Closed \<and> 0 \<notin> unsettled (cl_dispatcher c') \<and> 1 \<notin> unsettled (cl_dispatcher c')"
proof -
  have "interrupts_bounded silent_os fd sim_signals" for fd
    by (auto simp: interrupts_bounded_def silent_os_def sim_os_def sim_send_def split: if_splits)
  moreover have "env_join (serving silent_os) st \<noteq> None" if "cl_stop_io (fst st)" for st
    using join_stopped [OF that, of silent_os io_only "snd st" "\<lambda>w. ()"] by (auto simp: serving_def)
  moreover have "client_ok two_waiting" using two_waiting_ready by (simp add: ready_def)
  ultimately obtain c' w' c3 where r: "client_close silent_os (serving silent_os) (two_waiting, sim_start []) =
      Some (Ok (), (c', w'))" "cl_state c' = Closed" "client_steps two_waiting c3"
    "unsettled (cl_dispatcher c') \<subseteq> {length (ds_shared (cl_dispatcher c3))..}"
    using close_leaves_no_waiter [where env = "serving silent_os" and os = silent_os and w = "sim_start []" and
        budget = sim_signals, OF two_waiting_fields(1) _ serving_ok] by blast
  have "length (ds_shared (cl_dispatcher two_waiting)) = 2"
    by (simp add: two_waiting_def case_prod_unfold Let_def on_unexpected_close_def next_app_cid_def client_register_def
      register_pending_def new_dispatcher_def)
  then have "2 \<le> length (ds_shared (cl_dispatcher c3))"
    using client_steps_ok [OF r(3) \<open>client_ok two_waiting\<close>] by (simp add: settles_once_def)
  with r show ?thesis by fastforce
qed

lemma connect_state:
  assumes "connect os (c, w) = Some (r, (c', w'))" and "cl_state c = Disconnected \<Longrightarrow> cl_sock c = new_socket"
  shows "(case r of
      Inr _ \<Rightarrow> validate (cl_cfg c) = Ok () \<and> cl_state c = Disconnected \<and>
        cl_state c' = Open \<and> cl_io_thread c' \<and> \<not> cl_closing c' \<and>
        (\<exists>hr w1 w2. run_handshake os (cl_sock c') (cl_cfg c) w1 = Some (Ok hr, w2) \<and>
           cl_negotiated_frame_max c' = hr_negotiated_frame_max hr \<and>
           cl_negotiated_heartbeat c' = hr_negotiated_heartbeat hr \<and>
           server_properties c' = hr_server_properties hr \<and>
           connection_properties c' = hr_connection_properties hr)
    | Inl e \<Rightarrow>
        (case validate (cl_cfg c) of
           Inl e' \<Rightarrow> e = e' \<and> c' = c \<and> w' = w
         | Inr _ \<Rightarrow>
             if cl_state c = Disconnected then cl_state c' = Closed \<and> \<not> socket_valid (cl_sock c')
             else e = already_connecting \<and> c' = c \<and> w' = w))"
  using assms(1)
proof (cases rule: connect_cases)
  case (unreachable e)
  with assms(2) [OF unreachable(1)] show ?thesis by (simp add: set_state_def socket_valid_def new_socket_def)
next
  case (connected sock w1)
  from connected(4) show ?thesis
  proof (cases rule: connect_session_cases)
    case (refused e s so s' w2 w3 w4)
    then have "\<not> socket_valid s'" by (auto simp: socket_close_def socket_valid_def split: if_splits)
    with refused connected(1,2) show ?thesis by (simp add: set_state_def)
  next
    case (opened hr s so w2 w3 w4 t1 t2)
    with connected(1,2) show ?thesis
      by (auto simp: become_open_def store_handshake_def set_state_def server_properties_def
          connection_properties_def)
  qed
qed simp_all

text \<open>
  C15. Every result of \<open>connect\<close>, on a client in any state it can reach. Success means that the configuration
  was valid, the client not yet used, the TCP connection made and the handshake successful on it; the client
  is then \<open>Open\<close> with the negotiated values and the properties of the server, its I/O thread runs, and one new
  descriptor is open, the one of its socket. An invalid configuration is reported with the error of
  \<open>validate\<close>, and the client stays as it was, so \<open>Disconnected\<close> if it was new. After any other failure of a first
  \<open>connect\<close> (host, TCP, handshake) it is \<open>Closed\<close> with an invalid socket. A second \<open>connect\<close>, also on an open or
  a closed client, is refused and changes nothing. No failure leaves a descriptor open.
\<close>

theorem connect_results:
  assumes "connect os (c, w) = Some (r, (c', w'))" and "client_steps (StreamClient cfg) c"
    and "fd_table os fds" and "calls_keep_fds os (cl_cfg c) fds"
  shows "(case r of
      Inr _ \<Rightarrow> validate (cl_cfg c) = Ok () \<and> cl_state c = Disconnected \<and>
        cl_state c' = Open \<and> cl_io_thread c' \<and> \<not> cl_closing c' \<and>
        (\<exists>hr w1 w2. run_handshake os (cl_sock c') (cl_cfg c) w1 = Some (Ok hr, w2) \<and>
           cl_negotiated_frame_max c' = hr_negotiated_frame_max hr \<and>
           cl_negotiated_heartbeat c' = hr_negotiated_heartbeat hr \<and>
           server_properties c' = hr_server_properties hr \<and>
           connection_properties c' = hr_connection_properties hr)
    | Inl e \<Rightarrow>
        (case validate (cl_cfg c) of
           Inl e' \<Rightarrow> e = e' \<and> c' = c \<and> w' = w
         | Inr _ \<Rightarrow>
             if cl_state c = Disconnected then cl_state c' = Closed \<and> \<not> socket_valid (cl_sock c')
             else e = already_connecting \<and> c' = c \<and> w' = w)) \<and>
    fds w' = (case r of Inr _ \<Rightarrow> insert (sock_fd (cl_sock c')) (fds w) | Inl _ \<Rightarrow> fds w)"
proof -
  have new: "cl_state c = Disconnected \<Longrightarrow> cl_sock c = new_socket"
    using client_steps_ok [OF assms(2) client_ok_new] by (simp add: client_ok_def)
  have "fds w' = (case r of Inr _ \<Rightarrow> insert (sock_fd (cl_sock c')) (fds w) | Inl _ \<Rightarrow> fds w)"
    using connect_fds [OF assms(1) new assms(3,4)] by (auto split: sum.splits)
  with connect_state [OF assms(1) new] show ?thesis by blast
qed

text \<open>The first address refuses, the second accepts and its descriptor is again 3.\<close>

lemma sim_connects:
  "\<exists>c' w'. connect sim_os (StreamClient default_config, sim_start (script_bytes (sim_script rc_Ok))) =
     Some (Ok (), (c', w'))"
proof -
  let ?c = "set_state Connecting (StreamClient default_config) :: sim client"
  let ?w = "sim_start (script_bytes (sim_script rc_Ok))"
  have tcp: "\<exists>w1. connect_with_timeout sim_os ''localhost'' 5552 30000 (default_resolve_host sim_os) ?w =
      (Ok sim_socket, w1) \<and> sim_in w1 = script_bytes (sim_script rc_Ok)"
    by (simp add: connect_with_timeout_def default_resolve_host_def sim_os_def sim_start_def sim_fresh_def
        sim_addr_def sim_socket_def)
  then obtain w1 where w1: "connect_with_timeout sim_os ''localhost'' 5552 30000 (default_resolve_host sim_os) ?w =
      (Ok sim_socket, w1)" "sim_in w1 = script_bytes (sim_script rc_Ok)" by blast
  let ?w2 = "apply_recv_timeout sim_os 60 sim_socket w1"
  have "sim_in ?w2 = script_bytes (sim_script rc_Ok) @ []"
    using w1(2) by (simp add: apply_recv_timeout_def set_recv_timeout_def Let_def sim_os_def)
  from runsE [OF run_handshake_complete [OF sim_default_session sim_healthy sim_script_result] this]
  obtain w3 where "run_handshake sim_os sim_socket default_config ?w2 = Some (Ok sim_result, w3)" by blast
  then have "\<exists>c' w'. connect_session sim_os sim_socket (?c, w1) = Some (Ok (), (c', w'))"
    by (simp add: connect_session_def socket_move_assign_def socket_close_def socket_release_def new_socket_def
        set_state_def StreamClient_def sim_socket_def case_prod_unfold Let_def default_config_def)
  with w1(1) show ?thesis
    by (simp add: connect_def validate_default StreamClient_def connecting_to_def)
      (simp add: default_config_def null_logger_def)
qed

theorem connect_results_witness:
  "(\<exists>c' w'. connect sim_os (StreamClient default_config, sim_start (script_bytes (sim_script rc_Ok))) =
      Some (Ok (), (c', w')) \<and> cl_state c' = Open \<and> set (sim_fds w') = insert (sock_fd (cl_sock c')) {0, 1, 2}) \<and>
   (\<exists>e. connect sim_os (sim_client, sim_start []) = Some (Err e, (sim_client, sim_start [])) \<and> e = already_connecting)"
proof -
  obtain c' w' where run: "connect sim_os (StreamClient default_config, sim_start (script_bytes (sim_script rc_Ok))) =
     Some (Ok (), (c', w'))" using sim_connects by blast
  have "calls_keep_fds sim_os (cl_cfg (StreamClient default_config)) (\<lambda>w. set (sim_fds w))"
    by (simp add: StreamClient_def sim_calls_keep_fds)
  from connect_results [OF run rtranclp.rtrancl_refl sim_fd_table this] run
  have "\<exists>c' w'. connect sim_os (StreamClient default_config, sim_start (script_bytes (sim_script rc_Ok))) =
      Some (Ok (), (c', w')) \<and> cl_state c' = Open \<and> set (sim_fds w') = insert (sock_fd (cl_sock c')) {0, 1, 2}" by auto
  moreover obtain e where again: "connect sim_os (sim_client, sim_start []) = Some (Err e, (sim_client, sim_start []))"
    by (simp add: connect_def validate_default)
  moreover from connect_results [OF again sim_client_steps sim_fd_table] have "e = already_connecting"
    by (simp add: sim_calls_keep_fds validate_default)
  ultimately show ?thesis by blast
qed

text \<open>
  C16. The strings of the server are checked before the application sees them: whatever bytes arrive
  and however \<open>connect\<close> ends, the keys and values of the server properties and of the connection
  properties of the client are valid UTF-8 of at most 32767 bytes, and there are fewer than \<open>2\<^sup>3\<^sup>1\<close> of
  them.
\<close>

theorem server_strings_valid:
  assumes "connect os (StreamClient cfg, w) = Some (r, (c', w'))"
  shows "valid_kvs (server_properties c') \<and> valid_kvs (connection_properties c')"
proof -
  have "properties_typed (StreamClient cfg)"
    by (simp add: properties_typed_def server_properties_def connection_properties_def StreamClient_def valid_kvs_def)
  from connect_typed [OF assms this] show ?thesis by (simp add: properties_typed_def)
qed

theorem server_strings_valid_witness:
  "\<exists>c' w'. connect sim_os (StreamClient default_config, sim_start (script_bytes (sim_script rc_Ok))) =
     Some (Ok (), (c', w')) \<and> valid_kvs (server_properties c') \<and> valid_kvs (connection_properties c')"
  using sim_connects server_strings_valid [of sim_os default_config "sim_start (script_bytes (sim_script rc_Ok))"]
  by blast

text \<open>
  C36. A round of the heartbeat thread sends the eight bytes of a heartbeat frame exactly when nothing
  was sent for the negotiated interval, and then counts as outbound traffic; otherwise it sends
  nothing. After \<open>stop_io_\<close> is set the thread ends.
\<close>

theorem heartbeat_round:
  assumes "tcp_stream os (sock_fd (cl_sock c)) out inp" and "interrupts_bounded os (sock_fd (cl_sock c)) budget"
    and "send_accepts os (sock_fd (cl_sock c))" and "now_keeps os out" and "cl_writer c"
    and "os_now os w = (now, w1)"
  shows "\<exists>c' w'. heartbeat_tick os (c, w) = Some (c', w') \<and>
    (if cl_stop_io c then c' = c\<lparr>cl_heartbeat_thread := False\<rparr> \<and> w' = w
     else if now - cl_last_outbound_at c \<ge> 1000000000 * uint (cl_negotiated_heartbeat c)
     then c' = c\<lparr>cl_last_outbound_at := now\<rparr> \<and> out w' = out w @ [0, 0, 0, 4, 0, 0x17, 0, 1]
     else c' = c \<and> out w' = out w)"
  using heartbeat_tick_done [OF assms, unfolded seconds_def] by (simp only: mult.commute)

theorem heartbeat_round_witness:
  "\<exists>c' w'. heartbeat_tick sim_os (sim_client, (sim_start [])\<lparr>sim_clock := 40000000000\<rparr>) = Some (c', w') \<and>
     cl_last_outbound_at c' = 40000000000 \<and> sim_out w' = [0, 0, 0, 4, 0, 0x17, 0, 1]"
  using heartbeat_round [OF sim_tcp_stream sim_interrupts_bounded sim_send_accepts sim_now_keeps(1) _ sim_now,
      of sim_client "(sim_start [])\<lparr>sim_clock := 40000000000\<rparr>"] by auto

text \<open>
  C27. The connection is kept alive. From one check of the heartbeat thread to the next at most \<open>d\<close>
  passes (its sleep of half a second, the scheduler and the write), and the other threads only send.
  Then, after any number of rounds, the last outbound frame is less than the negotiated interval and \<open>d\<close>
  ago; if the interval has passed the eight bytes of a heartbeat are sent, and after the check it is less
  than the interval ago. The loop of the thread runs through exactly these rounds.
\<close>

theorem heartbeats_on_time:
  assumes "tcp_stream os (sock_fd (cl_sock c)) out inp" and "interrupts_bounded os (sock_fd (cl_sock c)) budget"
    and "send_accepts os (sock_fd (cl_sock c))" and "now_keeps os out"
    and "others_send env" and "paced os env d"
    and "\<not> cl_stop_io c" and "cl_writer c" and "0 < cl_negotiated_heartbeat c"
    and "fst (os_now os (snd (env_sleep env (c, w)))) - cl_last_outbound_at c <
      seconds (uint (cl_negotiated_heartbeat c)) + d"
  shows "\<exists>st' c1 w1 c2 w2. heartbeat_rounds os env n (c, w) = Some st' \<and>
    heartbeat_loop os env (c, w) = heartbeat_loop os env st' \<and>
    env_sleep env st' = (c1, w1) \<and> heartbeat_tick os (c1, w1) = Some (c2, w2) \<and>
    fst (os_now os w1) - cl_last_outbound_at c1 < seconds (uint (cl_negotiated_heartbeat c)) + d \<and>
    fst (os_now os w1) - cl_last_outbound_at c2 < seconds (uint (cl_negotiated_heartbeat c)) \<and>
    out w2 = out w1 @
      (if seconds (uint (cl_negotiated_heartbeat c)) \<le> fst (os_now os w1) - cl_last_outbound_at c1
       then [0, 0, 0, 4, 0, 0x17, 0, 1] else [])"
proof -
  have "beating os env (cl_sock c) (cl_negotiated_heartbeat c) d (c, w)"
    using assms(7,8,10) by (simp add: beating_def on_time_def)
  from heartbeat_rounds_on_time [OF assms(1-6,9) this, of n] obtain st' where
    st': "heartbeat_rounds os env n (c, w) = Some st'" "heartbeat_loop os env (c, w) = heartbeat_loop os env st'"
    and beat: "beating os env (cl_sock c) (cl_negotiated_heartbeat c) d st'" by blast
  obtain c1 w1 where o: "env_sleep env st' = (c1, w1)" by fastforce
  from heartbeat_round_on_time [OF assms(1-6,9) beat o] st' o show ?thesis by blast
qed

theorem heartbeats_on_time_witness:
  "\<exists>st' c1 w1 c2 w2. heartbeat_rounds sim_os sim_env 7 (sim_client, (sim_start [])\<lparr>sim_clock := 29999990000\<rparr>) = Some st' \<and>
    env_sleep sim_env st' = (c1, w1) \<and> heartbeat_tick sim_os (c1, w1) = Some (c2, w2) \<and>
    fst (os_now sim_os w1) - cl_last_outbound_at c1 < 30000001000"
proof -
  have "others_send sim_env" by (simp add: others_send_def)
  moreover have "fst (os_now sim_os (snd (env_sleep sim_env (sim_client, (sim_start [])\<lparr>sim_clock := 29999990000\<rparr>)))) -
      cl_last_outbound_at sim_client < seconds (uint (cl_negotiated_heartbeat sim_client)) + 1000"
    by (simp add: sim_now seconds_def)
  moreover have "0 < cl_negotiated_heartbeat sim_client" by simp
  ultimately show ?thesis
    using heartbeats_on_time [OF sim_tcp_stream sim_interrupts_bounded sim_send_accepts sim_now_keeps(1) _ sim_paced,
        of sim_client "(sim_start [])\<lparr>sim_clock := 29999990000\<rparr>" 7]
    by (auto simp: seconds_def)
qed

text \<open>
  C26. A server that has gone silent is noticed. With heartbeats on, when every receive runs into its
  timeout (which takes between \<open>lo\<close> and \<open>hi\<close>) and the other threads are waiting, the I/O thread ends: not
  before two heartbeat intervals without an inbound frame have passed, and at most one receive timeout
  later. Every pending request then has an error, \<open>RequestTimeout\<close> if its deadline came first and
  \<open>ConnectionClosed\<close> otherwise; the client is \<open>Closed\<close>, no future is without a value, and the application's
  handler is called once, with the reason \<open>HeartbeatTimeout\<close>.
\<close>

theorem silent_server_detected:
  assumes "silent os (sock_fd (cl_sock c)) lo hi" and "0 < lo" and "\<And>st. env_others env st = st"
    and "client_ok c" and "cl_state c = Open" and "\<not> cl_stop_io c" and "\<not> cl_unexpected_fired c"
    and "0 < cl_negotiated_heartbeat c"
    and "fst (os_now os w) - cl_last_inbound_at c \<le> 2 * seconds (uint (cl_negotiated_heartbeat c))"
  shows "\<exists>c' u. io_loop os env (c, snd (os_now os w)) = Some (c', snd (os_now os u)) \<and>
    2 * seconds (uint (cl_negotiated_heartbeat c)) < fst (os_now os u) - cl_last_inbound_at c \<and>
    fst (os_now os u) - cl_last_inbound_at c \<le> 2 * seconds (uint (cl_negotiated_heartbeat c)) + hi \<and>
    cl_state c' = Closed \<and> unsettled (cl_dispatcher c') = {} \<and>
    cl_callbacks c' = cl_callbacks c @
      (case cl_on_unexpected_close c of None \<Rightarrow> [] | Some cb \<Rightarrow> [(cb, heartbeat_lost)]) \<and>
    (\<forall>(cid, e)\<in>set (ds_pending (cl_dispatcher c)).
       ds_shared (cl_dispatcher c') ! pe_promise e = Ready (Err heartbeat_timeout) \<or>
       ds_shared (cl_dispatcher c') ! pe_promise e = Ready (Err request_timed_out) \<and>
         pe_deadline e - cl_last_inbound_at c \<le> 2 * seconds (uint (cl_negotiated_heartbeat c)))"
proof -
  let ?dead = "2 * seconds (uint (cl_negotiated_heartbeat c))"
  have dead: "dead_interval c = ?dead" using assms(8) by (simp add: dead_interval_def seconds_def)
  have "fst (os_now os w) \<le> cl_last_inbound_at c + dead_interval c" using assms(9) dead by simp
  from io_loop_silent [OF assms(1-3,6,8) refl this] obtain ns u where
    run: "io_loop os env (c, snd (os_now os w)) = Some (io_exit (notify_unexpected_close heartbeat_lost
      (client_fail_all heartbeat_timeout (fold client_reap ns c))), snd (os_now os u))"
    and ns: "\<forall>n\<in>set ns. n \<le> cl_last_inbound_at c + ?dead"
    and u: "cl_last_inbound_at c + ?dead < fst (os_now os u)" "fst (os_now os u) \<le> cl_last_inbound_at c + ?dead + hi"
    unfolding dead by blast
  let ?c1 = "fold client_reap ns c"
  let ?c' = "io_exit (notify_unexpected_close heartbeat_lost (client_fail_all heartbeat_timeout ?c1))"
  have ok1: "dispatcher_ok (cl_dispatcher ?c1)"
    using client_steps_ok [OF fold_reap_steps [of c ns] assms(4)] by (auto simp: client_ok_def)
  have "unsettled (cl_dispatcher ?c') = {}" "cl_state ?c' = Closed"
    "cl_callbacks ?c' = cl_callbacks c @
      (case cl_on_unexpected_close c of None \<Rightarrow> [] | Some cb \<Rightarrow> [(cb, heartbeat_lost)])"
    using fail_all_unsettled [OF ok1, of heartbeat_timeout] assms(5,7)
    by (simp_all add: io_exit_def notify_unexpected_close_def client_fail_all_def Let_def split: option.split)
  moreover have "ds_shared (cl_dispatcher ?c') ! pe_promise e = Ready (Err heartbeat_timeout) \<or>
      ds_shared (cl_dispatcher ?c') ! pe_promise e = Ready (Err request_timed_out) \<and>
        pe_deadline e - cl_last_inbound_at c \<le> ?dead" if "(cid, e) \<in> set (ds_pending (cl_dispatcher c))" for cid e
    using silent_outcome [OF assms(4) that, of ns] ns by (fastforce split: if_splits)
  ultimately show ?thesis using run u by (intro exI [of _ ?c'] exI [of _ u]) auto
qed

theorem silent_server_detected_witness:
  "\<exists>c' u. io_loop silent_os (serving silent_os) (two_waiting, snd (os_now silent_os (sim_start []))) =
      Some (c', snd (os_now silent_os u)) \<and>
    60000000000 < fst (os_now silent_os u) \<and> fst (os_now silent_os u) \<le> 75000001000 \<and>
    cl_callbacks c' = [(7, heartbeat_lost)] \<and> unsettled (cl_dispatcher c') = {}"
proof -
  have "silent silent_os (sock_fd (cl_sock two_waiting)) 15000001000 15000001000" by (rule silent_os_silent)
  moreover have "env_others (serving silent_os) st = st" for st by simp
  moreover have "client_ok two_waiting" using two_waiting_ready by (simp add: ready_def)
  moreover have "cl_last_inbound_at two_waiting = 0" "cl_negotiated_heartbeat two_waiting = 30"
    by (simp_all add: two_waiting_def sim_client_def become_open_def store_handshake_def set_state_def StreamClient_def
        sim_result_def case_prod_unfold Let_def on_unexpected_close_def next_app_cid_def client_register_def)
  moreover have "fst (os_now silent_os (sim_start [])) = 0" by (simp add: silent_os_def sim_os_def sim_start_def)
  ultimately show ?thesis
    using silent_server_detected [of silent_os two_waiting 15000001000 15000001000 "serving silent_os" "sim_start []"]
      two_waiting_fields
    by (auto simp: seconds_def)
qed

section \<open>Concurrent writers\<close>

text \<open>
  C11. Any number of threads (application threads and the heartbeat thread) call \<open>write_all\<close> on the one
  writer, and \<open>send\<close> may take any part of what is left. At every moment the bytes on the wire are those
  of the finished calls, in the order in which they took the mutex, each call's bytes in one piece and
  in order, followed by those of the one call that is in the loop. So when no call failed and each
  wrote a frame, the peer reads exactly these frames.
\<close>

theorem writes_serialized:
  assumes "writer_steps (new_writer out) s"
  shows "ws_out s = out @ accepted_bytes (ws_log s) @ in_flight s \<and>
    (\<forall>t u. is_sending (ws_threads s t) \<and> is_sending (ws_threads s u) \<longrightarrow> t = u) \<and>
    (out = [] \<and> ws_mutex s = None \<and> map snd (ws_log s) = map (\<lambda>f. (enc_frame f, length (enc_frame f))) fs \<and>
       list_all valid_frame fs \<longrightarrow>
     rloop read_frame_auto (length fs) [] (reader_of (ws_out s)) = (Ok fs, reader_at (ws_out s) []))"
proof -
  have ok: "writer_ok out s" by (rule writer_steps_ok [OF assms writer_ok_new])
  have out: "ws_out s = out @ accepted_bytes (ws_log s) @ in_flight s" using ok by (simp add: writer_ok_def)
  have single: "t = u" if "is_sending (ws_threads s t)" "is_sending (ws_threads s u)" for t u
    using that sending_iff [OF ok] by simp
  have read: "rloop read_frame_auto (length fs) [] (reader_of (ws_out s)) = (Ok fs, reader_at (ws_out s) [])"
    if "out = []" "ws_mutex s = None" and log: "map snd (ws_log s) = map (\<lambda>f. (enc_frame f, length (enc_frame f))) fs"
      and "list_all valid_frame fs"
  proof -
    have "accepted_bytes (ws_log s) = concat (map (\<lambda>(data, sent). take sent data) (map snd (ws_log s)))"
      by (simp add: accepted_bytes_def case_prod_unfold comp_def)
    also have "\<dots> = concat (map enc_frame fs)" unfolding log by (simp add: comp_def)
    finally have "ws_out s = concat (map enc_frame fs)" using out that by (simp add: in_flight_def)
    with frames_loop [of fs "[]" "[]" "[]"] that(4) show ?thesis by (simp add: reader_of_at list_all_iff)
  qed
  show ?thesis
    by (intro conjI allI impI) (rule out, elim conjE, erule (1) single, elim conjE, rule read)
qed

text \<open>Two threads: the second waits for the mutex while the first is between two calls of \<open>send\<close>.\<close>

definition contended_writer :: socket_writer where
  "contended_writer =
     (let s = set_thread 1 (Blocked [9]) (set_thread 0 (Blocked [1, 2, 3]) (new_writer []))
      in writer_accept 0 [1, 2, 3] 0 2 ((set_thread 0 (Sending [1, 2, 3] 0) s)\<lparr>ws_mutex := Some 0\<rparr>))"

theorem writes_serialized_witness: "ws_out contended_writer = in_flight contended_writer"
proof -
  let ?s1 = "set_thread 0 (Blocked [1, 2, 3]) (new_writer [])"
  let ?s2 = "set_thread 1 (Blocked [9]) ?s1"
  let ?s3 = "(set_thread 0 (Sending [1, 2, 3] 0) ?s2)\<lparr>ws_mutex := Some 0\<rparr>"
  have "writer_step (new_writer []) ?s1" "writer_step ?s1 ?s2"
    by (rule writer_step.call, simp add: new_writer_def set_thread_def)+
  moreover have "writer_step ?s2 ?s3"
    by (rule writer_step.lock [of _ 0 "[1, 2, 3]"]) (simp_all add: new_writer_def set_thread_def writer_lock_def)
  moreover have "writer_step ?s3 contended_writer"
    unfolding contended_writer_def Let_def by (rule writer_step.accepted) (simp_all add: set_thread_def)
  ultimately have "writer_steps (new_writer []) contended_writer"
    by (meson converse_rtranclp_into_rtranclp rtranclp.rtrancl_refl)
  moreover have "ws_log contended_writer = []"
    by (simp add: contended_writer_def new_writer_def set_thread_def writer_accept_def)
  ultimately show ?thesis using writes_serialized [of "[]" contended_writer] by (simp add: accepted_bytes_def)
qed

section \<open>Complete exchanges\<close>

text \<open>
  C6. A request is answered. On an open client whose connection works, with the I/O thread scheduled
  while the application waits and the response the next frame of the server, \<open>send_and_wait\<close> returns
  that frame before its timeout. It has sent exactly the request frame and consumed exactly the
  response; the client is ready for the next request and nothing else of the session changed.
\<close>

theorem request_completes:
  assumes "connection os (cl_sock c) out inp budget"
    and "clock_within os start (ms (cfg_request_timeout (cl_cfg c)))"
    and "ready c" and "cl_next_app_cid c \<noteq> -1"
    and "cl_negotiated_frame_max c = 0 \<or> 8 + length body \<le> unat (cl_negotiated_frame_max c)"
    and "valid_frame f" and "is_response (fr_key f)" and "fr_cid f = Some (cl_next_app_cid c)"
    and "inp w = enc_frame f @ t"
  shows "\<exists>c' w'. send_and_wait os (serving os) key version body (c, w) = Some (Ok f, (c', w')) \<and>
    out w' = out w @ encode_request_frame key version (cl_next_app_cid c) body \<and> inp w' = t \<and>
    ready c' \<and> same_session c c' \<and> cl_next_app_cid c' = cl_next_app_cid c + 1"
  using request_served [OF assms(1,2) _ assms(3-9), of io_only key version]
  unfolding serving_def by (auto simp: undisturbed_def io_only_def)

theorem request_completes_witness:
  "\<exists>c' w'. send_and_wait calm_os (serving calm_os) CreateRequest_kKey 1 [0, 1, 65]
      (sim_client, sim_start (enc_frame answer_100 @ [7])) = Some (Ok answer_100, (c', w')) \<and>
    sim_out w' = encode_request_frame CreateRequest_kKey 1 100 [0, 1, 65] \<and> sim_in w' = [7]"
proof -
  have "ready sim_client" by (simp add: ready_def sim_client_ok sim_client_cids)
  moreover have "clock_within calm_os 0 (ms (cfg_request_timeout (cl_cfg sim_client)))"
    using calm_clock by (simp add: default_config_def)
  ultimately show ?thesis
    using request_completes [OF calm_connection, of 0 sim_client "[0, 1, 65]" answer_100
        "sim_start (enc_frame answer_100 @ [7])" "[7]" CreateRequest_kKey 1] answer_100_frame
    by auto
qed

text \<open>
  C7. Requests of several threads do not mix up their responses. Any number of requests are sent one
  after the other and are pending together; the server sends any frames, in any order. Each request has
  its own correlation id, the bytes sent are exactly the frames of the requests, and after the I/O
  thread has handled the frames, the future of request \<open>i\<close> holds the first response with its id, or the
  request is still pending if there was none.
\<close>

theorem responses_matched:
  assumes "connection os (cl_sock c) out inp budget"
    and "clock_within os start (ms (cfg_request_timeout (cl_cfg c)))"
    and "ready c" and "unat (cl_next_app_cid c) + length reqs < 2 ^ 32"
    and "\<forall>(key, version, body)\<in>set reqs.
           cl_negotiated_frame_max c = 0 \<or> 8 + length body \<le> unat (cl_negotiated_frame_max c)"
    and "\<forall>f\<in>set fs. valid_frame f" and "inp w = concat (map enc_frame fs) @ rest"
  shows "\<exists>ps c1 w1 c' w'. begin_requests os reqs (c, w) = Some (Ok ps, (c1, w1)) \<and> length ps = length reqs \<and>
    (io_turn os ^^ length fs) (c1, w1) = (c', w') \<and>
    out w' = out w @ request_frames (cl_next_app_cid c) reqs \<and> inp w' = rest \<and> ready c' \<and>
    (\<forall>i < length reqs.
       case find (answers (cl_next_app_cid c + of_nat i)) fs of
         Some f \<Rightarrow> future_get (ps ! i) (c', w') = Some (Ok f, (c', w'))
       | None \<Rightarrow> awaits os c' (cl_next_app_cid c + of_nat i) (ps ! i))"
proof -
  have sess: "answering_session os (cl_sock c) (cl_cfg c) out inp budget start"
    using assms(1,2) by unfold_locales
  from answering_session.begin_requests_awaits [OF this assms(3) refl refl assms(4,5), of w]
  obtain ps c1 w1 where b: "begin_requests os reqs (c, w) = Some (Ok ps, (c1, w1))" "length ps = length reqs"
    "ready c1" "same_session c c1" "inp w1 = inp w" "out w1 = out w @ request_frames (cl_next_app_cid c) reqs"
    "\<And>i. i < length reqs \<Longrightarrow> awaits os c1 (cl_next_app_cid c + of_nat i) (ps ! i)" by auto
  have "cl_sock c1 = cl_sock c" "inp w1 = concat (map enc_frame fs) @ rest"
    using b(4,5) assms(7) by (simp_all add: same_session_def)
  from answering_session.turns [OF sess b(3) this(1) assms(6) this(2)]
  obtain c' w' where t: "(io_turn os ^^ length fs) (c1, w1) = (c', w')" "ready c'" "out w' = out w1" "inp w' = rest"
    "\<And>cid p. awaits os c1 cid p \<Longrightarrow>
       case find (answers cid) fs of None \<Rightarrow> awaits os c' cid p | Some f \<Rightarrow> resolved c' p f" by auto
  have "case find (answers (cl_next_app_cid c + of_nat i)) fs of
      Some f \<Rightarrow> future_get (ps ! i) (c', w') = Some (Ok f, (c', w'))
    | None \<Rightarrow> awaits os c' (cl_next_app_cid c + of_nat i) (ps ! i)" if "i < length reqs" for i
    using t(5) [OF b(7) [OF that]] by (simp add: resolved_def future_get_def split: option.splits)
  then show ?thesis using b(1,2,6) t(1-4) by auto
qed

text \<open>Two requests, answered in the opposite order with a heartbeat between the responses.\<close>

definition answer_101 :: incoming_frame where
  "answer_101 = answer_100\<lparr>fr_cid := Some 101\<rparr>"

definition heartbeat_received :: incoming_frame where
  "heartbeat_received = \<lparr>fr_key = key_Heartbeat, fr_version = 1, fr_body = [], fr_cid = None\<rparr>"

lemma crossed_frames:
  "valid_frame answer_101" "is_response (fr_key answer_101)" "fr_cid answer_101 = Some 101"
  "valid_frame heartbeat_received" "\<not> answers cid heartbeat_received"
  using answer_100_frame
  by (simp_all add: answer_101_def heartbeat_received_def valid_frame_def frame_size_def enc_cid_def answers_def
      is_response_def wire_consts)

theorem responses_matched_witness:
  "\<exists>p q c1 w1 c' w'.
     begin_requests calm_os [(CreateRequest_kKey, 1, [0, 1, 65]), (DeleteRequest_kKey, 1, [0, 1, 66])]
       (sim_client, sim_start (enc_frame answer_101 @ enc_frame heartbeat_received @ enc_frame answer_100)) =
         Some (Ok [p, q], (c1, w1)) \<and>
     (io_turn calm_os ^^ 3) (c1, w1) = (c', w') \<and>
     future_get p (c', w') = Some (Ok answer_100, (c', w')) \<and> future_get q (c', w') = Some (Ok answer_101, (c', w'))"
proof -
  let ?reqs = "[(CreateRequest_kKey, 1, [0, 1, 65]), (DeleteRequest_kKey, 1, [0, 1, 66])] :: (u16 \<times> u16 \<times> bytes) list"
  let ?fs = "[answer_101, heartbeat_received, answer_100]"
  let ?w = "sim_start (enc_frame answer_101 @ enc_frame heartbeat_received @ enc_frame answer_100)"
  have "connection calm_os (cl_sock sim_client) sim_out sim_in sim_signals" by (rule calm_connection)
  moreover have "clock_within calm_os 0 (ms (cfg_request_timeout (cl_cfg sim_client)))"
    using calm_clock by (simp add: default_config_def)
  moreover have "ready sim_client" by (simp add: ready_def sim_client_ok sim_client_cids)
  moreover have "unat (cl_next_app_cid sim_client) + length ?reqs < 2 ^ 32"
    "\<forall>(key, version, body)\<in>set ?reqs. cl_negotiated_frame_max sim_client = 0 \<or>
       8 + length body \<le> unat (cl_negotiated_frame_max sim_client)"
    by simp_all
  moreover have "\<forall>f\<in>set ?fs. valid_frame f" "sim_in ?w = concat (map enc_frame ?fs) @ []"
    using answer_100_frame crossed_frames by simp_all
  ultimately obtain ps c1 w1 c' w' where r: "begin_requests calm_os ?reqs (sim_client, ?w) = Some (Ok ps, (c1, w1))"
    "length ps = length ?reqs" "(io_turn calm_os ^^ length ?fs) (c1, w1) = (c', w')"
    and got: "\<forall>i < length ?reqs. case find (answers (cl_next_app_cid sim_client + of_nat i)) ?fs of
       Some f \<Rightarrow> future_get (ps ! i) (c', w') = Some (Ok f, (c', w'))
     | None \<Rightarrow> awaits calm_os c' (cl_next_app_cid sim_client + of_nat i) (ps ! i)"
    using responses_matched [of calm_os sim_client sim_out sim_in sim_signals 0 ?reqs ?fs ?w "[]"] by blast
  have "find (answers 100) ?fs = Some answer_100" "find (answers 101) ?fs = Some answer_101"
    using answer_100_frame crossed_frames by (simp_all add: answers_def [of _ answer_100] answers_def [of _ answer_101])
  with spec [OF got, of 0] spec [OF got, of 1]
  have "future_get (ps ! 0) (c', w') = Some (Ok answer_100, (c', w'))"
    "future_get (ps ! 1) (c', w') = Some (Ok answer_101, (c', w'))" by (simp_all del: find.simps)
  moreover obtain p q where "ps = [p, q]" using r(2) by (auto simp: length_Suc_conv)
  ultimately show ?thesis using r(1,3) by (auto simp: numeral_3_eq_3)
qed

text \<open>
  C24. The server may close the connection at any point, also in the middle of a frame. After any number
  of complete frames and the beginning of one more, the I/O thread ends, whatever the other threads of the
  client do meanwhile: before each frame is handled, and between \<open>fail_all_pending\<close>, the test of \<open>closing_\<close>, the
  notification and the last change of the state. It was told to stop by \<open>close\<close> or the destructor, or every request
  that was registered before has a result and the application was notified, unless it is closing the
  connection itself. A request that another thread registers after \<open>fail_all_pending\<close> is not settled here; its
  thread waits for its own timeout. The client is no longer \<open>Open\<close>.
\<close>

theorem peer_close_handled:
  assumes "connection os s out inp budget" and "recv_ends os (sock_fd s) inp"
    and "env_ok env" and "others_keep env inp"
    and "client_ok c" and "cl_io_thread c" and "cl_sock c = s"
    and "\<forall>f\<in>set fs. valid_frame f" and "valid_frame g" and "k < length (enc_frame g)"
    and "inp w = concat (map enc_frame fs) @ take k (enc_frame g)"
  shows "\<exists>c' w'. io_loop os env (c, w) = Some (c', w') \<and> \<not> cl_io_thread c' \<and>
    (cl_state c' = Closing \<or> cl_state c' = Closed) \<and>
    (cl_stop_io c' \<or> unsettled (cl_dispatcher c') \<subseteq> {length (ds_shared (cl_dispatcher c))..} \<and>
       (cl_closing c' \<or> cl_unexpected_fired c'))"
proof -
  have "enc_frame g = take k (enc_frame g) @ drop k (enc_frame g)" "drop k (enc_frame g) \<noteq> []"
    using assms(10) by simp_all
  with assms(9) have "cut_frame (take k (enc_frame g))" unfolding cut_frame_def by blast
  from io_loop_ends [OF assms(1-6) _ assms(8,11) this] assms(7) show ?thesis by (simp add: io_ended_def)
qed

theorem peer_close_handled_witness:
  "\<exists>c' w'. io_loop closing_os (serving closing_os)
      (sim_client, sim_start (enc_frame answer_100 @ take 5 (enc_frame answer_101))) = Some (c', w') \<and>
    \<not> cl_io_thread c' \<and> (cl_state c' = Closing \<or> cl_state c' = Closed)"
proof -
  have "others_keep (serving closing_os) sim_in" by (simp add: others_keep_def)
  moreover have "5 < length (enc_frame answer_101)" by (simp add: length_enc_frame frame_size_def)
  ultimately show ?thesis
    using peer_close_handled [OF closing_connection closing_recv_ends serving_ok _ sim_client_ok, of closing_os
        sim_socket "[answer_100]" answer_101 5 "sim_start (enc_frame answer_100 @ take 5 (enc_frame answer_101))"]
      answer_100_frame(1) crossed_frames(1)
    by auto
qed

text \<open>
  C25. Nobody waits for a lost connection. When the server closes the connection of an open client, after
  any frames and also in the middle of one, and the other threads are waiting, every pending request
  gets a result: the first response with its correlation id if there was one among these frames, the error
  \<open>ConnectionClosed\<close> otherwise. The client is \<open>Closed\<close>, it has sent nothing more, and the application's
  handler, if there is one, is called exactly once, with the reason \<open>PeerClosedSocket\<close>.
\<close>

theorem connection_loss_reported:
  assumes "connection os (cl_sock c) out inp budget" and "recv_ends os (sock_fd (cl_sock c)) inp"
    and "clock_within os start (ms (cfg_request_timeout (cl_cfg c)))"
    and "\<And>st. env_others env st = st"
    and "ready c" and "\<not> cl_stop_io c" and "\<not> cl_closing c" and "\<not> cl_unexpected_fired c"
    and "\<forall>f\<in>set fs. valid_frame f" and "valid_frame g" and "k < length (enc_frame g)"
    and "inp w = concat (map enc_frame fs) @ take k (enc_frame g)"
  shows "\<exists>c' w'. io_loop os env (c, w) = Some (c', w') \<and> cl_state c' = Closed \<and> out w' = out w \<and>
    (\<forall>cid p. awaits os c cid p \<longrightarrow> future_get p (c', w') =
       Some (case find (answers cid) fs of
               Some f \<Rightarrow> Ok f
             | None \<Rightarrow> Err (StreamError ConnectionClosed ''peer closed connection''), (c', w'))) \<and>
    cl_callbacks c' = cl_callbacks c @
      (case cl_on_unexpected_close c of
         None \<Rightarrow> []
       | Some cb \<Rightarrow> [(cb, \<lparr>uc_reason = PeerClosedSocket, uc_message = ''peer closed connection'',
                        uc_during_handshake = False\<rparr>)])"
proof -
  have sess: "answering_session os (cl_sock c) (cl_cfg c) out inp budget start"
    using assms(1,3) by unfold_locales
  have evt: "read_failed peer_closed = \<lparr>uc_reason = PeerClosedSocket, uc_message = ''peer closed connection'',
      uc_during_handshake = False\<rparr>"
    by (simp add: read_failed_def peer_closed_def)
  have "enc_frame g = take k (enc_frame g) @ drop k (enc_frame g)" "drop k (enc_frame g) \<noteq> []"
    using assms(11) by simp_all
  with assms(10) have "cut_frame (take k (enc_frame g))" unfolding cut_frame_def by blast
  from answering_session.connection_lost [OF sess assms(4,2,5) refl assms(6-9,12) this]
  show ?thesis unfolding evt unfolding peer_closed_def .
qed

lemma closing_clock: "clock_within closing_os 0 (ms 10000)" "fst (os_now closing_os w) < 10000000000"
  using calm_clock by (simp_all add: clock_within_def closing_os_def ms_def)

lemma two_waiting_awaits: "awaits closing_os two_waiting 100 0" "awaits closing_os two_waiting 101 1"
  by (simp_all add: awaits_def two_waiting_fields closing_clock(2))

theorem connection_loss_reported_witness:
  "\<exists>c' w'. io_loop closing_os (serving closing_os)
      (two_waiting, sim_start (enc_frame answer_101 @ take 5 (enc_frame answer_100))) = Some (c', w') \<and>
    cl_state c' = Closed \<and> map fst (cl_callbacks c') = [7] \<and>
    future_get 0 (c', w') = Some (Err (StreamError ConnectionClosed ''peer closed connection''), (c', w')) \<and>
    future_get 1 (c', w') = Some (Ok answer_101, (c', w'))"
proof -
  let ?w = "sim_start (enc_frame answer_101 @ take 5 (enc_frame answer_100))"
  have "connection closing_os (cl_sock two_waiting) sim_out sim_in sim_signals"
    "recv_ends closing_os (sock_fd (cl_sock two_waiting)) sim_in"
    by (rule closing_connection, rule closing_recv_ends)
  moreover have "clock_within closing_os 0 (ms (cfg_request_timeout (cl_cfg two_waiting)))"
    using closing_clock(1) by (simp add: two_waiting_fields default_config_def)
  moreover have "env_others (serving closing_os) st = st" for st by simp
  moreover have "\<forall>f\<in>set [answer_101]. valid_frame f" "valid_frame answer_100" "5 < length (enc_frame answer_100)"
    "sim_in ?w = concat (map enc_frame [answer_101]) @ take 5 (enc_frame answer_100)"
    using answer_100_frame(1) crossed_frames(1) by (simp_all add: length_enc_frame frame_size_def)
  ultimately obtain c' w' where r: "io_loop closing_os (serving closing_os) (two_waiting, ?w) = Some (c', w')"
    "cl_state c' = Closed"
    and got: "\<And>cid p. awaits closing_os two_waiting cid p \<Longrightarrow> future_get p (c', w') =
       Some (case find (answers cid) [answer_101] of
               Some f \<Rightarrow> Ok f
             | None \<Rightarrow> Err (StreamError ConnectionClosed ''peer closed connection''), (c', w'))"
    and cb: "map fst (cl_callbacks c') = [7]"
    using connection_loss_reported [of closing_os two_waiting sim_out sim_in sim_signals 0 "serving closing_os"
        "[answer_101]" answer_100 5 ?w] two_waiting_ready two_waiting_fields(6-10)
    by auto
  have "find (answers 100) [answer_101] = None" "find (answers 101) [answer_101] = Some answer_101"
    using crossed_frames by (simp_all add: answers_def)
  with r cb got [OF two_waiting_awaits(1)] got [OF two_waiting_awaits(2)] show ?thesis by simp
qed

text \<open>The limits the example program negotiates, and that its \<open>Open\<close> request fits.\<close>

lemma example_limits:
  assumes "tune_frame_max (sa_tune a) = 0 \<or> 200 \<le> unat (tune_frame_max (sa_tune a))"
    and "tune_heartbeat (sa_tune a) = 0 \<or> 10 \<le> tune_heartbeat (sa_tune a)"
    and "hr = accepted_result (example_config io) a"
  shows "hr_negotiated_frame_max hr = 0 \<or> 200 \<le> unat (hr_negotiated_frame_max hr)"
    "open_fits (example_config io) (hr_negotiated_frame_max hr)"
    "hr_negotiated_heartbeat hr = 0 \<or> ms 10000 \<le> seconds (uint (hr_negotiated_heartbeat hr))"
proof -
  have fm: "hr_negotiated_frame_max hr = (if tune_frame_max (sa_tune a) = 0 then 1048576 else min (tune_frame_max (sa_tune a)) 1048576)"
    and hb: "hr_negotiated_heartbeat hr = min (tune_heartbeat (sa_tune a)) 60"
    by (simp_all add: assms(3) accepted_result_def negotiate_frame_max_def negotiate_heartbeat_def example_config_def
        default_config_def)
  from assms(1) fm show 1: "hr_negotiated_frame_max hr = 0 \<or> 200 \<le> unat (hr_negotiated_frame_max hr)"
    by (auto simp: min_def)
  have "cfg_virtual_host (example_config io) = ''/''" by (simp add: example_config_def default_config_def)
  with 1 show "open_fits (example_config io) (hr_negotiated_frame_max hr)"
    by (auto simp: open_fits_def enc_OpenRequest_def enc_string_def INT16_MAX_def)
  show "hr_negotiated_heartbeat hr = 0 \<or> ms 10000 \<le> seconds (uint (hr_negotiated_heartbeat hr))"
    using assms(2) unfolding hb by (auto simp: min_def ms_def seconds_def word_le_def)
qed

text \<open>
  C8. The example program. On a machine that reaches a broker which follows the protocol in the handshake and
  answers in order (the stream is created or exists, it is deleted or gone, the two queries are answered
  with any code), \<open>main\<close> terminates with status 0 if it is done within ten seconds. The connection is closed, the
  threads have ended, the unexpected-close handler was not called, and the bytes sent are exactly those of
  the handshake and of the six commands. The schedule is any one in which the I/O thread takes a turn in every
  wait: the heartbeat thread may check any number of times before it, and \<open>close\<close> may join the I/O thread inside a
  read with any result. The heartbeat that the server proposes is 0 or at least ten seconds; with a smaller
  one the program may send heartbeats in between, or report a lost connection.
\<close>

theorem getting_started_completes:
  assumes "connection os s out inp budget" and "clock_within os start (ms 10000)"
    and "accepts_connections os s (\<lambda>w. (out w, inp w))" and "prints_keep io (\<lambda>w. (out w, inp w))"
    and "\<forall>fd w. out (os_close os fd w) = out w"
    and "answers_ok a" and "tune_frame_max (sa_tune a) = 0 \<or> 200 \<le> unat (tune_frame_max (sa_tune a))"
    and "tune_heartbeat (sa_tune a) = 0 \<or> 10 \<le> tune_heartbeat (sa_tune a)"
    and "crr_response_code a1 = rc_Ok \<or> crr_response_code a1 = rc_StreamAlreadyExists"
    and "dlr_response_code a4 = rc_Ok \<or> dlr_response_code a4 = rc_StreamDoesNotExist"
    and "inp w = script_bytes (accepting_script a) @ example_answers a1 a2 a3 a4 a5 @ rest"
  shows "\<exists>c' w'. main os io (scheduled os sched) w = Some (0, (c', w')) \<and> cl_state c' = Closed \<and>
    \<not> cl_io_thread c' \<and> \<not> cl_heartbeat_thread c' \<and> cl_callbacks c' = [] \<and>
    out w' = out w @ handshake_bytes (example_config io) (length (sa_challenges a)) (accepted_result (example_config io) a) @
      example_requests"
proof -
  let ?hr = "accepted_result (example_config io) a"
  note limits = example_limits [OF assms(7,8) refl, of io]
  have sess: "example_session os s io out inp budget start sched (hr_negotiated_heartbeat ?hr)"
    using assms(1-5) limits(3) by unfold_locales
      (auto simp: example_config_def log_keeps_def make_logger_def Let_def prints_keep_def)
  have "length (sv_challenges (accepting_script a)) = length (sa_challenges a)"
    by (simp add: accepting_script_def Let_def)
  then show ?thesis
    using example_session.main_done [OF sess accepting_script_result [OF assms(6) limits(2)] refl limits(1) assms(9-11)]
    by (fastforce simp: closed_session_def)
qed

theorem getting_started_completes_witness:
  "\<exists>c' w'. main calm_os sim_stdio (scheduled calm_os busy) (sim_start (script_bytes (accepting_script sim_answers) @
      example_answers \<lparr>crr_response_code = rc_StreamAlreadyExists\<rparr> \<lparr>qor_response_code = rc_Ok, qor_offset = 42\<rparr>
        \<lparr>qpr_response_code = rc_StreamDoesNotExist, qpr_sequence = 0\<rparr> \<lparr>dlr_response_code = rc_Ok\<rparr>
        \<lparr>clr_response_code = rc_Ok\<rparr>)) = Some (0, (c', w')) \<and> cl_state c' = Closed \<and> cl_callbacks c' = []"
proof -
  have "\<forall>fd w. sim_out (os_close calm_os fd w) = sim_out w" by (simp add: calm_close)
  then show ?thesis
    using getting_started_completes [OF calm_connection calm_clock calm_accepts sim_prints _ sim_answers_ok, of
        "\<lparr>crr_response_code = rc_StreamAlreadyExists\<rparr>" "\<lparr>dlr_response_code = rc_Ok\<rparr>"
        "sim_start (script_bytes (accepting_script sim_answers) @
           example_answers \<lparr>crr_response_code = rc_StreamAlreadyExists\<rparr> \<lparr>qor_response_code = rc_Ok, qor_offset = 42\<rparr>
             \<lparr>qpr_response_code = rc_StreamDoesNotExist, qpr_sequence = 0\<rparr> \<lparr>dlr_response_code = rc_Ok\<rparr>
             \<lparr>clr_response_code = rc_Ok\<rparr>)"
        "\<lparr>qor_response_code = rc_Ok, qor_offset = 42\<rparr>" "\<lparr>qpr_response_code = rc_StreamDoesNotExist, qpr_sequence = 0\<rparr>"
        "\<lparr>clr_response_code = rc_Ok\<rparr>" "[]" busy]
    by (auto simp: sim_answers_def)
qed

end
